(* ===== verification/Prelude.thy ===== *)
theory Prelude
  imports Main "HOL-Library.Char_ord" "HOL-Library.List_Lexorder" "HOL-Library.Product_Lexorder"
    "HOL-Library.Sublist"
begin

text \<open>
  What every component of the operator shares.

  Text and bytes are both \<open>string\<close>: a Rust \<open>String\<close> is its UTF-8 bytes and an Isabelle
  \<open>char\<close> is one byte, so a \<open>Vec<u8>\<close> and a \<open>String\<close> have the same representation and
  \<open>as_bytes\<close> is the identity.  The order on strings is the lexicographic order on bytes,
  which is Rust's \<open>Ord\<close> for both types.

  An \<open>i64\<close> is an \<open>int\<close> with its range written out: \<open>wrap64\<close> is the release
  build's wrap-around and the \<open>checked_*\<close> functions are the checked operations.
  An \<open>OffsetDateTime\<close> is an \<open>int\<close>, in nanoseconds.

  A fallible pure function returns \<open>'e + 'a\<close>; a function that reads or changes the
  operator's state is an \<open>eff\<close>: it takes the state and returns a result and a state.
  \<open>valid\<close> is the partial-correctness judgement of such a function, with one post-condition
  for the returned value and one for the error.
\<close>

named_theorems run_simps \<open>evaluation of effectful programs\<close>
named_theorems valid_rules \<open>pre- and post-conditions of effectful programs\<close>

type_synonym bytes = string
type_synonym instant = int
type_synonym ('w, 'e, 'a) eff = "'w \<Rightarrow> ('e + 'a) \<times> 'w"

section \<open>64-bit integers\<close>

definition i64_min :: int where "i64_min = - 9223372036854775808"
definition i64_max :: int where "i64_max = 9223372036854775807"
definition u64_max :: int where "u64_max = 18446744073709551615"

definition in_i64 :: "int \<Rightarrow> bool" where
  "in_i64 x \<longleftrightarrow> i64_min \<le> x \<and> x \<le> i64_max"

definition wrap64 :: "int \<Rightarrow> int" where
  "wrap64 x = (x - i64_min) mod 18446744073709551616 + i64_min"

definition checked_i64 :: "int \<Rightarrow> int option" where
  "checked_i64 x = (if in_i64 x then Some x else None)"

definition checked_add64 :: "int \<Rightarrow> int \<Rightarrow> int option" where
  "checked_add64 x y = checked_i64 (x + y)"

definition checked_mul64 :: "int \<Rightarrow> int \<Rightarrow> int option" where
  "checked_mul64 x y = checked_i64 (x * y)"

lemmas i64_defs = i64_min_def i64_max_def in_i64_def

lemma wrap64_id [simp]: "in_i64 x \<Longrightarrow> wrap64 x = x"
  by (simp add: wrap64_def i64_defs)

lemma in_i64_wrap64 [simp]: "in_i64 (wrap64 x)"
proof -
  have "0 \<le> (x - i64_min) mod 18446744073709551616" "(x - i64_min) mod 18446744073709551616 < 18446744073709551616"
    by simp_all
  then show ?thesis by (simp add: wrap64_def i64_defs)
qed

lemma checked_i64_Some [simp]: "checked_i64 x = Some y \<longleftrightarrow> in_i64 x \<and> y = x"
  by (auto simp: checked_i64_def)

lemma checked_i64_in [simp]: "in_i64 x \<Longrightarrow> checked_i64 x = Some x"
  by simp

text \<open>Nanoseconds, and \<open>Duration::whole_seconds\<close>, which truncates towards zero.\<close>

definition nanos :: "int \<Rightarrow> int" where
  "nanos secs = secs * 1000000000"

definition whole_seconds :: "int \<Rightarrow> int" where
  "whole_seconds d = (if d < 0 then - ((- d) div 1000000000) else d div 1000000000)"

lemma whole_seconds_abs_le:
  "0 \<le> n \<Longrightarrow> \<bar>whole_seconds d\<bar> \<le> n \<longleftrightarrow> \<bar>d\<bar> < nanos (n + 1)"
  by (cases "d < 0") (simp_all add: whole_seconds_def nanos_def, linarith+)

section \<open>Results\<close>

definition and_then :: "'e + 'a \<Rightarrow> ('a \<Rightarrow> 'e + 'b) \<Rightarrow> 'e + 'b" where
  "and_then r f = (case r of Inl e \<Rightarrow> Inl e | Inr x \<Rightarrow> f x)"

definition ok_or :: "'e \<Rightarrow> 'a option \<Rightarrow> 'e + 'a" where
  "ok_or e o1 = (case o1 of None \<Rightarrow> Inl e | Some x \<Rightarrow> Inr x)"

definition guard_or :: "'e \<Rightarrow> bool \<Rightarrow> 'e + unit" where
  "guard_or e b = (if b then Inr () else Inl e)"

text \<open>\<open>map_err(|_| e)\<close>.\<close>

definition with_error :: "'e \<Rightarrow> 'f + 'a \<Rightarrow> 'e + 'a" where
  "with_error e r = (case r of Inl _ \<Rightarrow> Inl e | Inr x \<Rightarrow> Inr x)"

lemma with_error_simps [simp]:
  "with_error e r = Inr x \<longleftrightarrow> r = Inr x"
  "with_error e r = Inl e' \<longleftrightarrow> e' = e \<and> (\<exists>f. r = Inl f)"
  "with_error e (Inr x) = Inr x"
  by (auto simp: with_error_def split: sum.splits)

lemma and_then_simps [simp]:
  "and_then (Inl e) f = Inl e"
  "and_then (Inr x) f = f x"
  by (simp_all add: and_then_def)

lemma and_then_Inr_iff [simp]: "and_then r f = Inr y \<longleftrightarrow> (\<exists>x. r = Inr x \<and> f x = Inr y)"
  by (cases r) auto

lemma and_then_Inl_iff: "and_then r f = Inl e \<longleftrightarrow> r = Inl e \<or> (\<exists>x. r = Inr x \<and> f x = Inl e)"
  by (cases r) auto

lemma ok_or_simps [simp]:
  "ok_or e None = Inl e"
  "ok_or e (Some x) = Inr x"
  "ok_or e p = Inr y \<longleftrightarrow> p = Some y"
  "ok_or e p = Inl e' \<longleftrightarrow> p = None \<and> e' = e"
  by (auto simp: ok_or_def split: option.splits)

lemma guard_or_simps [simp]:
  "guard_or e True = Inr ()"
  "guard_or e False = Inl e"
  "guard_or e b = Inr u \<longleftrightarrow> b"
  "guard_or e b = Inl e' \<longleftrightarrow> \<not> b \<and> e' = e"
  by (auto simp: guard_or_def)

text \<open>\<open>iter().map(f).collect::<Result<Vec<_>>>()\<close>: the first error wins.\<close>

fun collect_results :: "('a \<Rightarrow> 'e + 'b) \<Rightarrow> 'a list \<Rightarrow> 'e + 'b list" where
  "collect_results f [] = Inr []"
| "collect_results f (x # xs) =
     and_then (f x) (\<lambda>y. and_then (collect_results f xs) (\<lambda>ys. Inr (y # ys)))"

lemma collect_results_Inr:
  "collect_results f xs = Inr ys \<longleftrightarrow> list_all2 (\<lambda>x y. f x = Inr y) xs ys"
  by (induction xs arbitrary: ys) (auto simp: list_all2_Cons1)

lemma collect_results_total:
  "(\<And>x. x \<in> set xs \<Longrightarrow> \<exists>y. f x = Inr y) \<Longrightarrow> \<exists>ys. collect_results f xs = Inr ys"
  by (induction xs) fastforce+

section \<open>Effectful programs\<close>

definition returnE :: "'a \<Rightarrow> ('w, 'e, 'a) eff" where
  "returnE x = (\<lambda>w. (Inr x, w))"

definition throwE :: "'e \<Rightarrow> ('w, 'e, 'a) eff" where
  "throwE e = (\<lambda>w. (Inl e, w))"

definition bindE :: "('w, 'e, 'a) eff \<Rightarrow> ('a \<Rightarrow> ('w, 'e, 'b) eff) \<Rightarrow> ('w, 'e, 'b) eff" where
  "bindE m f = (\<lambda>w. case m w of (r, w') \<Rightarrow> (case r of Inl e \<Rightarrow> (Inl e, w') | Inr x \<Rightarrow> f x w'))"

definition getE :: "('w \<Rightarrow> 'a) \<Rightarrow> ('w, 'e, 'a) eff" where
  "getE f = (\<lambda>w. (Inr (f w), w))"

definition modifyE :: "('w \<Rightarrow> 'w) \<Rightarrow> ('w, 'e, unit) eff" where
  "modifyE f = (\<lambda>w. (Inr (), f w))"

definition liftE :: "'e + 'a \<Rightarrow> ('w, 'e, 'a) eff" where
  "liftE r = (\<lambda>w. (r, w))"

text \<open>\<open>match m { Ok(x) => f x, Err(e) => h e }\<close> and the unconditional sequence.\<close>

definition matchE ::
  "('w, 'e, 'a) eff \<Rightarrow> ('e \<Rightarrow> ('w, 'e, 'b) eff) \<Rightarrow> ('a \<Rightarrow> ('w, 'e, 'b) eff) \<Rightarrow> ('w, 'e, 'b) eff" where
  "matchE m h f = (\<lambda>w. case m w of (r, w') \<Rightarrow> (case r of Inl e \<Rightarrow> h e w' | Inr x \<Rightarrow> f x w'))"

fun foldE :: "('a \<Rightarrow> 'b \<Rightarrow> ('w, 'e, 'b) eff) \<Rightarrow> 'a list \<Rightarrow> 'b \<Rightarrow> ('w, 'e, 'b) eff" where
  "foldE f [] acc = returnE acc"
| "foldE f (x # xs) acc = bindE (f x acc) (\<lambda>acc'. foldE f xs acc')"

lemma returnE_run [run_simps]: "returnE x w = (Inr x, w)"
  and throwE_run [run_simps]: "throwE e w = (Inl e, w)"
  and getE_run [run_simps]: "getE f w = (Inr (f w), w)"
  and modifyE_run [run_simps]: "modifyE g w = (Inr (), g w)"
  and liftE_run [run_simps]: "liftE r w = (r, w)"
  by (simp_all add: returnE_def throwE_def getE_def modifyE_def liftE_def)

lemma bindE_run [run_simps]:
  "bindE m f w = (case m w of (Inl e, w') \<Rightarrow> (Inl e, w') | (Inr x, w') \<Rightarrow> f x w')"
  by (simp add: bindE_def split: prod.splits)

lemma matchE_run [run_simps]:
  "matchE m h f w = (case m w of (Inl e, w') \<Rightarrow> h e w' | (Inr x, w') \<Rightarrow> f x w')"
  by (simp add: matchE_def split: prod.splits)

lemma bindE_Inr_iff:
  "bindE m f w = (Inr y, w') \<longleftrightarrow> (\<exists>x w1. m w = (Inr x, w1) \<and> f x w1 = (Inr y, w'))"
  by (auto simp: bindE_run split: prod.splits sum.splits)

lemma bindE_Inr_E:
  assumes "bindE m f w = (Inr y, w')"
  obtains x w1 where "m w = (Inr x, w1)" "f x w1 = (Inr y, w')"
  using assms by (auto simp: bindE_Inr_iff)

subsection \<open>Partial correctness\<close>

definition valid ::
  "('w \<Rightarrow> bool) \<Rightarrow> ('w, 'e, 'a) eff \<Rightarrow> ('a \<Rightarrow> 'w \<Rightarrow> bool) \<Rightarrow> ('e \<Rightarrow> 'w \<Rightarrow> bool) \<Rightarrow> bool" where
  "valid P m Q E \<longleftrightarrow>
     (\<forall>w. P w \<longrightarrow> (case m w of (r, w') \<Rightarrow> (case r of Inl e \<Rightarrow> E e w' | Inr x \<Rightarrow> Q x w')))"

text \<open>The state predicate \<open>I\<close> survives the program, whatever it returns.\<close>

definition keeps :: "('w \<Rightarrow> bool) \<Rightarrow> ('w, 'e, 'a) eff \<Rightarrow> bool" where
  "keeps I m \<longleftrightarrow> (\<forall>w. I w \<longrightarrow> I (snd (m w)))"

lemma keeps_valid: "keeps I m \<longleftrightarrow> valid I m (\<lambda>_. I) (\<lambda>_. I)"
  by (simp add: keeps_def valid_def case_prod_beta split: sum.split)

lemma validI:
  assumes "\<And>w x w'. P w \<Longrightarrow> m w = (Inr x, w') \<Longrightarrow> Q x w'"
    and "\<And>w e w'. P w \<Longrightarrow> m w = (Inl e, w') \<Longrightarrow> E e w'"
  shows "valid P m Q E"
  using assms by (auto simp: valid_def split: prod.splits sum.splits)

lemma validD: "valid P m Q E \<Longrightarrow> P w \<Longrightarrow> m w = (Inr x, w') \<Longrightarrow> Q x w'"
  and validD_err: "valid P m Q E \<Longrightarrow> P w \<Longrightarrow> m w = (Inl e, w') \<Longrightarrow> E e w'"
  by (fastforce simp: valid_def)+

lemma valid_conseq:
  "valid P' m Q' E' \<Longrightarrow> (\<And>w. P w \<Longrightarrow> P' w) \<Longrightarrow> (\<And>x w. Q' x w \<Longrightarrow> Q x w) \<Longrightarrow>
    (\<And>e w. E' e w \<Longrightarrow> E e w) \<Longrightarrow> valid P m Q E"
  by (fastforce simp: valid_def split: prod.splits sum.splits)

lemma valid_bind:
  "valid P m R E \<Longrightarrow> (\<And>x. valid (R x) (f x) Q E) \<Longrightarrow> valid P (bindE m f) Q E"
  by (fastforce simp: valid_def bindE_run split: prod.splits sum.splits)

lemma keepsD: "keeps I m \<Longrightarrow> I w \<Longrightarrow> m w = (r, w') \<Longrightarrow> I w'"
  by (force simp: keeps_def)

lemma keeps_return [valid_rules]: "keeps I (returnE x)"
  and keeps_throw [valid_rules]: "keeps I (throwE e)"
  and keeps_get [valid_rules]: "keeps I (getE f)"
  and keeps_lift [valid_rules]: "keeps I (liftE r)"
  by (simp_all add: keeps_def run_simps)

lemma keeps_bind [valid_rules]: "keeps I m \<Longrightarrow> (\<And>x. keeps I (f x)) \<Longrightarrow> keeps I (bindE m f)"
  by (fastforce simp: keeps_def bindE_run split: prod.splits sum.splits)

lemma keeps_match [valid_rules]:
  "keeps I m \<Longrightarrow> (\<And>e. keeps I (h e)) \<Longrightarrow> (\<And>x. keeps I (f x)) \<Longrightarrow> keeps I (matchE m h f)"
  by (fastforce simp: keeps_def matchE_run split: prod.splits sum.splits)

lemma keeps_fold [valid_rules]: "(\<And>x acc. keeps I (f x acc)) \<Longrightarrow> keeps I (foldE f xs acc)"
  by (induction xs arbitrary: acc) (auto intro: keeps_return keeps_bind)

lemma keeps_if [valid_rules]: "keeps I m \<Longrightarrow> keeps I m' \<Longrightarrow> keeps I (if b then m else m')"
  and keeps_option [valid_rules]:
    "keeps I n \<Longrightarrow> (\<And>x. keeps I (s x)) \<Longrightarrow> keeps I (case p of None \<Rightarrow> n | Some x \<Rightarrow> s x)"
  and keeps_let [valid_rules]: "(\<And>x. keeps I (f x)) \<Longrightarrow> keeps I (let x = v in f x)"
  and keeps_prod [valid_rules]: "(\<And>x y. keeps I (g x y)) \<Longrightarrow> keeps I (case q of (x, y) \<Rightarrow> g x y)"
  by (simp_all split: option.splits prod.splits)

lemma keeps_modify: "(\<And>w. I w \<Longrightarrow> I (g w)) \<Longrightarrow> keeps I (modifyE g)"
  by (simp add: keeps_def run_simps)

section \<open>Text\<close>

fun strip_prefix :: "string \<Rightarrow> string \<Rightarrow> string option" where
  "strip_prefix [] s = Some s"
| "strip_prefix (p # ps) [] = None"
| "strip_prefix (p # ps) (c # cs) = (if p = c then strip_prefix ps cs else None)"

definition strip_suffix :: "string \<Rightarrow> string \<Rightarrow> string option" where
  "strip_suffix suf s = map_option rev (strip_prefix (rev suf) (rev s))"

definition starts_with :: "string \<Rightarrow> string \<Rightarrow> bool" where
  "starts_with p s \<longleftrightarrow> strip_prefix p s \<noteq> None"

lemma strip_prefix_Some: "strip_prefix p s = Some r \<longleftrightarrow> s = p @ r"
  by (induction p s rule: strip_prefix.induct) auto

lemma strip_prefix_append [simp]: "strip_prefix p (p @ r) = Some r"
  by (simp add: strip_prefix_Some)

lemma strip_suffix_Some: "strip_suffix p s = Some r \<longleftrightarrow> s = r @ p"
  by (auto simp: strip_suffix_def strip_prefix_Some) (metis rev_append rev_rev_ident)

lemma strip_suffix_append [simp]: "strip_suffix p (r @ p) = Some r"
  by (simp add: strip_suffix_Some)

text \<open>\<open>str::trim\<close> on the ASCII white space, and \<open>str::split\<close> on one separator.\<close>

definition is_space :: "char \<Rightarrow> bool" where
  "is_space c \<longleftrightarrow> (let n = (of_char c :: nat) in n = 32 \<or> (9 \<le> n \<and> n \<le> 13))"

definition trim :: "string \<Rightarrow> string" where
  "trim s = rev (dropWhile is_space (rev (dropWhile is_space s)))"

fun split_on :: "char \<Rightarrow> string \<Rightarrow> string list" where
  "split_on d [] = [[]]"
| "split_on d (c # cs) =
     (if c = d then [] # split_on d cs
      else (case split_on d cs of [] \<Rightarrow> [[c]] | w # ws \<Rightarrow> (c # w) # ws))"

definition trim_end_slash :: "string \<Rightarrow> string" where
  "trim_end_slash s = rev (dropWhile (\<lambda>c. c = CHR ''/'') (rev s))"

definition is_lower_hex :: "char \<Rightarrow> bool" where
  "is_lower_hex c \<longleftrightarrow>
     (let n = (of_char c :: nat) in (48 \<le> n \<and> n \<le> 57) \<or> (97 \<le> n \<and> n \<le> 102))"

definition to_ascii_uppercase :: "string \<Rightarrow> string" where
  "to_ascii_uppercase = map (\<lambda>c. let n = (of_char c :: nat) in
     if 97 \<le> n \<and> n \<le> 122 then char_of (n - 32) else c)"

text \<open>\<open>String::from_utf8\<close>: the well-formed byte sequences of Unicode.\<close>

text \<open>The length of the sequence a first byte opens, and the range of its second byte.\<close>

definition utf8_head :: "nat \<Rightarrow> (nat \<times> nat \<times> nat) option" where
  "utf8_head a =
     (if a < 128 then Some (0, 0, 0)
      else if 194 \<le> a \<and> a \<le> 223 then Some (1, 128, 191)
      else if a = 224 then Some (2, 160, 191)
      else if a = 237 then Some (2, 128, 159)
      else if 225 \<le> a \<and> a \<le> 239 then Some (2, 128, 191)
      else if a = 240 then Some (3, 144, 191)
      else if 241 \<le> a \<and> a \<le> 243 then Some (3, 128, 191)
      else if a = 244 then Some (3, 128, 143)
      else None)"

text \<open>\<open>n\<close> continuation bytes are due, the first of them between \<open>lo\<close> and \<open>hi\<close>.\<close>

fun utf8_loop :: "nat \<Rightarrow> nat \<Rightarrow> nat \<Rightarrow> nat list \<Rightarrow> bool" where
  "utf8_loop n lo hi [] \<longleftrightarrow> n = 0"
| "utf8_loop 0 lo hi (b # bs) \<longleftrightarrow>
     (case utf8_head b of None \<Rightarrow> False | Some (n, lo', hi') \<Rightarrow> utf8_loop n lo' hi' bs)"
| "utf8_loop (Suc n) lo hi (b # bs) \<longleftrightarrow> lo \<le> b \<and> b \<le> hi \<and> utf8_loop n 128 191 bs"

definition utf8_valid :: "bytes \<Rightarrow> bool" where
  "utf8_valid s = utf8_loop 0 0 0 (map of_char s)"

section \<open>Decimal numbers\<close>

definition digit_char :: "nat \<Rightarrow> char" where
  "digit_char d = ''0123456789'' ! d"

definition digit_value :: "char \<Rightarrow> nat option" where
  "digit_value c = (let n = (of_char c :: nat) in if 48 \<le> n \<and> n \<le> 57 then Some (n - 48) else None)"

fun show_nat :: "nat \<Rightarrow> string" where
  "show_nat n = (if n < 10 then [digit_char n] else show_nat (n div 10) @ [digit_char (n mod 10)])"

declare show_nat.simps [simp del]

definition show_int :: "int \<Rightarrow> string" where
  "show_int i = (if i < 0 then CHR ''-'' # show_nat (nat (- i)) else show_nat (nat i))"

fun digits_value :: "nat \<Rightarrow> string \<Rightarrow> nat option" where
  "digits_value acc [] = Some acc"
| "digits_value acc (c # cs) =
     (case digit_value c of None \<Rightarrow> None | Some d \<Rightarrow> digits_value (10 * acc + d) cs)"

text \<open>
  \<open>str::parse\<close> at \<open>i64\<close> and \<open>u64\<close>: an optional sign (a minus sign at
  \<open>i64\<close> only), at least one digit, and a value in range.
\<close>

definition parse_digits :: "string \<Rightarrow> nat option" where
  "parse_digits s = (if s = [] then None else digits_value 0 s)"

definition parse_i64 :: "string \<Rightarrow> int option" where
  "parse_i64 s =
     (case s of
        [] \<Rightarrow> None
      | c # cs \<Rightarrow>
          Option.bind
            (if c = CHR ''-'' then map_option (\<lambda>n. - int n) (parse_digits cs)
             else if c = CHR ''+'' then map_option int (parse_digits cs)
             else map_option int (parse_digits s))
            checked_i64)"

definition parse_u64 :: "string \<Rightarrow> int option" where
  "parse_u64 s =
     Option.bind
       (map_option int (case s of [] \<Rightarrow> None
          | c # cs \<Rightarrow> if c = CHR ''+'' then parse_digits cs else parse_digits s))
       (\<lambda>n. if n \<le> u64_max then Some n else None)"

lemma digit_cases: "d < 10 \<Longrightarrow> d \<in> {0, 1, 2, 3, 4, 5, 6, 7, 8, 9 :: nat}"
  by auto

lemma digit_value_char [simp]: "d < 10 \<Longrightarrow> digit_value (digit_char d) = Some d"
  by (drule digit_cases) (auto simp: digit_char_def digit_value_def)

lemma digits_value_append:
  "digits_value acc (xs @ ys) = Option.bind (digits_value acc xs) (\<lambda>a. digits_value a ys)"
  by (induction xs arbitrary: acc) (auto split: option.splits)

lemma show_nat_nonempty [simp]: "show_nat n \<noteq> []"
  by (subst show_nat.simps) simp

lemma digits_value_show_nat [simp]: "digits_value 0 (show_nat n) = Some n"
proof (induction n rule: show_nat.induct)
  case (1 n)
  then show ?case
    by (cases "n < 10") (simp_all add: show_nat.simps [of n] digits_value_append)
qed

lemma parse_digits_show_nat [simp]: "parse_digits (show_nat n) = Some n"
  by (simp add: parse_digits_def)

lemma show_nat_digits: "c \<in> set (show_nat n) \<Longrightarrow> \<exists>d. digit_value c = Some d"
proof (induction n rule: show_nat.induct)
  case (1 n)
  have "n mod 10 < 10" by simp
  with "1" show ?case
    by (cases "n < 10") (auto simp: show_nat.simps [of n] intro: digit_value_char)
qed

lemma digit_value_not_sign [simp]:
  "digit_value CHR ''-'' = None" "digit_value CHR ''+'' = None"
  by (simp_all add: digit_value_def)

lemma show_nat_hd: "show_nat n = c # cs \<Longrightarrow> c \<noteq> CHR ''-'' \<and> c \<noteq> CHR ''+''"
  using show_nat_digits [of c n] by force

lemma parse_show_int: "in_i64 i \<Longrightarrow> parse_i64 (show_int i) = Some i"
proof (cases "i < 0")
  case True
  moreover assume "in_i64 i"
  ultimately show ?thesis by (simp add: show_int_def parse_i64_def)
next
  case False
  moreover assume "in_i64 i"
  moreover obtain c cs where cs: "show_nat (nat i) = c # cs" by (cases "show_nat (nat i)") auto
  moreover have "parse_digits (c # cs) = Some (nat i)" by (simp flip: cs)
  ultimately show ?thesis
    using show_nat_hd [OF cs] by (simp add: show_int_def parse_i64_def)
qed

lemma show_nat_inject [simp]: "show_nat m = show_nat n \<longleftrightarrow> m = n"
  by (metis parse_digits_show_nat option.inject)

lemma show_int_inject [simp]: "show_int i = show_int j \<longleftrightarrow> i = j"
proof
  assume eq: "show_int i = show_int j"
  have "hd (show_nat n) \<noteq> CHR ''-''" for n
    using show_nat_hd [of n] by (cases "show_nat n") auto
  then have "CHR ''-'' # xs \<noteq> show_nat n" for n xs
    by (metis list.sel(1))
  with eq show "i = j"
    by (auto simp: show_int_def dest: sym split: if_splits)
qed simp

section \<open>Tables\<close>

text \<open>
  A table is the list of its rows.  A statement that names one row by its key finds it with
  \<open>find\<close>, deletes with \<open>filter\<close> and updates with \<open>map\<close>; \<open>INSERT OR REPLACE\<close>
  deletes the row with the same key and appends the new one, \<open>INSERT OR IGNORE\<close> leaves a
  table that already has the key alone.
\<close>

definition delete_where :: "('r \<Rightarrow> bool) \<Rightarrow> 'r list \<Rightarrow> 'r list" where
  "delete_where p t = filter (\<lambda>r. \<not> p r) t"

definition update_where :: "('r \<Rightarrow> bool) \<Rightarrow> ('r \<Rightarrow> 'r) \<Rightarrow> 'r list \<Rightarrow> 'r list" where
  "update_where p f t = map (\<lambda>r. if p r then f r else r) t"

definition insert_or_replace :: "('r \<Rightarrow> 'k) \<Rightarrow> 'r \<Rightarrow> 'r list \<Rightarrow> 'r list" where
  "insert_or_replace key r t = delete_where (\<lambda>r'. key r' = key r) t @ [r]"

definition insert_or_ignore :: "('r \<Rightarrow> 'k) \<Rightarrow> 'r \<Rightarrow> 'r list \<Rightarrow> 'r list" where
  "insert_or_ignore key r t = (if \<exists>r' \<in> set t. key r' = key r then t else t @ [r])"

definition keyed :: "('r \<Rightarrow> 'k) \<Rightarrow> 'r list \<Rightarrow> bool" where
  "keyed key t \<longleftrightarrow> distinct (map key t)"

definition count_where :: "('r \<Rightarrow> bool) \<Rightarrow> 'r list \<Rightarrow> int" where
  "count_where p t = int (length (filter p t))"

lemma set_delete_where [simp]: "set (delete_where p t) = {r \<in> set t. \<not> p r}"
  by (auto simp: delete_where_def)

lemma set_insert_or_replace:
  "set (insert_or_replace key r t) = insert r {r' \<in> set t. key r' \<noteq> key r}"
  by (auto simp: insert_or_replace_def)

lemma keyed_snoc: "keyed key (t @ [r]) \<longleftrightarrow> keyed key t \<and> (\<forall>r' \<in> set t. key r' \<noteq> key r)"
  by (auto simp: keyed_def dest: sym)

lemma keyed_delete [simp]: "keyed key t \<Longrightarrow> keyed key (delete_where p t)"
  by (simp add: keyed_def delete_where_def distinct_map_filter)

lemma keyed_insert_or_replace [simp]: "keyed key t \<Longrightarrow> keyed key (insert_or_replace key r t)"
  by (auto simp: keyed_def insert_or_replace_def delete_where_def distinct_map_filter)

lemma keyed_insert_or_ignore [simp]: "keyed key t \<Longrightarrow> keyed key (insert_or_ignore key r t)"
  by (auto simp: keyed_def insert_or_ignore_def)

lemma keyed_update_where [simp]:
  "(\<And>r. key (f r) = key r) \<Longrightarrow> keyed key (update_where p f t) \<longleftrightarrow> keyed key t"
  by (simp add: keyed_def update_where_def comp_def if_distrib cong: if_cong)

lemma keyed_unique: "keyed key t \<Longrightarrow> r \<in> set t \<Longrightarrow> r' \<in> set t \<Longrightarrow> key r = key r' \<Longrightarrow> r = r'"
  by (auto simp: keyed_def distinct_map dest: inj_onD)

lemma find_keyed:
  assumes "keyed key t" "r \<in> set t" "\<And>r'. P r' \<longleftrightarrow> key r' = key r"
  shows "List.find P t = Some r"
proof -
  have "P r" by (simp add: assms(3))
  then have "List.find P t \<noteq> None" using assms(2) by (auto simp: find_None_iff)
  then obtain r' where r': "List.find P t = Some r'" by blast
  then have "r' \<in> set t" "P r'" by (auto simp: find_Some_iff)
  with assms r' show ?thesis by (auto dest: keyed_unique)
qed

end
