(* ===== verification/Json.thy ===== *)
theory Json
  imports Prelude
begin

text \<open>
  The JSON values the operator reads and writes: the constructors of \<open>serde_json::Value\<close>
  that \<open>documents.rs\<close>, \<open>entitlements.rs\<close>, \<open>lapse.rs\<close>, \<open>erasures.rs\<close> and the
  response bodies match on, with the accessors those files call.  A number that is not an
  integer keeps its printed text: no code of the operator computes with one.  An object is the
  list of its fields; \<open>serde_json\<close> keeps at most one field per name, which is
  \<open>wf_json\<close> below.
\<close>

datatype json =
    JNull
  | JBool bool
  | JInt int
  | JFloat string
  | JStr string
  | JArr "json list"
  | JObj "(string \<times> json) list"

definition jobj_get :: "(string \<times> json) list \<Rightarrow> string \<Rightarrow> json option" where
  "jobj_get kvs k = map_of kvs k"

text \<open>\<open>Value::get\<close> on a key: nothing for a value that is not an object.\<close>

fun jget :: "json \<Rightarrow> string \<Rightarrow> json option" where
  "jget (JObj kvs) k = jobj_get kvs k"
| "jget _ k = None"

text \<open>\<open>value[key]\<close>: \<open>Null\<close> for an absent field.\<close>

definition jindex :: "json \<Rightarrow> string \<Rightarrow> json" where
  "jindex v k = (case jget v k of Some x \<Rightarrow> x | None \<Rightarrow> JNull)"

fun as_str :: "json \<Rightarrow> string option" where
  "as_str (JStr s) = Some s"
| "as_str _ = None"

fun as_array :: "json \<Rightarrow> json list option" where
  "as_array (JArr xs) = Some xs"
| "as_array _ = None"

fun as_object :: "json \<Rightarrow> (string \<times> json) list option" where
  "as_object (JObj kvs) = Some kvs"
| "as_object _ = None"

fun as_i64 :: "json \<Rightarrow> int option" where
  "as_i64 (JInt n) = checked_i64 n"
| "as_i64 _ = None"

lemma as_str_iff [simp]: "as_str v = Some s \<longleftrightarrow> v = JStr s"
  by (cases v) auto

lemma as_array_iff [simp]: "as_array v = Some xs \<longleftrightarrow> v = JArr xs"
  by (cases v) auto

lemma as_object_iff [simp]: "as_object v = Some kvs \<longleftrightarrow> v = JObj kvs"
  by (cases v) auto

definition string_items :: "json list \<Rightarrow> string list" where
  "string_items xs = List.map_filter as_str xs"

text \<open>\<open>Map::insert\<close> and \<open>Map::remove\<close>.\<close>

definition jobj_insert :: "string \<Rightarrow> json \<Rightarrow> (string \<times> json) list \<Rightarrow> (string \<times> json) list" where
  "jobj_insert k v kvs = filter (\<lambda>(k', _). k' \<noteq> k) kvs @ [(k, v)]"

definition jobj_remove :: "string \<Rightarrow> (string \<times> json) list \<Rightarrow> (string \<times> json) list" where
  "jobj_remove k kvs = filter (\<lambda>(k', _). k' \<noteq> k) kvs"

definition opt_str :: "string option \<Rightarrow> json" where
  "opt_str t = (case t of None \<Rightarrow> JNull | Some s \<Rightarrow> JStr s)"

primrec wf_json :: "json \<Rightarrow> bool" where
  "wf_json JNull = True"
| "wf_json (JBool b) = True"
| "wf_json (JInt n) = (i64_min \<le> n \<and> n \<le> u64_max)"
| "wf_json (JFloat s) = True"
| "wf_json (JStr s) = True"
| "wf_json (JArr xs) = list_all id (map wf_json xs)"
| "wf_json (JObj kvs) = (distinct (map fst kvs) \<and> list_all snd (map (map_prod id wf_json) kvs))"

lemma map_of_filter_neq:
  "map_of (filter (\<lambda>(k', _). k' \<noteq> k) kvs) j = (if j = k then None else map_of kvs j)"
  by (induction kvs) auto

lemma jobj_get_insert [simp]:
  "jobj_get (jobj_insert k v kvs) j = (if j = k then Some v else jobj_get kvs j)"
  by (auto simp: jobj_get_def jobj_insert_def map_add_def map_of_filter_neq split: option.splits)

lemma jobj_get_remove [simp]:
  "jobj_get (jobj_remove k kvs) j = (if j = k then None else jobj_get kvs j)"
  by (simp add: jobj_get_def jobj_remove_def map_of_filter_neq)

lemma jobj_get_Cons [simp]:
  "jobj_get ((k, v) # kvs) j = (if j = k then Some v else jobj_get kvs j)"
  "jobj_get [] j = None"
  by (simp_all add: jobj_get_def)

end
