(* ===== verification/Errors.thy ===== *)
theory Errors
  imports Json
begin

text \<open>
  \<open>error.rs\<close>: the one error type, the contract code, the status and the response body of each
  of its variants.  A response carries a status, a content type and a body; a JSON body is kept
  as its value.  \<open>fail\<close> is what a handler can end with instead of a response: an
  \<open>Error\<close>, or a Rust panic, which has no response at all.

  The payload of \<open>Internal\<close> is the text the operator logs; the model keeps its fixed
  part and drops the text of the library error it is formatted with.
\<close>

datatype resource = Snapshot | Upload | Operation | Terms | Receipt

datatype error =
    BadRequest string
  | SignatureInvalid
  | TermsChanged string
  | PaymentRequired string "string list" "string list" string
  | InvalidEntitlement "string list"
  | SnapshotTooLarge int
  | QuotaExceeded int int int int int int
  | UploadIncomplete "(int \<times> int) list" int
  | UploadExpired
  | ChunkMismatch
  | DigestMismatch
  | NotFound resource
  | RetentionExpired
  | ReceiptExpired
  | Internal string

datatype fail = Err error | Panic

fun show_resource :: "resource \<Rightarrow> string" where
  "show_resource Snapshot = ''snapshot''"
| "show_resource Upload = ''upload''"
| "show_resource Operation = ''operation''"
| "show_resource Terms = ''terms''"
| "show_resource Receipt = ''receipt''"

text \<open>\<open>Display\<close>, as the \<open>thiserror\<close> attributes spell it.\<close>

fun show_error :: "error \<Rightarrow> string" where
  "show_error (BadRequest s) = ''bad request: '' @ s"
| "show_error SignatureInvalid = ''signature invalid''"
| "show_error (TermsChanged _) = ''terms changed''"
| "show_error (PaymentRequired _ _ _ _) = ''payment required''"
| "show_error (InvalidEntitlement _) = ''invalid entitlement''"
| "show_error (SnapshotTooLarge _) = ''snapshot too large''"
| "show_error (QuotaExceeded _ _ _ _ _ _) = ''quota exceeded''"
| "show_error (UploadIncomplete _ _) = ''upload incomplete''"
| "show_error UploadExpired = ''upload expired''"
| "show_error ChunkMismatch = ''chunk mismatch''"
| "show_error DigestMismatch = ''digest mismatch''"
| "show_error (NotFound r) = show_resource r @ '' not found''"
| "show_error RetentionExpired = ''retention expired''"
| "show_error ReceiptExpired = ''receipt expired''"
| "show_error (Internal s) = ''internal error: '' @ s"

fun code :: "error \<Rightarrow> string" where
  "code (BadRequest _) = ''bad_request''"
| "code SignatureInvalid = ''signature_invalid''"
| "code (TermsChanged _) = ''terms_changed''"
| "code (PaymentRequired _ _ _ _) = ''payment_required''"
| "code (InvalidEntitlement _) = ''invalid_entitlement''"
| "code (SnapshotTooLarge _) = ''snapshot_too_large''"
| "code (QuotaExceeded _ _ _ _ _ _) = ''quota_exceeded''"
| "code (UploadIncomplete _ _) = ''upload_incomplete''"
| "code UploadExpired = ''upload_expired''"
| "code ChunkMismatch = ''chunk_mismatch''"
| "code DigestMismatch = ''digest_mismatch''"
| "code (NotFound Snapshot) = ''snapshot_not_found''"
| "code (NotFound Upload) = ''upload_not_found''"
| "code (NotFound Operation) = ''operation_not_found''"
| "code (NotFound Terms) = ''terms_not_found''"
| "code (NotFound Receipt) = ''receipt_not_found''"
| "code RetentionExpired = ''retention_expired''"
| "code ReceiptExpired = ''receipt_expired''"
| "code (Internal _) = ''internal_error''"

fun status :: "error \<Rightarrow> int" where
  "status (BadRequest _) = 400"
| "status SignatureInvalid = 401"
| "status (InvalidEntitlement _) = 401"
| "status (TermsChanged _) = 409"
| "status (QuotaExceeded _ _ _ _ _ _) = 409"
| "status (UploadIncomplete _ _) = 409"
| "status UploadExpired = 409"
| "status ChunkMismatch = 409"
| "status DigestMismatch = 409"
| "status (PaymentRequired _ _ _ _) = 402"
| "status (SnapshotTooLarge _) = 413"
| "status (NotFound _) = 404"
| "status RetentionExpired = 410"
| "status ReceiptExpired = 410"
| "status (Internal _) = 500"

fun detail :: "error \<Rightarrow> json" where
  "detail (TermsChanged current_terms_id) = JObj [(''currentTermsId'', JStr current_terms_id)]"
| "detail (PaymentRequired component_id offers entitlement_issuers manifest_url) =
     JObj [(''paymentRequired'', JObj [
       (''version'', JInt 1),
       (''componentId'', JStr component_id),
       (''offers'', JArr (map JStr offers)),
       (''entitlementIssuers'', JArr (map JStr entitlement_issuers)),
       (''manifestUrl'', JStr manifest_url)])]"
| "detail (InvalidEntitlement entitlement_issuers) =
     JObj [(''entitlementIssuers'', JArr (map JStr entitlement_issuers))]"
| "detail (SnapshotTooLarge maximum_sealed_snapshot_bytes) =
     JObj [(''maximumSealedSnapshotBytes'', JInt maximum_sealed_snapshot_bytes)]"
| "detail (QuotaExceeded retained_snapshots maximum_retained_snapshots retained_bytes limit_bytes
      open_grants open_grant_bytes) =
     JObj [(''retainedSnapshots'', JInt retained_snapshots),
       (''maximumRetainedSnapshots'', JInt maximum_retained_snapshots),
       (''retainedBytes'', JInt retained_bytes),
       (''limitBytes'', JInt limit_bytes),
       (''openGrants'', JInt open_grants),
       (''openGrantBytes'', JInt open_grant_bytes)]"
| "detail (UploadIncomplete missing_chunks chunk_count) =
     JObj [(''missingChunks'', JArr (map (\<lambda>(first, last). JArr [JInt first, JInt last]) missing_chunks)),
       (''chunkCount'', JInt chunk_count)]"
| "detail _ = JObj []"

fun message :: "error \<Rightarrow> string" where
  "message (Internal _) = ''the operator could not complete the request''"
| "message e = show_error e"

text \<open>What a route answers with.\<close>

datatype response =
    RJson int json
  | RDoc int string bytes
  | RStream int int "(string list \<times> int) list"
  | REmpty int

definition into_response :: "error \<Rightarrow> response" where
  "into_response e =
     (let body = [(''error'', JStr (code e)), (''message'', JStr (message e))];
          fields = (case as_object (detail e) of Some fs \<Rightarrow> fs | None \<Rightarrow> [])
      in RJson (status e) (JObj (fold (\<lambda>(k, v). jobj_insert k v) fields body)))"

fun response_body :: "response \<Rightarrow> json option" where
  "response_body (RJson _ v) = Some v"
| "response_body _ = None"

definition internal :: "string \<Rightarrow> fail" where
  "internal s = Err (Internal s)"

section \<open>The error contract\<close>

lemma fold_insert_get:
  "k \<notin> fst ` set fields \<Longrightarrow>
     jobj_get (fold (\<lambda>(k, v). jobj_insert k v) fields body) k = jobj_get body k"
  by (induction fields arbitrary: body) auto

lemma detail_fields:
  "\<exists>fs. detail e = JObj fs \<and> ''error'' \<notin> fst ` set fs \<and> ''message'' \<notin> fst ` set fs"
  by (cases e) auto

lemma into_response_body:
  "\<exists>fs. into_response e = RJson (status e) (JObj fs) \<and>
     jobj_get fs ''error'' = Some (JStr (code e)) \<and> jobj_get fs ''message'' = Some (JStr (message e))"
proof -
  obtain ds where "detail e = JObj ds" "''error'' \<notin> fst ` set ds" "''message'' \<notin> fst ` set ds"
    using detail_fields [of e] by blast
  then show ?thesis by (simp add: into_response_def fold_insert_get)
qed

lemma code_status: "code e = code e' \<Longrightarrow> status e = status e'"
proof (cases e)
  case (NotFound r)
  then show "code e = code e' \<Longrightarrow> status e = status e'"
    by (cases r; cases e' rule: code.cases; simp)
qed (cases e' rule: code.cases; simp)+

lemma code_NotFound: "code (NotFound r) = code e \<Longrightarrow> e = NotFound r"
  by (cases r; cases e rule: code.cases; simp)

end
