(* ===== verification/Crates.thy ===== *)
theory Crates
  imports Errors
begin

text \<open>
  What the operator calls and does not contain: the library crates, as one record of functions
  that every definition takes as a parameter, and the request bodies whose decoders
  \<open>serde\<close> generates.  Nothing is assumed about these functions here; the few documented
  facts a theorem needs (a timestamp that was formatted parses back, SQLite's
  \<open>julianday\<close> does not reorder formatted timestamps) are the named predicates at the end,
  and appear as hypotheses where they are used.

  \<open>julianday\<close> is SQLite's function of that name; SQLite keeps the value it compares as a
  whole number of milliseconds, and \<open>None\<close> is \<open>NULL\<close>, for a text it cannot read.
  \<open>headers\<close> is \<open>HeaderMap::get\<close> followed by \<open>to_str().ok()\<close>.
\<close>

type_synonym headers = "string \<Rightarrow> string option"

section \<open>Request bodies\<close>

record snapshot_reference =
  ref_algorithm :: string
  ref_digest :: string
  ref_sealed_byte_size :: int

record preflight_request =
  req_operation_id :: string
  req_snapshot_reference :: snapshot_reference
  req_accepted_terms_id :: string
  req_supersedes :: "string option"

record erase_request =
  erase_operation_id :: string
  erase_scope :: string

section \<open>The library crates\<close>

record crates =
  sha256 :: "bytes \<Rightarrow> bytes"
  hex_encode :: "bytes \<Rightarrow> string"
  hex_decode :: "string \<Rightarrow> bytes option"
  b64_encode :: "bytes \<Rightarrow> string"
  b64_decode :: "string \<Rightarrow> bytes option"
  ed_point :: "bytes \<Rightarrow> bool"
  ed_verify :: "bytes \<Rightarrow> bytes \<Rightarrow> bytes \<Rightarrow> bool"
  ed_public :: "bytes \<Rightarrow> bytes"
  ed_sign :: "bytes \<Rightarrow> bytes \<Rightarrow> bytes"
  rfc_format :: "instant \<Rightarrow> string option"
  rfc_parse :: "string \<Rightarrow> instant option"
  time_min :: instant
  time_max :: instant
  julianday :: "string \<Rightarrow> int option"
  json_parse :: "bytes \<Rightarrow> json option"
  json_bytes :: "json \<Rightarrow> bytes"
  decode_preflight :: "bytes \<Rightarrow> preflight_request option"
  decode_erase :: "bytes \<Rightarrow> erase_request option"

text \<open>\<open>OffsetDateTime::checked_add\<close> and \<open>checked_sub\<close> of a \<open>Duration::seconds\<close>.\<close>

definition representable :: "crates \<Rightarrow> instant \<Rightarrow> bool" where
  "representable X t \<longleftrightarrow> time_min X \<le> t \<and> t \<le> time_max X"

definition checked_time :: "crates \<Rightarrow> instant \<Rightarrow> instant option" where
  "checked_time X t = (if representable X t then Some t else None)"

definition time_add :: "crates \<Rightarrow> instant \<Rightarrow> int \<Rightarrow> instant option" where
  "time_add X t secs = checked_time X (t + nanos secs)"

definition time_sub :: "crates \<Rightarrow> instant \<Rightarrow> int \<Rightarrow> instant option" where
  "time_sub X t secs = checked_time X (t - nanos secs)"

text \<open>A timestamp, or the internal error every call site maps a formatting failure to.\<close>

definition stamp :: "crates \<Rightarrow> instant \<Rightarrow> fail + string" where
  "stamp X t = ok_or (internal ''format timestamp'') (rfc_format X t)"

text \<open>
  SQL comparisons of two \<open>julianday\<close> values: a comparison with \<open>NULL\<close> is not true.
\<close>

definition jd_less :: "crates \<Rightarrow> string \<Rightarrow> string \<Rightarrow> bool" where
  "jd_less X a b =
     (case (julianday X a, julianday X b) of (Some x, Some y) \<Rightarrow> x < y | _ \<Rightarrow> False)"

definition jd_le :: "crates \<Rightarrow> string \<Rightarrow> string \<Rightarrow> bool" where
  "jd_le X a b =
     (case (julianday X a, julianday X b) of (Some x, Some y) \<Rightarrow> x \<le> y | _ \<Rightarrow> False)"

text \<open>
  \<open>ORDER BY julianday(t)\<close> and its \<open>DESC\<close>: \<open>NULL\<close> sorts before every number.
\<close>

definition jd_asc :: "crates \<Rightarrow> string \<Rightarrow> int \<times> int" where
  "jd_asc X a = (case julianday X a of None \<Rightarrow> (0, 0) | Some x \<Rightarrow> (1, x))"

definition jd_desc :: "crates \<Rightarrow> string \<Rightarrow> int \<times> int" where
  "jd_desc X a = (case julianday X a of None \<Rightarrow> (1, 0) | Some x \<Rightarrow> (0, - x))"

section \<open>Documented behaviour used as hypotheses\<close>

text \<open>RFC 3339 with nanoseconds in UTC: what was formatted parses back.\<close>

definition rfc_roundtrip :: "crates \<Rightarrow> bool" where
  "rfc_roundtrip X \<longleftrightarrow> (\<forall>t s. rfc_format X t = Some s \<longrightarrow> rfc_parse X s = Some t)"

text \<open>SQLite reads a formatted timestamp, and rounds to milliseconds without reordering.\<close>

definition julianday_monotone :: "crates \<Rightarrow> bool" where
  "julianday_monotone X \<longleftrightarrow>
     (\<forall>t s. rfc_format X t = Some s \<longrightarrow> julianday X s \<noteq> None) \<and>
     (\<forall>t t' s s' j j'. rfc_format X t = Some s \<and> rfc_format X t' = Some s' \<and> t \<le> t' \<and>
        julianday X s = Some j \<and> julianday X s' = Some j' \<longrightarrow> j \<le> j')"

lemma rfc_roundtripD: "rfc_roundtrip X \<Longrightarrow> rfc_format X t = Some s \<Longrightarrow> rfc_parse X s = Some t"
  by (simp add: rfc_roundtrip_def)

lemma stamp_Inr [simp]: "stamp X t = Inr s \<longleftrightarrow> rfc_format X t = Some s"
  by (simp add: stamp_def)

lemma jd_less_irrefl [simp]: "\<not> jd_less X a a"
  by (simp add: jd_less_def split: option.splits)

lemma jd_less_not_le: "jd_less X a b \<Longrightarrow> \<not> jd_le X b a"
  by (auto simp: jd_less_def jd_le_def split: option.splits)

lemma jd_less_trans: "jd_less X a b \<Longrightarrow> jd_le X b c \<Longrightarrow> jd_less X a c"
  by (auto simp: jd_less_def jd_le_def split: option.splits)

lemma jd_le_formatted:
  assumes "julianday_monotone X" "rfc_format X t = Some s" "rfc_format X t' = Some s'" "t \<le> t'"
  shows "jd_le X s s'"
proof -
  have "julianday X s \<noteq> None" "julianday X s' \<noteq> None"
    using assms(1-3) unfolding julianday_monotone_def by blast+
  then obtain j j' where "julianday X s = Some j" "julianday X s' = Some j'"
    by blast
  moreover from this assms have "j \<le> j'" unfolding julianday_monotone_def by blast
  ultimately show ?thesis by (simp add: jd_le_def)
qed

lemma jd_less_formatted:
  assumes "julianday_monotone X" "rfc_format X t = Some s" "rfc_format X t' = Some s'"
    and "jd_less X s s'"
  shows "t < t'"
  using jd_le_formatted [OF assms(1,3,2)] jd_less_not_le [OF assms(4)] by linarith

section \<open>A concrete instance\<close>

text \<open>
  A small instance the witnesses evaluate at: timestamps are printed numbers of nanoseconds,
  hashes are padded to 64 lower-case hex digits, a signature is valid when it is the signed
  bytes' key followed by the digest of the message.
\<close>

definition toy_hex :: "bytes \<Rightarrow> string" where
  "toy_hex b = take 64 (filter is_lower_hex b @ replicate 64 (CHR ''0''))"

definition toy :: crates where
  "toy =
     \<lparr>sha256 = (\<lambda>b. take 32 (b @ replicate 32 (CHR ''0''))),
      hex_encode = toy_hex,
      hex_decode = (\<lambda>s. Some (take 32 s)),
      b64_encode = id,
      b64_decode = Some,
      ed_point = (\<lambda>_. True),
      ed_verify = (\<lambda>key msg sig. sig = replicate 64 (CHR ''s'')),
      ed_public = (\<lambda>seed. seed),
      ed_sign = (\<lambda>seed msg. replicate 64 (CHR ''s'')),
      rfc_format = (\<lambda>t. if in_i64 t then Some (show_int t) else None),
      rfc_parse = parse_i64,
      time_min = i64_min,
      time_max = i64_max,
      julianday = parse_i64,
      json_parse = (\<lambda>_. None),
      json_bytes = (\<lambda>_. ''{}''),
      decode_preflight = (\<lambda>_. None),
      decode_erase = (\<lambda>_. None)\<rparr>"

lemma rfc_roundtrip_toy: "rfc_roundtrip toy"
  by (simp add: rfc_roundtrip_def toy_def parse_show_int)

lemma julianday_monotone_toy: "julianday_monotone toy"
  by (auto simp: julianday_monotone_def toy_def parse_show_int)

end
