(* ===== verification/Config.thy ===== *)
theory Config
  imports Crates
begin

text \<open>
  \<open>config.rs\<close>: the configuration, read from the environment and validated once at boot.
  \<open>env\<close> is \<open>std::env::var(..).ok()\<close>.  A configuration error is the text \<open>main\<close>
  prints before it exits.
\<close>

type_synonym env = "string \<Rightarrow> string option"

record config =
  bind_addr :: string
  store_path :: string
  blob_root :: string
  component_id :: string
  public_url :: string
  signing_seed :: bytes
  entitlement_issuers :: "string list"
  revocation_url :: "string option"
  revocation_poll_secs :: int
  offers :: "string list"
  maximum_sealed_snapshot_bytes :: int
  maximum_retained_snapshots :: int
  chunk_bytes :: int
  upload_expiry_secs :: int
  max_skew_secs :: int
  outcome_retention_secs :: int
  receipt_retention_secs :: int
  erased_reference_retention_secs :: int

text \<open>\<open>MAX_JSON_BODY_BYTES\<close> and \<open>MAX_CHUNK_BODY_BYTES\<close> of \<open>api.rs\<close>.\<close>

definition max_json_body_bytes :: int where "max_json_body_bytes = 256 * 1024"
definition max_chunk_body_bytes :: int where "max_chunk_body_bytes = 64 * 1024 * 1024"

definition env_or :: "env \<Rightarrow> string \<Rightarrow> string \<Rightarrow> string" where
  "env_or env key dflt = (case env key of Some v \<Rightarrow> v | None \<Rightarrow> dflt)"

definition csv :: "string \<Rightarrow> string list" where
  "csv s = filter (\<lambda>v. v \<noteq> []) (map trim (split_on (CHR '','') s))"

definition parse_seed :: "crates \<Rightarrow> string \<Rightarrow> string + bytes" where
  "parse_seed X hex_value =
     and_then (ok_or ''BACKUP_SIGNING_SEED must be hex'' (hex_decode X (trim hex_value)))
       (\<lambda>bytes. if length bytes = 32 then Inr bytes
          else Inl ''BACKUP_SIGNING_SEED must be 32 bytes (64 hex chars)'')"

definition parse_positive_i64 :: "env \<Rightarrow> string \<Rightarrow> int \<Rightarrow> string + int" where
  "parse_positive_i64 env key dflt =
     (case env key of
        None \<Rightarrow> Inr dflt
      | Some text \<Rightarrow>
          and_then (ok_or (key @ '' must be an integer'') (parse_i64 (trim text)))
            (\<lambda>value. if value \<le> 0 then Inl (key @ '' must be greater than zero'') else Inr value))"

definition parse_positive_u64 :: "env \<Rightarrow> string \<Rightarrow> int \<Rightarrow> string + int" where
  "parse_positive_u64 env key dflt =
     (case env key of
        None \<Rightarrow> Inr dflt
      | Some text \<Rightarrow>
          and_then (ok_or (key @ '' must be an integer'') (parse_u64 (trim text)))
            (\<lambda>value. if value = 0 then Inl (key @ '' must be greater than zero'') else Inr value))"

definition parse_past_window_secs ::
  "crates \<Rightarrow> instant \<Rightarrow> env \<Rightarrow> string \<Rightarrow> int \<Rightarrow> int \<Rightarrow> string + int" where
  "parse_past_window_secs X now env key dflt multiplier =
     and_then (parse_positive_i64 env key dflt) (\<lambda>value.
     and_then (ok_or (key @ '' is too large'') (checked_mul64 value multiplier)) (\<lambda>seconds.
       if time_sub X now seconds = None
       then Inl (key @ '' is too large for the supported timestamp range'')
       else Inr value))"

definition chunk_bytes_from :: "env \<Rightarrow> string + int" where
  "chunk_bytes_from env =
     and_then (parse_positive_i64 env ''BACKUP_CHUNK_BYTES'' (8 * 1024 * 1024)) (\<lambda>bytes.
       if bytes > max_chunk_body_bytes
       then Inl (''BACKUP_CHUNK_BYTES is '' @ show_int bytes @ '', above the ''
          @ show_int max_chunk_body_bytes
          @ ''-byte request body ceiling; every non-final chunk would be refused at the body limit'')
       else Inr bytes)"

text \<open>One \<open>onym:key:<64 lowercase hex>\<close> reference; the key is its 32 bytes.\<close>

definition issuer_key :: "crates \<Rightarrow> string \<Rightarrow> string + bytes" where
  "issuer_key X reference =
     and_then (ok_or ''must start with onym:key:'' (strip_prefix ''onym:key:'' reference)) (\<lambda>hex_value.
       if length hex_value \<noteq> 64 then Inl ''key must be 64 hex characters''
       else if \<not> list_all is_lower_hex hex_value then Inl ''key must be lowercase hex''
       else and_then (ok_or ''key is not hex'' (hex_decode X hex_value)) (\<lambda>bytes.
         if length bytes \<noteq> 32 then Inl ''key must be 32 bytes''
         else if \<not> ed_point X bytes then Inl ''key is not a valid Ed25519 point''
         else Inr bytes))"

definition issuer_keys :: "crates \<Rightarrow> string list \<Rightarrow> (string \<times> bytes) list" where
  "issuer_keys X references =
     List.map_filter (\<lambda>r. case issuer_key X r of Inr k \<Rightarrow> Some (r, k) | Inl _ \<Rightarrow> None) references"

definition requires_entitlement :: "config \<Rightarrow> bool" where
  "requires_entitlement c \<longleftrightarrow> entitlement_issuers c \<noteq> []"

definition manifest_url :: "config \<Rightarrow> string" where
  "manifest_url c = public_url c @ ''/manifest.json''"

definition issuer_error :: "string \<Rightarrow> string \<Rightarrow> string" where
  "issuer_error issuer reason = ''BACKUP_ENTITLEMENT_ISSUERS entry '' @ issuer @ '': '' @ reason"

definition check_issuers :: "crates \<Rightarrow> string list \<Rightarrow> string + unit" where
  "check_issuers X issuers =
     and_then (collect_results (\<lambda>i. case issuer_key X i of
         Inl reason \<Rightarrow> Inl (issuer_error i reason) | Inr k \<Rightarrow> Inr k) issuers)
       (\<lambda>_. Inr ())"

text \<open>
  \<open>Config::from_env\<close>: the checks in the order of the source, the numeric fields in the order of
  the struct literal.
\<close>

definition from_env :: "crates \<Rightarrow> instant \<Rightarrow> env \<Rightarrow> string + config" where
  "from_env X now env =
     and_then (ok_or ''BACKUP_COMPONENT_ID is required'' (env ''BACKUP_COMPONENT_ID'')) (\<lambda>component.
     and_then (guard_or ''BACKUP_COMPONENT_ID must look like onym:component:<id>''
       (starts_with ''onym:component:'' component)) (\<lambda>_.
     and_then (ok_or ''BACKUP_PUBLIC_URL is required'' (env ''BACKUP_PUBLIC_URL'')) (\<lambda>url.
     and_then (guard_or ''BACKUP_PUBLIC_URL must be https'' (starts_with ''https://'' url)) (\<lambda>_.
     and_then (ok_or ''BACKUP_SIGNING_SEED is required (64 hex chars)'' (env ''BACKUP_SIGNING_SEED'')) (\<lambda>seed_text.
     and_then (parse_seed X seed_text) (\<lambda>seed.
     let issuers = csv (env_or env ''BACKUP_ENTITLEMENT_ISSUERS'' []) in
     and_then (check_issuers X issuers) (\<lambda>_.
     let offer_ids = csv (env_or env ''BACKUP_OFFERS'' []) in
     and_then (guard_or ''BACKUP_OFFERS is required when BACKUP_ENTITLEMENT_ISSUERS is set''
       (issuers = [] \<or> offer_ids \<noteq> [])) (\<lambda>_.
     let rev_url = Option.bind (env ''BACKUP_REVOCATION_URL'') (\<lambda>v. if v = [] then None else Some v) in
     and_then (guard_or ''BACKUP_REVOCATION_URL is required when BACKUP_ENTITLEMENT_ISSUERS is set''
       (issuers = [] \<or> rev_url \<noteq> None)) (\<lambda>_.
     and_then (guard_or ''BACKUP_REVOCATION_URL must be https''
       (case rev_url of None \<Rightarrow> True | Some u \<Rightarrow> starts_with ''https://'' u)) (\<lambda>_.
     and_then (parse_positive_u64 env ''BACKUP_REVOCATION_POLL_SECS'' 900) (\<lambda>poll.
     and_then (parse_positive_i64 env ''BACKUP_MAX_SNAPSHOT_BYTES'' (2 * 1024 * 1024 * 1024)) (\<lambda>max_bytes.
     and_then (parse_positive_i64 env ''BACKUP_MAX_SNAPSHOTS'' 3) (\<lambda>max_snapshots.
     and_then (chunk_bytes_from env) (\<lambda>chunk.
     and_then (parse_positive_i64 env ''BACKUP_UPLOAD_EXPIRY_SECS'' (24 * 3600)) (\<lambda>expiry.
     and_then (parse_past_window_secs X now env ''BACKUP_MAX_SKEW_SECS'' 300 2) (\<lambda>skew.
     and_then (parse_past_window_secs X now env ''BACKUP_RECEIPT_RETENTION_SECS'' (365 * 24 * 3600) 1) (\<lambda>receipt.
     and_then (parse_past_window_secs X now env ''BACKUP_ERASED_REFERENCE_RETENTION_SECS'' (365 * 24 * 3600) 1) (\<lambda>erased.
     and_then (parse_past_window_secs X now env ''BACKUP_OUTCOME_RETENTION_SECS'' (6 * 3600) 1) (\<lambda>outcome.
     Inr \<lparr>bind_addr = env_or env ''BACKUP_BIND'' ''0.0.0.0:8080'',
       store_path = env_or env ''BACKUP_STORE_PATH'' ''/data/backup.sqlite'',
       blob_root = env_or env ''BACKUP_BLOB_ROOT'' ''/data/blobs'',
       component_id = component,
       public_url = trim_end_slash url,
       signing_seed = seed,
       entitlement_issuers = issuers,
       revocation_url = rev_url,
       revocation_poll_secs = poll,
       offers = offer_ids,
       maximum_sealed_snapshot_bytes = max_bytes,
       maximum_retained_snapshots = max_snapshots,
       chunk_bytes = chunk,
       upload_expiry_secs = expiry,
       max_skew_secs = skew,
       outcome_retention_secs = outcome,
       receipt_retention_secs = receipt,
       erased_reference_retention_secs = erased\<rparr>)))))))))))))))))))"

section \<open>What a configuration that boots satisfies\<close>

definition positive_i64 :: "int \<Rightarrow> bool" where
  "positive_i64 x \<longleftrightarrow> 0 < x \<and> in_i64 x"

definition config_ok :: "crates \<Rightarrow> instant \<Rightarrow> config \<Rightarrow> bool" where
  "config_ok X now c \<longleftrightarrow>
     positive_i64 (maximum_sealed_snapshot_bytes c) \<and> positive_i64 (maximum_retained_snapshots c) \<and>
     positive_i64 (chunk_bytes c) \<and> chunk_bytes c \<le> max_chunk_body_bytes \<and>
     positive_i64 (upload_expiry_secs c) \<and> positive_i64 (max_skew_secs c) \<and>
     positive_i64 (outcome_retention_secs c) \<and> positive_i64 (receipt_retention_secs c) \<and>
     positive_i64 (erased_reference_retention_secs c) \<and>
     0 < revocation_poll_secs c \<and> revocation_poll_secs c \<le> u64_max \<and>
     time_sub X now (max_skew_secs c * 2) \<noteq> None \<and>
     time_sub X now (outcome_retention_secs c) \<noteq> None \<and>
     time_sub X now (receipt_retention_secs c) \<noteq> None \<and>
     time_sub X now (erased_reference_retention_secs c) \<noteq> None \<and>
     length (signing_seed c) = 32 \<and>
     (requires_entitlement c \<longrightarrow> offers c \<noteq> [] \<and>
        (\<exists>u. revocation_url c = Some u \<and> starts_with ''https://'' u)) \<and>
     (\<forall>i \<in> set (entitlement_issuers c). \<exists>k. issuer_key X i = Inr k)"

lemma parse_positive_i64_ok:
  "parse_positive_i64 env key d = Inr v \<Longrightarrow> positive_i64 d \<Longrightarrow> positive_i64 v"
  by (auto simp: parse_positive_i64_def positive_i64_def parse_i64_def bind_eq_Some_conv
      split: option.splits if_splits list.splits)

lemma parse_positive_u64_ok:
  "parse_positive_u64 env key d = Inr v \<Longrightarrow> 0 < d \<Longrightarrow> d \<le> u64_max \<Longrightarrow> 0 < v \<and> v \<le> u64_max"
  by (auto simp: parse_positive_u64_def parse_u64_def bind_eq_Some_conv
      split: option.splits if_splits list.splits)

lemma parse_past_window_ok:
  assumes "parse_past_window_secs X now env key d k = Inr v" "positive_i64 d"
  shows "positive_i64 v \<and> time_sub X now (v * k) \<noteq> None"
  using assms parse_positive_i64_ok [of env key d v]
  by (auto simp: parse_past_window_secs_def checked_mul64_def split: if_splits)

lemma chunk_bytes_ok:
  assumes "chunk_bytes_from env = Inr v"
  shows "positive_i64 v \<and> v \<le> max_chunk_body_bytes"
proof -
  have d: "positive_i64 (8 * 1024 * 1024)" by (simp add: positive_i64_def i64_defs)
  show ?thesis
    using assms parse_positive_i64_ok [OF _ d] by (auto simp: chunk_bytes_from_def split: if_splits)
qed

lemma check_issuers_ok:
  assumes "check_issuers X issuers = Inr u" "i \<in> set issuers"
  shows "\<exists>k. issuer_key X i = Inr k"
  using assms
  by (induction issuers) (auto simp: check_issuers_def split: sum.splits)

lemma parse_poll_ok:
  "parse_positive_u64 env key 900 = Inr v \<Longrightarrow> 0 < v \<and> v \<le> u64_max"
  by (erule parse_positive_u64_ok) (simp_all add: u64_max_def)

lemma from_env_ok:
  assumes boot: "from_env X now env = Inr c"
  shows "config_ok X now c"
proof -
  have d: "positive_i64 (2 * 1024 * 1024 * 1024)" "positive_i64 3" "positive_i64 (24 * 3600)"
    "positive_i64 300" "positive_i64 (365 * 24 * 3600)" "positive_i64 (6 * 3600)"
    by (simp_all add: positive_i64_def i64_defs)
  note sizes = parse_positive_i64_ok [OF _ d(1)] parse_positive_i64_ok [OF _ d(2)]
    parse_positive_i64_ok [OF _ d(3)] parse_poll_ok chunk_bytes_ok
  note windows = parse_past_window_ok [OF _ d(4)] parse_past_window_ok [OF _ d(5)]
    parse_past_window_ok [OF _ d(6)]
  show ?thesis
    using boot unfolding from_env_def Let_def
    apply (clarsimp simp only: and_then_Inr_iff guard_or_simps ok_or_simps sum.inject)
    apply (drule sizes windows)+
    by (auto simp: config_ok_def requires_entitlement_def parse_seed_def check_issuers_ok
        split: if_splits option.splits)
qed
lemma issuer_keys_complete:
  "config_ok X now c \<Longrightarrow> map fst (issuer_keys X (entitlement_issuers c)) = entitlement_issuers c"
proof -
  have "\<forall>i \<in> set is. \<exists>k. issuer_key X i = Inr k \<Longrightarrow> map fst (issuer_keys X is) = is" for "is"
    by (induction "is") (auto simp: issuer_keys_def List.map_filter_simps)
  then show "config_ok X now c \<Longrightarrow> ?thesis" by (simp add: config_ok_def)
qed

text \<open>The polling interval is read from its own variable and bounded by nothing else.\<close>

lemma other_keys:
  assumes "key \<noteq> k"
  shows "parse_positive_i64 (env(k \<mapsto> t)) key d = parse_positive_i64 env key d"
    "parse_past_window_secs X now (env(k \<mapsto> t)) key d m = parse_past_window_secs X now env key d m"
    "env_or (env(k \<mapsto> t)) key e = env_or env key e" "(env(k \<mapsto> t)) key = env key"
  using assms by (simp_all add: parse_positive_i64_def parse_past_window_secs_def env_or_def)

lemma from_env_poll:
  assumes "from_env X now env = Inr c"
    "parse_positive_u64 (env(''BACKUP_REVOCATION_POLL_SECS'' \<mapsto> t)) ''BACKUP_REVOCATION_POLL_SECS'' 900 = Inr v"
  shows "from_env X now (env(''BACKUP_REVOCATION_POLL_SECS'' \<mapsto> t)) = Inr (c\<lparr>revocation_poll_secs := v\<rparr>)"
proof -
  have "chunk_bytes_from (env(''BACKUP_REVOCATION_POLL_SECS'' \<mapsto> t)) = chunk_bytes_from env"
    by (simp add: chunk_bytes_from_def other_keys)
  then show ?thesis
    using assms unfolding from_env_def Let_def by (auto simp: other_keys simp del: fun_upd_apply)
qed

end
