(* ===== verification/Canonical.thy ===== *)
theory Canonical
  imports Config "HOL-Library.Multiset"
begin

text \<open>
  The first half of \<open>documents.rs\<close>: digests, the canonical writer every signature is computed
  over, and the two duration functions.  A \<open>char\<close> of the source is a Unicode scalar value;
  every escape concerns an ASCII character and every byte of a longer UTF-8 sequence is at least
  128, so writing byte by byte writes the same bytes.
\<close>

definition digest :: "crates \<Rightarrow> bytes \<Rightarrow> string" where
  "digest X b = ''sha256:'' @ hex_encode X (sha256 X b)"

section \<open>The canonical writer\<close>

definition quote :: char where "quote = CHR 0x22"
definition backslash :: char where "backslash = CHR 0x5C"

definition hex_digit :: "nat \<Rightarrow> char" where
  "hex_digit n = ''0123456789abcdef'' ! n"

definition escape_char :: "char \<Rightarrow> string" where
  "escape_char c =
     (let n = (of_char c :: nat) in
      if n = 34 then [backslash, quote]
      else if n = 92 then [backslash, backslash]
      else if n = 8 then [backslash, CHR ''b'']
      else if n = 12 then [backslash, CHR ''f'']
      else if n = 10 then [backslash, CHR ''n'']
      else if n = 13 then [backslash, CHR ''r'']
      else if n = 9 then [backslash, CHR ''t'']
      else if n < 32 then
        [backslash, CHR ''u'', CHR ''0'', CHR ''0'', hex_digit (n div 16), hex_digit (n mod 16)]
      else [c])"

definition write_json_string :: "string \<Rightarrow> bytes" where
  "write_json_string s = quote # concat (map escape_char s) @ [quote]"

fun join_comma :: "bytes list \<Rightarrow> bytes" where
  "join_comma [] = []"
| "join_comma [b] = b"
| "join_comma (b # bs) = b @ CHR '','' # join_comma bs"

lemma collect_results_cong [fundef_cong]:
  assumes "xs = ys" "\<And>x. x \<in> set ys \<Longrightarrow> f x = g x"
  shows "collect_results f xs = collect_results g ys"
  using assms(2) unfolding assms(1) by (induction ys) auto

lemma size_json_member:
  "x \<in> set xs \<Longrightarrow> size (x :: json) < Suc (size_list size xs)"
  "(k, v) \<in> set kvs \<Longrightarrow> size (v :: json) < Suc (size_list (size_prod (\<lambda>_. 0) size) kvs)"
  by (induction xs, auto) (induction kvs, auto)

function (sequential) write_canonical :: "json \<Rightarrow> fail + bytes" where
  "write_canonical (JObj kvs) =
     and_then
       (collect_results
          (\<lambda>(key, v). and_then (write_canonical v)
             (\<lambda>b. Inr (write_json_string key @ CHR '':'' # b)))
          (sort_key fst kvs))
       (\<lambda>members. Inr (CHR ''{'' # join_comma members @ ''}''))"
| "write_canonical (JArr items) =
     and_then (collect_results write_canonical items)
       (\<lambda>bs. Inr (CHR ''['' # join_comma bs @ '']''))"
| "write_canonical (JStr text) = Inr (write_json_string text)"
| "write_canonical (JFloat n) = Inl (internal ''non-integer number in signed document'')"
| "write_canonical (JInt n) = Inr (show_int n)"
| "write_canonical (JBool b) = Inr (if b then ''true'' else ''false'')"
| "write_canonical JNull = Inr ''null''"
  by pat_completeness auto
termination
  by (relation "measure size") (auto dest: size_json_member)

definition remove_fields :: "string list \<Rightarrow> json \<Rightarrow> json" where
  "remove_fields omitting v =
     (case v of JObj kvs \<Rightarrow> JObj (fold jobj_remove omitting kvs) | _ \<Rightarrow> v)"

definition canonical_bytes :: "json \<Rightarrow> string list \<Rightarrow> fail + bytes" where
  "canonical_bytes v omitting = write_canonical (remove_fields omitting v)"

section \<open>Durations\<close>

text \<open>
  The divisions of \<open>iso_duration\<close> are exact where they are used, so truncation does not show.
\<close>

definition iso_duration :: "int \<Rightarrow> string" where
  "iso_duration seconds =
     (if 86400 dvd seconds then ''P'' @ show_int (seconds div 86400) @ ''D''
      else if 3600 dvd seconds then ''PT'' @ show_int (seconds div 3600) @ ''H''
      else if 60 dvd seconds then ''PT'' @ show_int (seconds div 60) @ ''M''
      else ''PT'' @ show_int seconds @ ''S'')"

definition duration_unit :: "char \<Rightarrow> bool \<Rightarrow> int option" where
  "duration_unit c in_time =
     (if \<not> in_time then
        (if c = CHR ''Y'' then Some (365 * 86400)
         else if c = CHR ''M'' then Some (30 * 86400)
         else if c = CHR ''W'' then Some (7 * 86400)
         else if c = CHR ''D'' then Some 86400
         else None)
      else
        (if c = CHR ''H'' then Some 3600
         else if c = CHR ''M'' then Some 60
         else if c = CHR ''S'' then Some 1
         else None))"

fun duration_loop :: "int \<Rightarrow> string \<Rightarrow> bool \<Rightarrow> bool \<Rightarrow> string \<Rightarrow> int option" where
  "duration_loop acc number in_time saw_unit [] =
     (if number \<noteq> [] \<or> \<not> saw_unit then None else Some acc)"
| "duration_loop acc number in_time saw_unit (c # cs) =
     (if c = CHR ''T'' then duration_loop acc number True saw_unit cs
      else if digit_value c \<noteq> None then duration_loop acc (number @ [c]) in_time saw_unit cs
      else Option.bind (parse_i64 number) (\<lambda>magnitude.
           Option.bind (duration_unit c in_time) (\<lambda>seconds.
           Option.bind (checked_mul64 magnitude seconds) (\<lambda>product.
           Option.bind (checked_add64 acc product) (\<lambda>acc'.
             duration_loop acc' [] in_time True cs)))))"

definition duration_seconds :: "string \<Rightarrow> int option" where
  "duration_seconds value =
     (if value = ''none'' then Some 0
      else Option.bind (strip_prefix ''P'' value) (duration_loop 0 [] False False))"

section \<open>Durations read back\<close>

lemma duration_loop_digits:
  assumes "\<forall>c \<in> set ds. digit_value c \<noteq> None"
  shows "duration_loop acc number in_time saw (ds @ rest) =
    duration_loop acc (number @ ds) in_time saw rest"
  using assms
proof (induction ds arbitrary: number)
  case (Cons d ds)
  moreover from Cons.prems have "d \<noteq> CHR ''T''"
    by (auto simp: digit_value_def)
  ultimately show ?case by simp
qed simp

lemma show_int_digits: "0 \<le> n \<Longrightarrow> c \<in> set (show_int n) \<Longrightarrow> digit_value c \<noteq> None"
  using show_nat_digits [of c "nat n"] by (auto simp: show_int_def)

lemma duration_loop_unit:
  assumes "0 \<le> n" "in_i64 n" "digit_value u = None" "u \<noteq> CHR ''T''"
    and "duration_unit u in_time = Some k" "in_i64 (n * k)"
  shows "duration_loop 0 [] in_time False (show_int n @ [u]) = Some (n * k)"
  using assms
  by (subst duration_loop_digits)
    (auto simp: parse_show_int checked_mul64_def checked_add64_def dest: show_int_digits)

lemma i64_quotient:
  assumes "0 \<le> s" "in_i64 s" "1 < k"
  shows "0 \<le> s div k" "in_i64 (s div k)"
proof -
  show "0 \<le> s div k" using assms by (simp add: pos_imp_zdiv_nonneg_iff)
  moreover have "s div k \<le> s" using assms int_div_less_self [of s k] by (cases "s = 0") auto
  ultimately show "in_i64 (s div k)" using assms by (simp add: i64_defs)
qed

lemma duration_seconds_P:
  "duration_loop 0 [] False False cs = Some n \<Longrightarrow> duration_seconds (CHR ''P'' # cs) = Some n"
  by (simp add: duration_seconds_def)

lemma duration_seconds_iso:
  assumes "0 \<le> s" "in_i64 s"
  shows "duration_seconds (iso_duration s) = Some s"
proof -
  have unit: "duration_loop 0 [] t False (show_int (s div k) @ [u]) = Some s"
    if "k dvd s" "1 < k" "digit_value u = None" "u \<noteq> CHR ''T''" "duration_unit u t = Some k" for k u t
    using duration_loop_unit [of "s div k" u t k] i64_quotient [OF assms that(2)] that assms by simp
  show ?thesis
    unfolding iso_duration_def
    using assms unit [of 86400 "CHR ''D''" False] unit [of 3600 "CHR ''H''" True]
      unit [of 60 "CHR ''M''" True] duration_loop_unit [of s "CHR ''S''" True 1]
    by (auto simp: digit_value_def duration_unit_def intro!: duration_seconds_P)
qed

section \<open>The canonical form\<close>

text \<open>
  \<open>jnorm\<close> sorts the fields of every object: two documents with the same \<open>jnorm\<close> are the
  same document written in two orders.
\<close>

fun jnorm :: "json \<Rightarrow> json" where
  "jnorm (JObj kvs) = JObj (sort_key fst (map (\<lambda>(k, v). (k, jnorm v)) kvs))"
| "jnorm (JArr xs) = JArr (map jnorm xs)"
| "jnorm v = v"

lemma insort_key_map: "insort_key f (g x) (map g xs) = map g (insort_key (\<lambda>x. f (g x)) x xs)"
  by (induction xs) auto

lemma sort_key_map: "sort_key f (map g xs) = map g (sort_key (\<lambda>x. f (g x)) xs)"
  by (induction xs) (simp_all add: insort_key_map)

lemma sort_key_fst_map:
  "sort_key fst (map (\<lambda>(k, v). (k, h v)) kvs) = map (\<lambda>(k, v). (k, h v)) (sort_key fst kvs)"
  by (simp add: sort_key_map case_prod_beta)

lemma jnorm_JObj: "jnorm (JObj kvs) = JObj (map (\<lambda>(k, v). (k, jnorm v)) (sort_key fst kvs))"
  by (simp add: sort_key_fst_map)

text \<open>The order of the fields does not show in the canonical bytes.\<close>

lemma sort_key_fst_mset:
  assumes "mset kvs = mset kvs'" "distinct (map fst kvs)"
  shows "sort_key fst kvs = sort_key fst kvs'"
proof (rule map_sorted_distinct_set_unique)
  have dist: "distinct (map fst l)" if "mset l = mset kvs" for l
  proof -
    have "mset (map fst l) = mset (map fst kvs)" using that by (metis mset_map)
    with assms(2) show ?thesis using mset_eq_imp_distinct_iff by blast
  qed
  show "distinct (map fst (sort_key fst kvs))" "distinct (map fst (sort_key fst kvs'))"
    by (rule dist, simp add: assms(1))+
  have "set kvs = set kvs'" using assms(1) by (rule mset_eq_setD)
  then show "set (sort_key fst kvs) = set (sort_key fst kvs')"
    "inj_on fst (set (sort_key fst kvs) \<union> set (sort_key fst kvs'))"
    using assms(2) by (simp_all add: distinct_map)
qed simp_all

subsection \<open>Reading canonical bytes is unambiguous\<close>

definition delim :: "bytes \<Rightarrow> bool" where
  "delim r \<longleftrightarrow> r = [] \<or> hd r \<in> {CHR '','', CHR '':'', CHR '']'', CHR ''}''}"

definition unique_code :: "('a \<Rightarrow> bytes \<Rightarrow> bool) \<Rightarrow> ('a \<Rightarrow> 'n) \<Rightarrow> 'a \<Rightarrow> bool" where
  "unique_code enc n x \<longleftrightarrow>
     (\<forall>y b c r s. enc x b \<longrightarrow> enc y c \<longrightarrow> b @ r = c @ s \<longrightarrow> delim r \<longrightarrow> delim s \<longrightarrow> n x = n y \<and> r = s)"

lemma unique_codeD:
  "unique_code enc n x \<Longrightarrow> enc x b \<Longrightarrow> enc y c \<Longrightarrow> b @ r = c @ s \<Longrightarrow> delim r \<Longrightarrow> delim s \<Longrightarrow>
     n x = n y \<and> r = s"
  unfolding unique_code_def by blast

lemma join_comma_Cons: "join_comma (b # bs) = b @ (if bs = [] then [] else CHR '','' # join_comma bs)"
  by (cases bs) auto

lemma join_unique:
  assumes uniq: "\<forall>x \<in> set xs. unique_code enc n x"
    and starts: "\<And>x b. enc x b \<Longrightarrow> \<not> delim b"
    and z: "z = CHR '']'' \<or> z = CHR ''}''"
    and bs: "list_all2 enc xs bs" and cs: "list_all2 enc ys cs"
    and eq: "join_comma bs @ z # r = join_comma cs @ z # s"
  shows "map n xs = map n ys \<and> r = s"
  using uniq bs cs eq
proof (induction xs arbitrary: bs cs ys)
  case Nil
  show ?case
  proof (cases cs)
    case (Cons c cs')
    with Nil.prems(3) obtain y where "enc y c" by (auto simp: list_all2_Cons2)
    then have "\<not> delim c" by (rule starts)
    then obtain d c' where "c = d # c'" "d \<notin> {CHR '','', CHR '':'', CHR '']'', CHR ''}''}"
      by (cases c) (auto simp: delim_def)
    with Nil.prems Cons z show ?thesis by (auto simp: join_comma_Cons)
  qed (use Nil in simp)
next
  case (Cons x xs)
  from Cons.prems(2) obtain b bs' where b: "bs = b # bs'" "enc x b" "list_all2 enc xs bs'"
    by (auto simp: list_all2_Cons1)
  have "\<not> delim b" by (rule starts [OF b(2)])
  then have "b \<noteq> []" "hd b \<noteq> z" using z by (auto simp: delim_def)
  with Cons.prems(4) b(1) have "cs \<noteq> []" by (cases cs) (auto simp: join_comma_Cons neq_Nil_conv)
  with Cons.prems(3) obtain y ys' c cs' where
    c: "ys = y # ys'" "cs = c # cs'" "enc y c" "list_all2 enc ys' cs'"
    by (cases cs) (auto simp: list_all2_Cons2)
  let ?t = "\<lambda>l u. (if l = [] then [] else CHR '','' # join_comma l) @ z # u"
  have ux: "unique_code enc n x" using Cons.prems(1) by simp
  have eq': "b @ ?t bs' r = c @ ?t cs' s"
    using Cons.prems(4) b(1) c(2) by (simp add: join_comma_Cons)
  have d: "delim (?t bs' r)" "delim (?t cs' s)"
    using z by (auto simp: delim_def)
  have hd: "n x = n y" and tl: "?t bs' r = ?t cs' s"
    using unique_codeD [where r = "?t bs' r" and s = "?t cs' s", OF ux b(2) c(3) eq' d] by blast+
  have "bs' = [] \<longleftrightarrow> cs' = []"
    using tl z by (auto split: if_splits)
  with tl have "join_comma bs' @ z # r = join_comma cs' @ z # s"
    by (auto split: if_splits)
  with Cons.IH [OF _ b(3) c(4)] Cons.prems(1) hd c(1) show ?case by simp
qed

text \<open>Strings: every escape sequence decodes to the character it stands for.\<close>

definition hex_value :: "char \<Rightarrow> nat" where
  "hex_value c = (let n = (of_char c :: nat) in if n < 58 then n - 48 else n - 87)"

definition unescape1 :: "bytes \<Rightarrow> (char \<times> bytes) option" where
  "unescape1 s =
     (case s of
        [] \<Rightarrow> None
      | c # cs \<Rightarrow>
          if c \<noteq> backslash then Some (c, cs)
          else (case cs of
              [] \<Rightarrow> None
            | d # ds \<Rightarrow>
                if d = CHR ''b'' then Some (char_of (8 :: nat), ds)
                else if d = CHR ''f'' then Some (char_of (12 :: nat), ds)
                else if d = CHR ''n'' then Some (char_of (10 :: nat), ds)
                else if d = CHR ''r'' then Some (char_of (13 :: nat), ds)
                else if d = CHR ''t'' then Some (char_of (9 :: nat), ds)
                else if d = CHR ''u'' then
                  (case ds of _ # _ # h # l # rs \<Rightarrow>
                      Some (char_of (16 * hex_value h + hex_value l), rs) | _ \<Rightarrow> None)
                else Some (d, ds)))"

lemma hex_value_digit: "d < 16 \<Longrightarrow> hex_value (hex_digit d) = d"
  by (auto simp: hex_value_def hex_digit_def less_Suc_eq numeral_eq_Suc)

lemma char_of_of_char: "(of_char c :: nat) = n \<Longrightarrow> char_of n = c"
  by (metis char_of_char)

lemma of_char_quote: "(of_char c :: nat) = 34 \<longleftrightarrow> c = quote"
  and of_char_backslash: "(of_char c :: nat) = 92 \<longleftrightarrow> c = backslash"
proof -
  have "(of_char quote :: nat) = 34" "(of_char backslash :: nat) = 92"
    by (simp_all add: quote_def backslash_def)
  then show "(of_char c :: nat) = 34 \<longleftrightarrow> c = quote" "(of_char c :: nat) = 92 \<longleftrightarrow> c = backslash"
    by (metis of_char_eq_iff)+
qed

lemma unescape1_escape: "unescape1 (escape_char c @ r) = Some (c, r)"
proof -
  let ?n = "of_char c :: nat"
  have hex: "16 * hex_value (hex_digit (?n div 16)) + hex_value (hex_digit (?n mod 16)) = ?n" if "?n < 32"
    using that by (simp add: hex_value_digit)
  have "char_of ?n = c" by simp
  with hex show ?thesis
    by (auto simp: escape_char_def unescape1_def Let_def of_char_quote of_char_backslash
        quote_def backslash_def dest: char_of_of_char)
qed

lemma escape_char_start: "escape_char c = d # ds \<Longrightarrow> d \<noteq> quote"
  by (auto simp: escape_char_def Let_def of_char_quote backslash_def quote_def split: if_splits)

lemma escape_char_nonempty: "escape_char c \<noteq> []"
  by (simp add: escape_char_def Let_def)

lemma escape_unique:
  "concat (map escape_char s) @ quote # r = concat (map escape_char t) @ quote # r' \<Longrightarrow> s = t \<and> r = r'"
proof (induction s arbitrary: t)
  case Nil
  then show ?case
    using escape_char_nonempty by (cases t) (auto simp: neq_Nil_conv Cons_eq_append_conv dest: escape_char_start escape_char_start [OF sym])
next
  case (Cons c s)
  show ?case
  proof (cases t)
    case Nil
    with Cons.prems escape_char_nonempty [of c] show ?thesis
      by (auto simp: neq_Nil_conv append_eq_Cons_conv dest: escape_char_start escape_char_start [OF sym])
  next
    case (Cons d t')
    with Cons.prems have "unescape1 (escape_char c @ concat (map escape_char s) @ quote # r) =
        unescape1 (escape_char d @ concat (map escape_char t') @ quote # r')" by simp
    then show ?thesis using Cons.IH [of t'] Cons by (simp add: unescape1_escape)
  qed
qed

lemma write_json_string_unique:
  "write_json_string s @ r = write_json_string t @ r' \<Longrightarrow> s = t \<and> r = r'"
  by (rule escape_unique) (simp add: write_json_string_def)

text \<open>Numbers end where a character that is neither a digit nor a sign follows.\<close>

definition is_num :: "char \<Rightarrow> bool" where
  "is_num c \<longleftrightarrow> c = CHR ''-'' \<or> digit_value c \<noteq> None"

lemma show_int_is_num: "c \<in> set (show_int n) \<Longrightarrow> is_num c"
  using show_nat_digits [of c "nat n"] show_nat_digits [of c "nat (- n)"]
  by (auto simp: show_int_def is_num_def split: if_splits)

lemma delim_not_num: "delim r \<Longrightarrow> takeWhile is_num r = []"
  by (cases r) (auto simp: delim_def is_num_def digit_value_def)

lemma show_int_unique:
  assumes "show_int n @ r = show_int m @ s" "delim r" "delim s"
  shows "n = m \<and> r = s"
proof -
  have "takeWhile is_num (show_int n @ r) = show_int n" "takeWhile is_num (show_int m @ s) = show_int m"
    using assms(2,3) by (simp_all add: takeWhile_append2 show_int_is_num delim_not_num)
  with assms(1) show ?thesis by auto
qed

text \<open>The first byte tells which constructor was written.\<close>

fun tag :: "json \<Rightarrow> nat" where
  "tag (JObj _) = 0" | "tag (JArr _) = 1" | "tag (JStr _) = 2" | "tag (JInt _) = 3"
| "tag (JBool _) = 4" | "tag JNull = 5" | "tag (JFloat _) = 6"

definition tag_of_char :: "char \<Rightarrow> nat" where
  "tag_of_char c =
     (if c = CHR ''{'' then 0 else if c = CHR ''['' then 1 else if c = quote then 2
      else if is_num c then 3 else if c = CHR ''t'' \<or> c = CHR ''f'' then 4 else 5)"

lemma is_num_simps [simp]:
  "\<not> is_num CHR ''{''" "\<not> is_num CHR ''[''" "\<not> is_num CHR 0x22" "\<not> is_num CHR ''t''" "\<not> is_num CHR ''f''"
  "\<not> is_num CHR ''n''" "\<not> is_num CHR '',''" "\<not> is_num CHR '':''" "\<not> is_num CHR '']''" "\<not> is_num CHR ''}''"
  by (simp_all add: is_num_def digit_value_def)

lemma show_int_hd: "show_int n \<noteq> [] \<and> is_num (hd (show_int n))"
proof -
  have "show_int n \<noteq> []" by (simp add: show_int_def)
  then show ?thesis using show_int_is_num [of "hd (show_int n)" n] by simp
qed

lemma write_canonical_head:
  assumes "write_canonical v = Inr b"
  shows "b \<noteq> []" "tag_of_char (hd b) = tag v" "\<not> delim b"
proof -
  have "b \<noteq> [] \<and> tag_of_char (hd b) = tag v \<and> \<not> delim b"
  proof (cases v)
    case (JInt n)
    with assms show ?thesis
      using show_int_hd [of n] by (auto simp: tag_of_char_def delim_def quote_def)
  qed (use assms in \<open>auto simp: tag_of_char_def delim_def quote_def write_json_string_def split: if_splits\<close>)
  then show "b \<noteq> []" "tag_of_char (hd b) = tag v" "\<not> delim b" by auto
qed

lemma write_canonical_tag:
  "write_canonical v = Inr b \<Longrightarrow> write_canonical w = Inr c \<Longrightarrow> b @ r = c @ s \<Longrightarrow> tag v = tag w"
  using write_canonical_head [of v b] write_canonical_head [of w c] by (metis hd_append2)

abbreviation canon :: "json \<Rightarrow> bytes \<Rightarrow> bool" where
  "canon v b \<equiv> write_canonical v = Inr b"

definition canon_member :: "string \<times> json \<Rightarrow> bytes \<Rightarrow> bool" where
  "canon_member kv m \<longleftrightarrow> (\<exists>b. canon (snd kv) b \<and> m = write_json_string (fst kv) @ CHR '':'' # b)"

lemma canon_JObj:
  "canon (JObj kvs) b \<longleftrightarrow>
     (\<exists>ms. list_all2 canon_member (sort_key fst kvs) ms \<and> b = CHR ''{'' # join_comma ms @ ''}'')"
proof -
  have "(\<lambda>x y. (case x of (key, v) \<Rightarrow> and_then (write_canonical v)
      (\<lambda>b. Inr (write_json_string key @ CHR '':'' # b))) = Inr y) = canon_member"
    by (auto simp: canon_member_def fun_eq_iff)
  then show ?thesis by (auto simp: collect_results_Inr)
qed

lemma canon_JArr:
  "canon (JArr xs) b \<longleftrightarrow> (\<exists>bs. list_all2 canon xs bs \<and> b = CHR ''['' # join_comma bs @ '']'')"
  by (auto simp: collect_results_Inr)

lemma unique_member:
  assumes "unique_code canon jnorm v"
  shows "unique_code canon_member (\<lambda>(k, v). (k, jnorm v)) (k, v)"
  unfolding unique_code_def
proof (intro allI impI)
  fix y :: "string \<times> json" and b c r s
  assume enc: "canon_member (k, v) b" "canon_member y c" and eq: "b @ r = c @ s"
    and d: "delim r" "delim s"
  obtain k' v' where y: "y = (k', v')" by (cases y)
  from enc y obtain b' c' where
    b: "canon v b'" "b = write_json_string k @ CHR '':'' # b'" and
    c: "canon v' c'" "c = write_json_string k' @ CHR '':'' # c'"
    by (auto simp: canon_member_def)
  with eq have "k = k' \<and> CHR '':'' # b' @ r = CHR '':'' # c' @ s"
    by (intro write_json_string_unique) simp
  with unique_codeD [of canon jnorm v b' v' c' r s] assms b(1) c(1) d y
  show "(case (k, v) of (k, v) \<Rightarrow> (k, jnorm v)) = (case y of (k, v) \<Rightarrow> (k, jnorm v)) \<and> r = s"
    by simp
qed

lemma canonical_unique_code: "unique_code canon jnorm v"
proof (induction v rule: write_canonical.induct)
  case (1 kvs)
  have members: "\<forall>kv \<in> set (sort_key fst kvs). unique_code canon_member (\<lambda>(k, v). (k, jnorm v)) kv"
    using "1" by (auto intro!: unique_member)
  show ?case
    unfolding unique_code_def
  proof (intro allI impI)
    fix w b c r s
    assume enc: "canon (JObj kvs) b" "canon w c" and eq: "b @ r = c @ s" and d: "delim r" "delim s"
    have "tag w = 0" using write_canonical_tag [OF enc eq] by simp
    then obtain kvs' where w: "w = JObj kvs'" by (cases w) auto
    from enc(1) enc(2) [unfolded w] obtain ms ms' where
      ms: "list_all2 canon_member (sort_key fst kvs) ms" "b = CHR ''{'' # join_comma ms @ ''}''" and
      ms': "list_all2 canon_member (sort_key fst kvs') ms'" "c = CHR ''{'' # join_comma ms' @ ''}''"
      unfolding canon_JObj by blast
    have starts: "\<not> delim m" if "canon_member x m" for x m
      using that by (auto simp: canon_member_def delim_def write_json_string_def quote_def)
    show "jnorm (JObj kvs) = jnorm w \<and> r = s"
      using join_unique [where z = "CHR ''}''" and r = r and s = s, OF members starts _ ms(1) ms'(1)] eq ms(2) ms'(2) w
      by (simp add: jnorm_JObj del: jnorm.simps)
  qed
next
  case (2 items)
  then have elems: "\<forall>x \<in> set items. unique_code canon jnorm x" by blast
  show ?case
    unfolding unique_code_def
  proof (intro allI impI)
    fix w b c r s
    assume enc: "canon (JArr items) b" "canon w c" and eq: "b @ r = c @ s" and d: "delim r" "delim s"
    have "tag w = 1" using write_canonical_tag [OF enc eq] by simp
    then obtain items' where w: "w = JArr items'" by (cases w) auto
    from enc(1) enc(2) [unfolded w] obtain bs cs where
      bs: "list_all2 canon items bs" "b = CHR ''['' # join_comma bs @ '']''" and
      cs: "list_all2 canon items' cs" "c = CHR ''['' # join_comma cs @ '']''"
      unfolding canon_JArr by blast
    show "jnorm (JArr items) = jnorm w \<and> r = s"
      using join_unique [where z = "CHR '']''" and r = r and s = s, OF elems write_canonical_head(3) _ bs(1) cs(1)]
        eq bs(2) cs(2) w by simp
  qed
next
  case (3 u)
  show ?case
    unfolding unique_code_def
  proof (intro allI impI)
    fix w b c r s
    assume "canon (JStr u) b" "canon w c" "b @ r = c @ s"
    moreover from this write_canonical_tag [of "JStr u" b w c r s] obtain t where "w = JStr t"
      by (cases w) auto
    ultimately show "jnorm (JStr u) = jnorm w \<and> r = s"
      using write_json_string_unique [of u r t s] by simp
  qed
next
  case (5 n)
  show ?case
    unfolding unique_code_def
  proof (intro allI impI)
    fix w b c r s
    assume "canon (JInt n) b" "canon w c" "b @ r = c @ s" "delim r" "delim s"
    moreover from this write_canonical_tag [of "JInt n" b w c r s] obtain m where "w = JInt m"
      by (cases w) auto
    ultimately show "jnorm (JInt n) = jnorm w \<and> r = s"
      using show_int_unique [of n r m s] by simp
  qed
next
  case (6 x)
  show ?case
    unfolding unique_code_def
  proof (intro allI impI)
    fix w b c r s
    assume "canon (JBool x) b" "canon w c" "b @ r = c @ s"
    moreover from this write_canonical_tag [of "JBool x" b w c r s] obtain y where "w = JBool y"
      by (cases w) auto
    ultimately show "jnorm (JBool x) = jnorm w \<and> r = s"
      by (auto split: if_splits)
  qed
next
  case 7
  show ?case
    unfolding unique_code_def
  proof (intro allI impI)
    fix w b c r s
    assume "canon JNull b" "canon w c" "b @ r = c @ s"
    moreover from this write_canonical_tag [of JNull b w c r s] have "w = JNull"
      by (cases w) auto
    ultimately show "jnorm JNull = jnorm w \<and> r = s" by simp
  qed
qed (simp add: unique_code_def)

lemma write_canonical_injective:
  assumes "write_canonical v = Inr b" "write_canonical w = Inr b"
  shows "jnorm v = jnorm w"
  using unique_codeD [OF canonical_unique_code assms, of "[]" "[]"] by (simp add: delim_def)

lemma sort_key_jnorm_fields:
  "sort_key fst (map (\<lambda>(k, v). (k, jnorm v)) (sort_key fst kvs)) =
   map (\<lambda>(k, v). (k, jnorm v)) (sort_key fst kvs)"
  by (simp add: sort_key_fst_map sort_key_id_if_sorted)

lemma write_canonical_jnorm: "write_canonical (jnorm v) = write_canonical v"
proof (induction v rule: write_canonical.induct)
  case (1 kvs)
  have "collect_results (\<lambda>(key, v). and_then (write_canonical v)
      (\<lambda>b. Inr (write_json_string key @ CHR '':'' # b))) (map (\<lambda>(k, v). (k, jnorm v)) l) =
    collect_results (\<lambda>(key, v). and_then (write_canonical v)
      (\<lambda>b. Inr (write_json_string key @ CHR '':'' # b))) l"
    if "set l \<subseteq> set (sort_key fst kvs)" for l
    using that "1" by (induction l) auto
  then show ?case
    by (simp add: jnorm_JObj sort_key_jnorm_fields del: jnorm.simps)
next
  case (2 items)
  have "collect_results write_canonical (map jnorm l) = collect_results write_canonical l"
    if "set l \<subseteq> set items" for l
    using that "2" by (induction l) auto
  then show ?case by simp
qed simp_all

text \<open>The canonical bytes exist and coincide exactly for the two spellings of one document.\<close>

lemma write_canonical_eq_iff:
  "write_canonical v = Inr b \<Longrightarrow> write_canonical w = Inr b \<longleftrightarrow> jnorm w = jnorm v"
  by (metis write_canonical_injective write_canonical_jnorm)

section \<open>Every document without a fractional number has canonical bytes\<close>

primrec no_floats :: "json \<Rightarrow> bool" where
  "no_floats JNull = True"
| "no_floats (JBool b) = True"
| "no_floats (JInt n) = True"
| "no_floats (JFloat s) = False"
| "no_floats (JStr s) = True"
| "no_floats (JArr xs) = list_all id (map no_floats xs)"
| "no_floats (JObj kvs) = list_all snd (map (map_prod id no_floats) kvs)"

lemma no_floats_members: "no_floats (JObj kvs) \<longleftrightarrow> (\<forall>(k, v) \<in> set kvs. no_floats v)"
  "no_floats (JArr xs) \<longleftrightarrow> (\<forall>v \<in> set xs. no_floats v)"
  by (auto simp: list_all_iff)

lemma write_canonical_total: "no_floats v \<Longrightarrow> \<exists>b. write_canonical v = Inr b"
proof (induction v rule: write_canonical.induct)
  case (1 kvs)
  have "\<exists>ms. collect_results (\<lambda>(key, v). and_then (write_canonical v)
      (\<lambda>b. Inr (write_json_string key @ CHR '':'' # b))) (sort_key fst kvs) = Inr ms"
    using 1 by (intro collect_results_total) (fastforce simp: no_floats_members simp del: no_floats.simps)
  then show ?case by auto
next
  case (2 items)
  have "\<exists>bs. collect_results write_canonical items = Inr bs"
    using 2 by (intro collect_results_total) (auto simp: no_floats_members simp del: no_floats.simps)
  then show ?case by auto
qed auto

lemma remove_fields_no_floats: "no_floats v \<Longrightarrow> no_floats (remove_fields omitting v)"
proof (cases v)
  case (JObj kvs)
  have "set (fold jobj_remove omitting kvs) \<subseteq> set kvs"
    by (induction omitting arbitrary: kvs) (auto simp: jobj_remove_def, fastforce)
  then show "no_floats v \<Longrightarrow> ?thesis"
    unfolding JObj remove_fields_def json.case no_floats_members by blast
qed (simp_all add: remove_fields_def)

lemma canonical_bytes_total: "no_floats v \<Longrightarrow> \<exists>b. canonical_bytes v omitting = Inr b"
  by (simp add: canonical_bytes_def write_canonical_total remove_fields_no_floats)

end
