(* ===== verification/Documents.thy ===== *)
theory Documents
  imports Canonical
begin

text \<open>
  The second half of \<open>documents.rs\<close>: the manifest, the implementation profile and the terms,
  and the signature over the canonical bytes that is folded into each of them.  The published
  documents are built once at boot and kept as a record.
\<close>

definition portable_profile_id :: string where
  "portable_profile_id = ''onym:backup-profile:sealed-device-archive-v1''"
definition implementation_profile_id :: string where
  "implementation_profile_id = ''onym:backup-implementation:object-http-v1''"
definition digest_suite :: string where "digest_suite = ''sha-256/lowercase-hex''"
definition sealing_suite :: string where "sealing_suite = ''aes-256-gcm/hkdf-sha256-from-bip39-seed''"
definition increment_model :: string where "increment_model = ''whole-snapshot-transfer-chunked-v1''"
definition authentication :: string where
  "authentication = ''holder-scoped-capability/ed25519-request-bound-v1''"
definition payment_refusal :: string where "payment_refusal = ''onym-payment-required-v1''"
definition seat :: string where "seat = ''storage.backup''"

record documents =
  doc_manifest :: bytes
  doc_profile :: bytes
  doc_manifest_signature :: string
  doc_terms_signature :: string
  doc_terms_id :: string
  doc_terms :: bytes
  doc_operator_key :: string

text \<open>\<open>sign\<close>, with the signed value named separately from its bytes.\<close>

definition signed_value :: "crates \<Rightarrow> bytes \<Rightarrow> json \<Rightarrow> string list \<Rightarrow> fail + json" where
  "signed_value X seed doc omitting =
     and_then (canonical_bytes doc omitting) (\<lambda>bytes.
       let encoded = b64_encode X (ed_sign X seed bytes) in
       Inr (case doc of
           JObj kvs \<Rightarrow>
             JObj (jobj_insert ''signature'' (JStr encoded)
               (if ''termsId'' \<in> set omitting
                then jobj_insert ''termsId'' (JStr (digest X bytes)) kvs else kvs))
         | _ \<Rightarrow> doc))"

definition sign :: "crates \<Rightarrow> bytes \<Rightarrow> json \<Rightarrow> string list \<Rightarrow> fail + bytes" where
  "sign X seed doc omitting =
     and_then (signed_value X seed doc omitting) (\<lambda>v. Inr (json_bytes X v))"

definition detached :: "crates \<Rightarrow> bytes \<Rightarrow> bytes \<Rightarrow> string" where
  "detached X bytes seed = b64_encode X (ed_sign X seed bytes)"

definition sign_receipt :: "crates \<Rightarrow> bytes \<Rightarrow> json \<Rightarrow> fail + json \<times> bytes" where
  "sign_receipt X seed receipt =
     and_then (sign X seed receipt [''signature'']) (\<lambda>bytes.
     and_then (ok_or (internal ''json'') (json_parse X bytes)) (\<lambda>doc.
       Inr (doc, bytes)))"

definition manifest_document :: "config \<Rightarrow> string \<Rightarrow> string \<Rightarrow> json" where
  "manifest_document c operator_key terms_id = JObj
     [(''version'', JInt 1),
      (''componentId'', JStr (component_id c)),
      (''seat'', JStr seat),
      (''operator'', JStr operator_key),
      (''backupProfileId'', JStr portable_profile_id),
      (''implementationProfileId'', JStr implementation_profile_id),
      (''endpoints'', JArr [JObj [(''uri'', JStr (public_url c)), (''role'', JStr ''read-write'')]]),
      (''capabilities'', JArr (map JStr [''upload'', ''list'', ''download'', ''erase'', ''export''])),
      (''limits'', JObj
        [(''maximumSealedSnapshotBytes'', JInt (maximum_sealed_snapshot_bytes c)),
         (''maximumRetainedSnapshots'', JInt (maximum_retained_snapshots c))]),
      (''declaredTerms'', JStr terms_id),
      (''entitlementIssuers'', JArr (map JStr (entitlement_issuers c))),
      (''offers'', JArr (map (\<lambda>offer. JObj
        [(''offerId'', JStr offer), (''model'', JStr ''subscription'')]) (offers c)))]"

definition profile_document :: json where
  "profile_document = JObj
     [(''implementationVersion'', JInt 1),
      (''implementationProfileId'', JStr implementation_profile_id),
      (''backupProfileId'', JStr portable_profile_id),
      (''digestSuite'', JStr digest_suite),
      (''sealingSuite'', JStr sealing_suite),
      (''incrementModel'', JStr increment_model),
      (''authentication'', JArr [JStr authentication]),
      (''paymentRefusal'', JStr payment_refusal)]"

definition end_of_payment_terms :: json where
  "end_of_payment_terms = JObj
     [(''notice'', JStr ''P14D''),
      (''grace'', JStr ''P30D''),
      (''duringGrace'', JArr (map JStr [''download'', ''export'', ''erase''])),
      (''afterGrace'', JStr ''erase'')]"

definition metadata_retention_terms :: "config \<Rightarrow> json" where
  "metadata_retention_terms c = JObj
     [(''accessLogs'', JStr ''none''),
      (''sizeAndTiming'', JStr ''while the snapshot is retained''),
      (''holderIdentifiers'',
        JStr ''while any snapshot, receipt, erased reference, or live grant is held''),
      (''operationOutcomes'', JStr (iso_duration (outcome_retention_secs c))),
      (''erasureReceipts'', JStr (iso_duration (receipt_retention_secs c))),
      (''entitlementRecords'', JStr (iso_duration (wrap64 (revocation_poll_secs c)))),
      (''lapseState'', JStr (''while a lapsed holder still has a snapshot inside the notice-and-grace its own ''
        @ ''terms promised, and until the post-grace action those terms declare has been ''
        @ ''taken; then discarded'')),
      (''uploadGrants'', JStr ''PT1H''),
      (''erasedReferences'', JStr (iso_duration (erased_reference_retention_secs c)))]"

definition default_terms :: "config \<Rightarrow> string \<Rightarrow> json" where
  "default_terms c operator_key = JObj
     [(''termsVersion'', JInt 1),
      (''operator'', JStr operator_key),
      (''retention'', JObj
        [(''class'', JStr ''best-effort''),
         (''maximumRetentionPeriod'', JStr ''until-erased''),
         (''snapshotsRetained'', JStr (show_int (maximum_retained_snapshots c))),
         (''expiryBehavior'', JStr ''notify-then-erase'')]),
      (''erasure'', JObj
        [(''acknowledgementDeadline'', JStr ''PT1H''),
         (''completionDeadline'', JStr ''P7D''),
         (''scope'', JStr ''the primary copy and this operator's own backups of it''),
         (''excluded'', JStr (''copies held by the other participants in every conversation this ''
           @ ''snapshot contains, and any copy you exported yourself''))]),
      (''jurisdictions'', JArr [JStr ''EE'']),
      (''subProcessors'', JArr []),
      (''lawfulAccess'', JObj
        [(''disclosureWhatIsProduced'', JStr ''sealed-bytes-and-declared-metadata-only''),
         (''notifyHolderWhenPermitted'', JBool True),
         (''transparencyReporting'', JNull)]),
      (''breachDisclosure'', JObj [(''holderNotice'', JStr ''P3D'')]),
      (''export'', JObj [(''format'', JStr ''tar''), (''availableWhileUnpaid'', JBool True)]),
      (''shutdownNotice'', JStr ''P90D''),
      (''endOfPayment'', end_of_payment_terms),
      (''metadataRetention'', metadata_retention_terms c)]"

definition build_documents :: "crates \<Rightarrow> config \<Rightarrow> bytes \<Rightarrow> fail + documents" where
  "build_documents X c seed =
     (let operator_key = ''onym:key:'' @ hex_encode X (ed_public X seed) in
      and_then (sign X seed (default_terms c operator_key) [''termsId'', ''signature'']) (\<lambda>terms.
      and_then (ok_or (internal ''json'') (json_parse X terms)) (\<lambda>parsed.
      and_then (canonical_bytes parsed [''termsId'', ''signature'']) (\<lambda>canonical.
      let terms_id = digest X canonical in
      and_then (sign X seed (manifest_document c operator_key terms_id) [''signature'']) (\<lambda>manifest.
        Inr \<lparr>doc_manifest = manifest,
             doc_profile = json_bytes X profile_document,
             doc_manifest_signature = detached X manifest seed,
             doc_terms_signature = detached X terms seed,
             doc_terms_id = terms_id,
             doc_terms = terms,
             doc_operator_key = operator_key\<rparr>)))))"

section \<open>What a signed document lets its reader check\<close>

text \<open>
  \<open>serde_json\<close>: printing a document and parsing it back gives the same document; the order
  of an object's fields is not part of it.
\<close>

definition json_roundtrip :: "crates \<Rightarrow> bool" where
  "json_roundtrip X \<longleftrightarrow>
     (\<forall>v. \<exists>w. json_parse X (json_bytes X v) = Some w \<and> jnorm w = jnorm v)"

lemma fold_remove_insert:
  "k \<in> set omitting \<Longrightarrow> fold jobj_remove omitting (jobj_insert k v kvs) = fold jobj_remove omitting kvs"
proof (induction omitting arbitrary: kvs)
  case (Cons a omitting)
  have swap: "jobj_remove a (jobj_insert k v kvs) = jobj_insert k v (jobj_remove a kvs)" if "a \<noteq> k"
    using that by (auto simp: jobj_remove_def jobj_insert_def intro: filter_cong)
  have drop: "jobj_remove k (jobj_insert k v kvs) = jobj_remove k kvs"
    by (simp add: jobj_remove_def jobj_insert_def)
  show ?case
    using Cons swap drop by (cases "a = k") auto
qed simp

text \<open>The folded signature is not part of what it signs.\<close>

lemma signed_value_canonical:
  assumes "signed_value X seed doc omitting = Inr v" "''signature'' \<in> set omitting"
  shows "canonical_bytes v omitting = canonical_bytes doc omitting"
  using assms
  by (auto simp: signed_value_def canonical_bytes_def remove_fields_def fold_remove_insert
      split: json.splits)

lemma jnorm_remove_fields:
  "jnorm v = jnorm w \<Longrightarrow> jnorm (remove_fields omitting v) = jnorm (remove_fields omitting w)"
proof (cases v)
  case (JObj kvs)
  assume eq: "jnorm v = jnorm w"
  with JObj obtain kvs' where w: "w = JObj kvs'" by (cases w) auto
  have step: "map (\<lambda>(k, v). (k, jnorm v)) (sort_key fst (fold jobj_remove omitting l)) =
      fold jobj_remove omitting (map (\<lambda>(k, v). (k, jnorm v)) (sort_key fst l))" for l
  proof (induction omitting arbitrary: l)
    case (Cons a omitting)
    have "map (\<lambda>(k, v). (k, jnorm v)) (sort_key fst (jobj_remove a l)) =
        jobj_remove a (map (\<lambda>(k, v). (k, jnorm v)) (sort_key fst l))"
      by (simp add: jobj_remove_def filter_sort [symmetric] filter_map comp_def split_def)
    with Cons show ?case by simp
  qed simp
  from eq JObj w show ?thesis
    by (simp add: remove_fields_def jnorm_JObj step del: jnorm.simps)
next
  case (JArr xs)
  assume "jnorm v = jnorm w"
  with JArr show ?thesis by (cases w) (auto simp: remove_fields_def)
qed (cases w; simp add: remove_fields_def)+

lemma canonical_bytes_jnorm:
  "jnorm v = jnorm w \<Longrightarrow> canonical_bytes v omitting = canonical_bytes w omitting"
  by (metis canonical_bytes_def jnorm_remove_fields write_canonical_jnorm)

lemma map_of_insort: "map_of (insort_key fst x xs) = (map_of xs)(fst x \<mapsto> snd x)"
  by (induction xs) (auto simp: fun_eq_iff)

lemma map_of_sort: "map_of (sort_key fst kvs) = map_of kvs"
  by (induction kvs) (auto simp: map_of_insort)

lemma jget_jnorm: "jget (jnorm v) k = map_option jnorm (jget v k)"
proof (cases v)
  case (JObj kvs)
  have "map_of (map (\<lambda>(k, v). (k, jnorm v)) l) k = map_option jnorm (map_of l k)" for l
    by (induction l) auto
  with JObj show ?thesis
    by (simp add: jnorm_JObj jobj_get_def map_of_sort del: jnorm.simps)
qed simp_all

lemma jnorm_JStr [simp]: "jnorm v = JStr s \<longleftrightarrow> v = JStr s" "JStr s = jnorm v \<longleftrightarrow> v = JStr s"
  by (cases v; auto)+

lemma jget_str_cong:
  "jnorm v = jnorm w \<Longrightarrow> jget v k = Some (JStr s) \<longleftrightarrow> jget w k = Some (JStr s)"
  using jget_jnorm [of v k] jget_jnorm [of w k] by (cases "jget v k"; cases "jget w k") auto

text \<open>
  A reader of the served bytes who removes the omitted fields and canonicalises recovers exactly
  the bytes that were signed, and the served document carries the signature over them, the digest
  of them where the terms id is omitted, and every other text field as it was.
\<close>

lemma sign_verifiable:
  assumes rt: "json_roundtrip X" and s: "sign X seed (JObj kvs) omitting = Inr served"
    and om: "''signature'' \<in> set omitting"
  obtains w signed where "json_parse X served = Some w" "canonical_bytes w omitting = Inr signed"
    "canonical_bytes (JObj kvs) omitting = Inr signed"
    "jget w ''signature'' = Some (JStr (b64_encode X (ed_sign X seed signed)))"
    "''termsId'' \<in> set omitting \<Longrightarrow> jget w ''termsId'' = Some (JStr (digest X signed))"
    "\<And>k t. k \<noteq> ''signature'' \<Longrightarrow> k \<noteq> ''termsId'' \<Longrightarrow> jobj_get kvs k = Some (JStr t) \<Longrightarrow> jget w k = Some (JStr t)"
proof -
  obtain v where v: "signed_value X seed (JObj kvs) omitting = Inr v" "served = json_bytes X v"
    using s by (auto simp: sign_def)
  obtain w where w: "json_parse X served = Some w" "jnorm w = jnorm v"
    using rt v(2) by (auto simp: json_roundtrip_def)
  obtain signed where signed: "canonical_bytes (JObj kvs) omitting = Inr signed"
    "v = JObj (jobj_insert ''signature'' (JStr (b64_encode X (ed_sign X seed signed)))
       (if ''termsId'' \<in> set omitting then jobj_insert ''termsId'' (JStr (digest X signed)) kvs else kvs))"
    using v(1) by (auto simp: signed_value_def Let_def)
  have canonical: "canonical_bytes w omitting = Inr signed"
    using canonical_bytes_jnorm [OF w(2)] signed_value_canonical [OF v(1) om] signed(1) by simp
  show ?thesis
    by (rule that [OF w(1) canonical signed(1)]) (simp_all add: jget_str_cong [OF w(2)] signed(2))
qed

lemma build_terms_signed:
  assumes rt: "json_roundtrip X" and b: "build_documents X c seed = Inr d"
  shows "\<exists>t tb. json_parse X (doc_terms d) = Some t \<and>
    canonical_bytes t [''termsId'', ''signature''] = Inr tb \<and> doc_terms_id d = digest X tb \<and>
    jget t ''signature'' = Some (JStr (b64_encode X (ed_sign X seed tb))) \<and>
    jget t ''termsId'' = Some (JStr (doc_terms_id d))"
proof -
  let ?om = "[''termsId'', ''signature'']"
  obtain kvs where kvs: "default_terms c (doc_operator_key d) = JObj kvs"
    by (simp add: default_terms_def)
  obtain t tb where t: "sign X seed (JObj kvs) ?om = Inr (doc_terms d)"
    "json_parse X (doc_terms d) = Some t" "canonical_bytes t ?om = Inr tb" "doc_terms_id d = digest X tb"
    using b kvs by (auto simp: build_documents_def Let_def simp del: default_terms_def)
  show ?thesis
    by (rule sign_verifiable [OF rt t(1)]) (use t in auto)
qed

lemma build_manifest_signed:
  assumes rt: "json_roundtrip X" and b: "build_documents X c seed = Inr d"
  shows "\<exists>m mb. json_parse X (doc_manifest d) = Some m \<and> canonical_bytes m [''signature''] = Inr mb \<and>
    jget m ''signature'' = Some (JStr (b64_encode X (ed_sign X seed mb))) \<and>
    jget m ''declaredTerms'' = Some (JStr (doc_terms_id d)) \<and>
    jget m ''operator'' = Some (JStr (doc_operator_key d))"
proof -
  obtain kvs where kvs: "manifest_document c (doc_operator_key d) (doc_terms_id d) = JObj kvs"
    "jobj_get kvs ''declaredTerms'' = Some (JStr (doc_terms_id d))"
    "jobj_get kvs ''operator'' = Some (JStr (doc_operator_key d))"
    by (simp add: manifest_document_def)
  then have "sign X seed (JObj kvs) [''signature''] = Inr (doc_manifest d)"
    using b by (auto simp: build_documents_def Let_def)
  from rt this show ?thesis
    by (rule sign_verifiable) (use kvs in auto)
qed

lemma build_detached:
  "build_documents X c seed = Inr d \<Longrightarrow>
     doc_manifest_signature d = b64_encode X (ed_sign X seed (doc_manifest d)) \<and>
     doc_terms_signature d = b64_encode X (ed_sign X seed (doc_terms d))"
  by (auto simp: build_documents_def Let_def detached_def)

section \<open>The documents can always be built\<close>

lemma sign_total: "no_floats v \<Longrightarrow> \<exists>w. signed_value X seed v omitting = Inr w \<and> sign X seed v omitting = Inr (json_bytes X w)"
  using canonical_bytes_total [of v omitting] by (auto simp: signed_value_def sign_def Let_def)

lemma documents_no_floats:
  "no_floats (default_terms c k)" "no_floats (manifest_document c k t)"
  by (simp_all add: default_terms_def end_of_payment_terms_def metadata_retention_terms_def
      manifest_document_def list_all_iff)

lemma build_documents_total:
  assumes "json_roundtrip X"
  shows "\<exists>d. build_documents X c seed = Inr d"
proof -
  let ?om = "[''termsId'', ''signature'']"
  let ?k = "''onym:key:'' @ hex_encode X (ed_public X seed)"
  obtain v where v: "signed_value X seed (default_terms c ?k) ?om = Inr v"
    "sign X seed (default_terms c ?k) ?om = Inr (json_bytes X v)"
    using sign_total [OF documents_no_floats(1)] by blast
  obtain parsed where p: "json_parse X (json_bytes X v) = Some parsed" "jnorm parsed = jnorm v"
    using assms unfolding json_roundtrip_def by blast
  obtain canonical where "canonical_bytes (default_terms c ?k) ?om = Inr canonical"
    using canonical_bytes_total [OF documents_no_floats(1)] by blast
  then have "canonical_bytes parsed ?om = Inr canonical"
    using canonical_bytes_jnorm [OF p(2)] signed_value_canonical [OF v(1)] by simp
  moreover obtain m where "sign X seed (manifest_document c ?k (digest X canonical)) [''signature''] = Inr m"
    using sign_total [OF documents_no_floats(2)] by blast
  ultimately show ?thesis using v p by (simp add: build_documents_def)
qed

end
