(* ===== verification/Payload.thy ===== *)
theory Payload
  imports Canonical
begin

text \<open>
  \<open>payload.rs\<close>: the bytes a holder signs, rebuilt from the request, and the check of the
  signature and of its freshness.  A \<open>VerifyingKey\<close> is its 32 bytes.
\<close>

definition signing_context :: string where "signing_context = ''onym-backup-v1''"
definition holder_prefix :: string where "holder_prefix = ''onym:seat-key:''"

text \<open>A field behind its length, as four big-endian bytes; \<open>as u32\<close> keeps the low 32 bits.\<close>

definition be32 :: "nat \<Rightarrow> bytes" where
  "be32 n = map char_of [n div 16777216 mod 256, n div 65536 mod 256, n div 256 mod 256, n mod 256]"

definition append_field :: "bytes \<Rightarrow> bytes" where
  "append_field field = be32 (length field mod 4294967296) @ field"

definition signing_bytes ::
  "crates \<Rightarrow> string \<Rightarrow> string \<Rightarrow> string \<Rightarrow> string \<Rightarrow> string \<Rightarrow> bytes \<Rightarrow> bytes" where
  "signing_bytes X verb path holder timestamp nonce body =
     append_field signing_context
     @ append_field (to_ascii_uppercase verb)
     @ append_field path
     @ append_field holder
     @ append_field timestamp
     @ append_field nonce
     @ append_field (sha256 X body)"

definition holder_key :: "crates \<Rightarrow> string \<Rightarrow> fail + bytes" where
  "holder_key X reference =
     and_then (ok_or (Err SignatureInvalid) (strip_prefix holder_prefix reference)) (\<lambda>hex_value.
     and_then (guard_or (Err SignatureInvalid)
       (length hex_value = 64 \<and> list_all is_lower_hex hex_value)) (\<lambda>_.
     and_then (ok_or (Err SignatureInvalid) (hex_decode X hex_value)) (\<lambda>bytes.
     and_then (guard_or (Err SignatureInvalid) (length bytes = 32)) (\<lambda>_.
     and_then (guard_or (Err SignatureInvalid) (ed_point X bytes)) (\<lambda>_.
       Inr bytes)))))"

definition holder_handle :: "crates \<Rightarrow> bytes \<Rightarrow> string" where
  "holder_handle X key = hex_encode X (sha256 X (''onym-backup-holder-v1'' @ key))"

record verified_proof =
  proof_key :: bytes
  proof_nonce :: string
  proof_handle :: string

definition fresh :: "instant \<Rightarrow> instant \<Rightarrow> int \<Rightarrow> bool" where
  "fresh now signed_at max_skew \<longleftrightarrow> \<not> \<bar>whole_seconds (now - signed_at)\<bar> > max_skew"

definition verify_request ::
  "crates \<Rightarrow> string \<Rightarrow> string \<Rightarrow> string \<Rightarrow> string \<Rightarrow> string \<Rightarrow> string \<Rightarrow> bytes \<Rightarrow> instant \<Rightarrow> int \<Rightarrow>
     fail + verified_proof" where
  "verify_request X holder signature_b64 verb path timestamp nonce body now max_skew =
     and_then (ok_or (Err SignatureInvalid) (rfc_parse X timestamp)) (\<lambda>signed_at.
     and_then (guard_or (Err SignatureInvalid) (fresh now signed_at max_skew)) (\<lambda>_.
     and_then (holder_key X holder) (\<lambda>key.
     and_then (ok_or (Err SignatureInvalid) (b64_decode X signature_b64)) (\<lambda>sig.
     and_then (guard_or (Err SignatureInvalid) (length sig = 64)) (\<lambda>_.
     and_then (guard_or (Err SignatureInvalid)
       (ed_verify X key (signing_bytes X verb path holder timestamp nonce body) sig)) (\<lambda>_.
       Inr \<lparr>proof_key = key, proof_nonce = nonce, proof_handle = holder_handle X key\<rparr>))))))"

section \<open>Freshness in nanoseconds\<close>

text \<open>
  Whole seconds are truncated, so a timestamp is fresh while it is less than
  \<open>max_skew + 1\<close> seconds away.
\<close>

lemma fresh_iff: "0 \<le> max_skew \<Longrightarrow> fresh now signed_at max_skew \<longleftrightarrow> \<bar>now - signed_at\<bar> < nanos (max_skew + 1)"
  by (simp add: fresh_def whole_seconds_abs_le [symmetric] not_less)

lemma fresh_span:
  assumes "0 \<le> max_skew" "fresh t signed_at max_skew" "fresh t' signed_at max_skew"
  shows "t' - t < nanos (2 * max_skew + 2)"
  using assms by (simp add: fresh_iff nanos_def)

section \<open>The signed bytes determine the request\<close>

lemma length_be32 [simp]: "length (be32 n) = 4"
  by (simp add: be32_def)

lemma of_char_char_of: "n < 256 \<Longrightarrow> of_char (char_of n) = (n :: nat)"
  by simp

lemma base256:
  "(a :: nat) = b * 256 + r \<Longrightarrow> b = c * 256 + s \<Longrightarrow> c = d * 256 + t \<Longrightarrow>
     a = d * 16777216 + t * 65536 + s * 256 + r"
  by simp

lemma be32_inject:
  assumes "be32 m = be32 n" "m < 4294967296" "n < 4294967296"
  shows "m = n"
proof -
  let ?b = "\<lambda>k i. k div i mod (256 :: nat)"
  have bytes: "?b m i = ?b n i" if "i \<in> {16777216, 65536, 256, 1}" for i
  proof -
    have "char_of (?b m i) = (char_of (?b n i) :: char)"
      using that assms(1) by (auto simp: be32_def)
    then have "of_char (char_of (?b m i) :: char) = (of_char (char_of (?b n i) :: char) :: nat)" by simp
    then show ?thesis by simp
  qed
  have split: "k = ?b k 16777216 * 16777216 + ?b k 65536 * 65536 + ?b k 256 * 256 + ?b k 1"
    if "k < 4294967296" for k :: nat
  proof -
    have "k div 256 div 256 = k div 65536" "k div 65536 div 256 = k div 16777216"
      by (simp_all flip: div_mult2_eq)
    then have "k = k div 256 * 256 + k mod 256" "k div 256 = k div 65536 * 256 + k div 256 mod 256"
      "k div 65536 = k div 16777216 * 256 + k div 65536 mod 256"
      by (metis div_mult_mod_eq)+
    note radix = base256 [OF this]
    have "k div 16777216 mod 256 = k div 16777216" using that by simp
    with radix show ?thesis by simp
  qed
  let ?v = "\<lambda>k. ?b k 16777216 * 16777216 + ?b k 65536 * 65536 + ?b k 256 * 256 + ?b k 1"
  have "?v m = ?v n"
    by (simp only: bytes [of 16777216] bytes [of 65536] bytes [of 256] bytes [of 1] insertI1 insertI2)
  with split [OF assms(2)] split [OF assms(3)] show ?thesis by (simp only:)
qed

lemma append_field_unique:
  assumes "append_field f @ r = append_field g @ s" "length f < 4294967296" "length g < 4294967296"
  shows "f = g \<and> r = s"
proof -
  have eq: "be32 (length f) @ f @ r = be32 (length g) @ g @ s"
    using assms by (simp add: append_field_def)
  then have "be32 (length f) = be32 (length g)" "f @ r = g @ s"
    by simp_all
  moreover from this assms(2,3) have "length f = length g" by (blast intro: be32_inject)
  ultimately show ?thesis by simp
qed

lemma append_fields_unique:
  assumes "concat (map append_field fs) = concat (map append_field gs)" "length fs = length gs"
    and "\<forall>f \<in> set fs. length f < 4294967296" "\<forall>g \<in> set gs. length g < 4294967296"
  shows "fs = gs"
  using assms(2,1,3,4)
proof (induction fs gs rule: list_induct2)
  case (Cons f fs g gs)
  then show ?case using append_field_unique [of f "concat (map append_field fs)" g] by auto
qed simp

lemma signing_bytes_fields:
  "signing_bytes X verb path holder timestamp nonce body =
   concat (map append_field [signing_context, to_ascii_uppercase verb, path, holder, timestamp, nonce, sha256 X body])"
  by (simp add: signing_bytes_def)

lemma verify_request_Inr:
  "verify_request X holder sig verb path timestamp nonce body now skew = Inr p \<longleftrightarrow>
     (\<exists>signed_at key s. rfc_parse X timestamp = Some signed_at \<and> fresh now signed_at skew \<and>
        holder_key X holder = Inr key \<and> b64_decode X sig = Some s \<and> length s = 64 \<and>
        ed_verify X key (signing_bytes X verb path holder timestamp nonce body) s \<and>
        p = \<lparr>proof_key = key, proof_nonce = nonce, proof_handle = holder_handle X key\<rparr>)"
  by (auto simp: verify_request_def)

lemma verify_request_Inl:
  "verify_request X holder sig verb path timestamp nonce body now skew = Inl e \<Longrightarrow> e = Err SignatureInvalid"
  by (auto simp: verify_request_def holder_key_def and_then_def ok_or_def guard_or_def
      split: sum.splits option.splits if_splits)

end
