(* ===== verification/Tables.thy ===== *)
theory Tables
  imports Documents Payload
begin

text \<open>
  The state of the operator.  \<open>store\<close> is the SQLite schema of \<open>store.rs\<close>, one list of rows
  per table, in the order a scan returns them; \<open>disk\<close> is the blob root of \<open>blobs.rs\<close>, the
  directories that hold chunk files, each with its files; \<open>epoch\<close> is the revocation epoch in
  force of \<open>revocation.rs\<close>.

  Every access to the database or to the file system may fail.  \<open>faults\<close> is the schedule of
  those failures: each access takes the head of the list, \<open>None\<close> lets it succeed and
  \<open>Some n\<close> makes it fail after its first \<open>n\<close> bytes or entries.  When the list is empty
  every access succeeds.  A theorem about an arbitrary state is a theorem about every schedule.
\<close>

section \<open>The rows\<close>

record snapshot_row =
  snap_holder :: string
  snap_digest :: string
  snap_algorithm :: string
  snap_size :: int
  snap_chunks :: int
  snap_terms :: string
  snap_supersedes :: "string option"
  snap_retained_at :: string
  snap_retained_until :: "string option"
  snap_erased_at :: "string option"

record upload_row =
  up_id :: string
  up_holder :: string
  up_operation :: string
  up_digest :: string
  up_size :: int
  up_chunk_bytes :: int
  up_chunk_count :: int
  up_terms :: string
  up_supersedes :: "string option"
  up_started_at :: string
  up_expires_at :: string

record outcome_row =
  oc_holder :: string
  oc_operation :: string
  oc_subject :: string
  oc_status :: string
  oc_receipt_ids :: "string option"
  oc_recorded_at :: string

record terms_row =
  td_id :: string
  td_raw :: bytes
  td_signature :: bytes
  td_first_seen :: string

record receipt_row =
  rc_id :: string
  rc_holder :: string
  rc_scope :: string
  rc_terms :: string
  rc_raw :: bytes
  rc_issued_at :: string

record coverage_row =
  cov_receipt :: string
  cov_digest :: string

record entitlement_row =
  ent_id :: string
  ent_holder :: string
  ent_offer :: string
  ent_not_before :: string
  ent_expires_at :: string
  ent_raw :: bytes
  ent_registered_at :: string

record nonce_row =
  nc_holder :: string
  nc_nonce :: string
  nc_seen_at :: string

record lapse_row =
  lp_holder :: string
  lp_lapsed_at :: string
  lp_grace_expires_at :: string
  lp_post_grace_action :: string

record epoch_row =
  ep_epoch :: int
  ep_fetched_at :: string
  ep_document :: bytes

record store =
  t_snapshots :: "snapshot_row list"
  t_uploads :: "upload_row list"
  t_outcomes :: "outcome_row list"
  t_terms :: "terms_row list"
  t_receipts :: "receipt_row list"
  t_coverage :: "coverage_row list"
  t_entitlements :: "entitlement_row list"
  t_nonces :: "nonce_row list"
  t_lapse :: "lapse_row list"
  t_epochs :: "epoch_row list"

definition empty_store :: store where
  "empty_store = \<lparr>t_snapshots = [], t_uploads = [], t_outcomes = [], t_terms = [], t_receipts = [],
     t_coverage = [], t_entitlements = [], t_nonces = [], t_lapse = [], t_epochs = []\<rparr>"

definition snap_key :: "snapshot_row \<Rightarrow> string \<times> string" where
  "snap_key r = (snap_holder r, snap_digest r)"

definition oc_key :: "outcome_row \<Rightarrow> string \<times> string" where
  "oc_key r = (oc_holder r, oc_operation r)"

definition cov_key :: "coverage_row \<Rightarrow> string \<times> string" where
  "cov_key r = (cov_receipt r, cov_digest r)"

definition nc_key :: "nonce_row \<Rightarrow> string \<times> string" where
  "nc_key r = (nc_holder r, nc_nonce r)"

text \<open>The primary keys of the schema.\<close>

definition keys_ok :: "store \<Rightarrow> bool" where
  "keys_ok s \<longleftrightarrow>
     keyed snap_key (t_snapshots s) \<and> keyed up_id (t_uploads s) \<and> keyed oc_key (t_outcomes s) \<and>
     keyed td_id (t_terms s) \<and> keyed rc_id (t_receipts s) \<and> keyed cov_key (t_coverage s) \<and>
     keyed ent_id (t_entitlements s) \<and> keyed nc_key (t_nonces s) \<and> keyed lp_holder (t_lapse s) \<and>
     keyed ep_epoch (t_epochs s)"

section \<open>The revocation epoch\<close>

record epoch =
  e_epoch :: int
  e_published_at :: instant
  e_revoked :: "string list"
  e_raw :: bytes

section \<open>The state\<close>

type_synonym path = "string list"
type_synonym files = "(int \<times> bytes) list"
type_synonym disk = "(path \<times> files) list"

record world =
  store :: store
  disk :: disk
  epoch :: "(epoch \<times> instant) option"
  faults :: "nat option list"

type_synonym 'a op = "(world, fail, 'a) eff"

text \<open>What every handler of the operator has at hand and never changes.\<close>

record app =
  lib :: crates
  cfg :: config
  docs :: documents

definition take_fault :: "world \<Rightarrow> nat option \<times> world" where
  "take_fault w = (case faults w of [] \<Rightarrow> (None, w) | f # fs \<Rightarrow> (f, w\<lparr>faults := fs\<rparr>))"

text \<open>An access that may fail and otherwise does nothing.\<close>

definition io_step :: "string \<Rightarrow> unit op" where
  "io_step what w =
     (case take_fault w of (f, w') \<Rightarrow> (if f = None then (Inr (), w') else (Inl (internal what), w')))"

text \<open>
  A read-only function of the store, however many statements it makes: a failure of any of them
  ends it the same way.  A statement that changes the store: a failed one changes nothing.
\<close>

definition query :: "(store \<Rightarrow> fail + 'a) \<Rightarrow> 'a op" where
  "query f = bindE (io_step ''sqlite'') (\<lambda>_ w. (f (store w), w))"

definition select :: "(store \<Rightarrow> 'a) \<Rightarrow> 'a op" where
  "select f = query (\<lambda>s. Inr (f s))"

definition execute :: "(store \<Rightarrow> 'a \<times> store) \<Rightarrow> 'a op" where
  "execute f = bindE (io_step ''sqlite'')
     (\<lambda>_ w. case f (store w) of (x, s) \<Rightarrow> (Inr x, w\<lparr>store := s\<rparr>))"

definition statement :: "(store \<Rightarrow> store) \<Rightarrow> unit op" where
  "statement f = execute (\<lambda>s. ((), f s))"

section \<open>Running without faults\<close>

lemma take_fault_store [simp]:
  "take_fault w = (f, w') \<Longrightarrow> store w' = store w"
  "take_fault w = (f, w') \<Longrightarrow> disk w' = disk w"
  "take_fault w = (f, w') \<Longrightarrow> epoch w' = epoch w"
  by (auto simp: take_fault_def split: list.splits)

lemma take_fault_calm [run_simps]: "faults w = [] \<Longrightarrow> take_fault w = (None, w)"
  by (simp add: take_fault_def)

lemma io_step_calm [run_simps]: "faults w = [] \<Longrightarrow> io_step t w = (Inr (), w)"
  and query_calm [run_simps]: "faults w = [] \<Longrightarrow> query f w = (f (store w), w)"
  and select_calm [run_simps]: "faults w = [] \<Longrightarrow> select g w = (Inr (g (store w)), w)"
  and execute_calm [run_simps]: "faults w = [] \<Longrightarrow>
    execute h w = (Inr (fst (h (store w))), w\<lparr>store := snd (h (store w))\<rparr>)"
  and statement_calm [run_simps]: "faults w = [] \<Longrightarrow>
    statement k w = (Inr (), w\<lparr>store := k (store w)\<rparr>)"
  by (simp_all add: io_step_def query_def select_def execute_def statement_def run_simps
      split: prod.splits)

section \<open>Results and effects of the primitives under any schedule\<close>

lemma io_step_cases:
  obtains (ok) w' where "io_step t w = (Inr (), w')" "store w' = store w" "disk w' = disk w" "epoch w' = epoch w"
  | (failed) w' where "io_step t w = (Inl (internal t), w')" "store w' = store w" "disk w' = disk w"
      "epoch w' = epoch w"
proof -
  obtain f w' where "take_fault w = (f, w')" by (cases "take_fault w")
  then show ?thesis using ok failed by (cases f) (auto simp: io_step_def)
qed

text \<open>\<open>same_data\<close>: only the fault schedule moved.\<close>

definition same_data :: "world \<Rightarrow> world \<Rightarrow> bool" where
  "same_data w w' \<longleftrightarrow> store w' = store w \<and> disk w' = disk w \<and> epoch w' = epoch w"

lemma same_data_refl [simp]: "same_data w w"
  and same_data_trans: "same_data w w1 \<Longrightarrow> same_data w1 w2 \<Longrightarrow> same_data w w2"
  by (simp_all add: same_data_def)

lemma io_step_same: "io_step t w = (r, w') \<Longrightarrow> same_data w w' \<and> (r = Inr () \<or> r = Inl (internal t))"
  by (cases rule: io_step_cases [of t w]) (auto simp: same_data_def)

lemma query_same:
  assumes "query f w = (r, w')"
  shows "same_data w w' \<and> (r = f (store w) \<or> r = Inl (internal ''sqlite''))"
  using assms unfolding query_def
  by (cases rule: io_step_cases [of "''sqlite''" w]) (auto simp: bindE_run same_data_def)

lemma select_same:
  assumes "select f w = (r, w')"
  shows "same_data w w' \<and> (r = Inr (f (store w)) \<or> r = Inl (internal ''sqlite''))"
  using query_same [OF assms [unfolded select_def]] by simp

lemma execute_same:
  assumes "execute f w = (r, w')"
  shows "(r = Inr (fst (f (store w))) \<and> store w' = snd (f (store w)) \<and> disk w' = disk w \<and> epoch w' = epoch w)
     \<or> (r = Inl (internal ''sqlite'') \<and> same_data w w')"
  using assms unfolding execute_def
  by (cases rule: io_step_cases [of "''sqlite''" w]) (auto simp: bindE_run same_data_def split: prod.splits)

text \<open>A predicate of the data only.\<close>

definition data_pred :: "(world \<Rightarrow> bool) \<Rightarrow> bool" where
  "data_pred I \<longleftrightarrow> (\<forall>w w'. same_data w w' \<longrightarrow> I w = I w')"

lemma data_predD: "data_pred I \<Longrightarrow> same_data w w' \<Longrightarrow> I w' = I w"
  by (simp add: data_pred_def)

lemma data_pred_conj [intro]: "data_pred I \<Longrightarrow> data_pred J \<Longrightarrow> data_pred (\<lambda>w. I w \<and> J w)"
  by (auto simp: data_pred_def)

lemma data_pred_of: "data_pred (\<lambda>w. P (store w) (disk w))"
  by (auto simp: data_pred_def same_data_def)

lemma keeps_io_step [valid_rules]: "data_pred I \<Longrightarrow> keeps I (io_step t)"
  unfolding keeps_def by (metis data_predD io_step_same prod.collapse)

lemma keeps_query [valid_rules]: "data_pred I \<Longrightarrow> keeps I (query f)"
  unfolding keeps_def by (metis data_predD query_same prod.collapse)

lemma keeps_select [valid_rules]: "data_pred I \<Longrightarrow> keeps I (select g)"
  by (simp add: select_def keeps_query)

lemma keeps_execute:
  assumes "data_pred I" "\<And>w w'. I w \<Longrightarrow> store w' = snd (f (store w)) \<Longrightarrow> disk w' = disk w \<Longrightarrow>
    epoch w' = epoch w \<Longrightarrow> I w'"
  shows "keeps I (execute f)"
  unfolding keeps_def
proof (intro allI impI)
  fix w assume "I w"
  with execute_same [of f w "fst (execute f w)" "snd (execute f w)"] assms
  show "I (snd (execute f w))" by (auto dest: data_predD)
qed

end
