(* ===== verification/Store.thy ===== *)
theory Store
  imports Tables
begin

text \<open>
  \<open>store.rs\<close>: one definition per method of \<open>Store\<close>, as a function of the tables.  A
  \<open>SELECT\<close> without \<open>ORDER BY\<close> returns its rows in table order.  The methods that run one
  statement or one transaction are pure functions, made effectful at the call by \<open>select\<close>,
  \<open>query\<close>, \<open>statement\<close> and \<open>execute\<close>; the two that run two statements in a row
  (\<open>register_entitlement\<close>, \<open>cache_epoch\<close>) are effectful here, since the second may fail
  after the first has been applied.
\<close>

section \<open>Nonces\<close>

definition record_nonce :: "string \<Rightarrow> string \<Rightarrow> string \<Rightarrow> store \<Rightarrow> bool \<times> store" where
  "record_nonce handle nonce now s =
     (let row = \<lparr>nc_holder = handle, nc_nonce = nonce, nc_seen_at = now\<rparr>;
          fresh_key = (\<forall>r \<in> set (t_nonces s). nc_key r \<noteq> (handle, nonce))
      in (fresh_key, s\<lparr>t_nonces := insert_or_ignore nc_key row (t_nonces s)\<rparr>))"

definition sweep_nonces :: "crates \<Rightarrow> string \<Rightarrow> store \<Rightarrow> int \<times> store" where
  "sweep_nonces X older_than s =
     (count_where (\<lambda>r. jd_less X (nc_seen_at r) older_than) (t_nonces s),
      s\<lparr>t_nonces := delete_where (\<lambda>r. jd_less X (nc_seen_at r) older_than) (t_nonces s)\<rparr>)"

section \<open>Snapshots\<close>

definition live :: "snapshot_row \<Rightarrow> bool" where
  "live r \<longleftrightarrow> snap_erased_at r = None \<and> snap_retained_until r = None"

definition unavailable :: "snapshot_row \<Rightarrow> bool" where
  "unavailable r \<longleftrightarrow> snap_erased_at r = None \<and> snap_retained_until r \<noteq> None"

definition listed :: "crates \<Rightarrow> string \<Rightarrow> bool \<Rightarrow> store \<Rightarrow> snapshot_row list" where
  "listed X handle live_only s =
     sort_key (\<lambda>r. jd_desc X (snap_retained_at r))
       (filter (\<lambda>r. snap_holder r = handle \<and> (live_only \<longrightarrow> live r)) (t_snapshots s))"

definition snapshots :: "crates \<Rightarrow> string \<Rightarrow> store \<Rightarrow> snapshot_row list" where
  "snapshots X handle s = listed X handle True s"

definition snapshots_including_erased :: "crates \<Rightarrow> string \<Rightarrow> store \<Rightarrow> snapshot_row list" where
  "snapshots_including_erased X handle s = listed X handle False s"

text \<open>\<open>SUM\<close> fails where the sum is not a 64-bit integer.\<close>

definition sql_sum :: "int list \<Rightarrow> fail + int" where
  "sql_sum xs = ok_or (internal ''sqlite'') (checked_i64 (sum_list xs))"

definition usage :: "string \<Rightarrow> store \<Rightarrow> fail + int \<times> int" where
  "usage handle s =
     (let rows = filter (\<lambda>r. snap_holder r = handle \<and> live r) (t_snapshots s) in
      and_then (sql_sum (map snap_size rows)) (\<lambda>bytes. Inr (int (length rows), bytes)))"

definition snapshot_exists :: "string \<Rightarrow> string \<Rightarrow> store \<Rightarrow> bool" where
  "snapshot_exists handle digest_text s \<longleftrightarrow>
     0 < count_where (\<lambda>r. snap_holder r = handle \<and> snap_digest r = digest_text \<and> live r) (t_snapshots s)"

definition snapshot_record :: "string \<Rightarrow> string \<Rightarrow> store \<Rightarrow> snapshot_row option" where
  "snapshot_record handle digest_text s =
     List.find (\<lambda>r. snap_holder r = handle \<and> snap_digest r = digest_text) (t_snapshots s)"

definition snapshots_in_scope :: "crates \<Rightarrow> string \<Rightarrow> string \<Rightarrow> store \<Rightarrow> snapshot_row list" where
  "snapshots_in_scope X handle scope s =
     (if scope = ''all'' then snapshots X handle s
      else filter (\<lambda>r. snap_digest r = scope) (snapshots X handle s))"

definition all_live_snapshots :: "store \<Rightarrow> (string \<times> snapshot_row) list" where
  "all_live_snapshots s = map (\<lambda>r. (snap_holder r, r)) (filter live (t_snapshots s))"

definition strip_sha :: "string \<Rightarrow> string" where
  "strip_sha d = (case strip_prefix ''sha256:'' d of Some h \<Rightarrow> h | None \<Rightarrow> d)"

definition all_retained_keys :: "store \<Rightarrow> (string \<times> string) list" where
  "all_retained_keys s =
     map (\<lambda>r. (snap_holder r, strip_sha (snap_digest r))) (filter live (t_snapshots s))"

definition holders_with_snapshots :: "store \<Rightarrow> string list" where
  "holders_with_snapshots s = remdups (map snap_holder (filter live (t_snapshots s)))"

text \<open>
  The upsert: a row that was erased or has become unavailable is revived with what the new
  upload pins, and keeps its algorithm; a live row is left alone.
\<close>

definition revive :: "upload_row \<Rightarrow> string \<Rightarrow> snapshot_row \<Rightarrow> snapshot_row" where
  "revive u retained_at r =
     r\<lparr>snap_erased_at := None, snap_retained_until := None, snap_retained_at := retained_at,
       snap_terms := up_terms u, snap_supersedes := up_supersedes u,
       snap_size := up_size u, snap_chunks := up_chunk_count u\<rparr>"

definition new_snapshot :: "upload_row \<Rightarrow> string \<Rightarrow> snapshot_row" where
  "new_snapshot u retained_at =
     \<lparr>snap_holder = up_holder u, snap_digest = up_digest u, snap_algorithm = digest_suite,
      snap_size = up_size u, snap_chunks = up_chunk_count u, snap_terms = up_terms u,
      snap_supersedes = up_supersedes u, snap_retained_at = retained_at,
      snap_retained_until = None, snap_erased_at = None\<rparr>"

definition retain :: "upload_row \<Rightarrow> string \<Rightarrow> store \<Rightarrow> store" where
  "retain u retained_at s =
     (let key = (up_holder u, up_digest u) in
      if \<exists>r \<in> set (t_snapshots s). snap_key r = key
      then s\<lparr>t_snapshots :=
        update_where (\<lambda>r. snap_key r = key \<and> \<not> live r) (revive u retained_at) (t_snapshots s)\<rparr>
      else s\<lparr>t_snapshots := t_snapshots s @ [new_snapshot u retained_at]\<rparr>)"

definition mark_unavailable :: "string \<Rightarrow> string \<Rightarrow> string \<Rightarrow> store \<Rightarrow> int \<times> store" where
  "mark_unavailable handle digest_text at s =
     (let p = (\<lambda>r. snap_holder r = handle \<and> snap_digest r = digest_text \<and> live r) in
      (count_where p (t_snapshots s),
       s\<lparr>t_snapshots := update_where p (\<lambda>r. r\<lparr>snap_retained_until := Some at\<rparr>) (t_snapshots s)\<rparr>))"

definition scope_is_unavailable :: "string \<Rightarrow> string \<Rightarrow> store \<Rightarrow> bool" where
  "scope_is_unavailable handle scope s \<longleftrightarrow>
     0 < count_where (\<lambda>r. snap_holder r = handle \<and> (scope = ''all'' \<or> snap_digest r = scope)
            \<and> unavailable r) (t_snapshots s)"

definition erased_digests :: "string \<Rightarrow> string \<Rightarrow> store \<Rightarrow> string list" where
  "erased_digests handle scope s =
     map snap_digest (filter (\<lambda>r. snap_holder r = handle \<and> (scope = ''all'' \<or> snap_digest r = scope)
       \<and> snap_erased_at r \<noteq> None) (t_snapshots s))"

definition sweep_erased_references :: "crates \<Rightarrow> string \<Rightarrow> store \<Rightarrow> int \<times> store" where
  "sweep_erased_references X older_than s =
     (let p = (\<lambda>r. case snap_erased_at r of None \<Rightarrow> False | Some at \<Rightarrow> jd_less X at older_than) in
      (count_where p (t_snapshots s), s\<lparr>t_snapshots := delete_where p (t_snapshots s)\<rparr>))"

section \<open>Uploads\<close>

definition begin_upload :: "upload_row \<Rightarrow> store \<Rightarrow> fail + store" where
  "begin_upload row s =
     (if \<exists>r \<in> set (t_uploads s). up_id r = up_id row then Inl (internal ''sqlite'')
      else Inr (s\<lparr>t_uploads := t_uploads s @ [row]\<rparr>))"

definition upload :: "string \<Rightarrow> store \<Rightarrow> upload_row option" where
  "upload upload_id s = List.find (\<lambda>r. up_id r = upload_id) (t_uploads s)"

definition drop_upload :: "string \<Rightarrow> store \<Rightarrow> store" where
  "drop_upload upload_id s = s\<lparr>t_uploads := delete_where (\<lambda>r. up_id r = upload_id) (t_uploads s)\<rparr>"

definition grant_open :: "crates \<Rightarrow> string \<Rightarrow> upload_row \<Rightarrow> bool" where
  "grant_open X now r \<longleftrightarrow> jd_less X now (up_expires_at r)"

definition open_grants :: "crates \<Rightarrow> string \<Rightarrow> string \<Rightarrow> store \<Rightarrow> fail + int \<times> int" where
  "open_grants X handle now s =
     (let rows = filter (\<lambda>r. up_holder r = handle \<and> grant_open X now r) (t_uploads s) in
      and_then (sql_sum (map up_size rows)) (\<lambda>bytes. Inr (int (length rows), bytes)))"

definition open_grant_for :: "crates \<Rightarrow> string \<Rightarrow> string \<Rightarrow> string \<Rightarrow> store \<Rightarrow> upload_row option" where
  "open_grant_for X handle digest_text now s =
     (case sort_key (\<lambda>r. jd_desc X (up_expires_at r))
        (filter (\<lambda>r. up_holder r = handle \<and> up_digest r = digest_text \<and> grant_open X now r) (t_uploads s))
      of [] \<Rightarrow> None | r # _ \<Rightarrow> Some r)"

definition expired_uploads :: "crates \<Rightarrow> string \<Rightarrow> store \<Rightarrow> string list" where
  "expired_uploads X now s = map up_id (filter (\<lambda>r. jd_le X (up_expires_at r) now) (t_uploads s))"

section \<open>Outcomes\<close>

definition record_outcome ::
  "string \<Rightarrow> string \<Rightarrow> string \<Rightarrow> string \<Rightarrow> string option \<Rightarrow> string \<Rightarrow> store \<Rightarrow> store" where
  "record_outcome operation_id handle subject status_text receipt_ids recorded_at s =
     s\<lparr>t_outcomes := insert_or_replace oc_key
       \<lparr>oc_holder = handle, oc_operation = operation_id, oc_subject = subject,
        oc_status = status_text, oc_receipt_ids = receipt_ids, oc_recorded_at = recorded_at\<rparr>
       (t_outcomes s)\<rparr>"

definition outcome :: "string \<Rightarrow> string \<Rightarrow> store \<Rightarrow> (string \<times> string \<times> string option \<times> string) option" where
  "outcome handle operation_id s =
     map_option (\<lambda>r. (oc_subject r, oc_status r, oc_receipt_ids r, oc_recorded_at r))
       (List.find (\<lambda>r. oc_holder r = handle \<and> oc_operation r = operation_id) (t_outcomes s))"

section \<open>Terms documents\<close>

definition remember_terms :: "string \<Rightarrow> bytes \<Rightarrow> bytes \<Rightarrow> string \<Rightarrow> store \<Rightarrow> store" where
  "remember_terms terms_id raw signature now s =
     s\<lparr>t_terms := insert_or_ignore td_id
       \<lparr>td_id = terms_id, td_raw = raw, td_signature = signature, td_first_seen = now\<rparr> (t_terms s)\<rparr>"

definition terms_document :: "string \<Rightarrow> store \<Rightarrow> (bytes \<times> bytes) option" where
  "terms_document terms_id s =
     map_option (\<lambda>r. (td_raw r, td_signature r)) (List.find (\<lambda>r. td_id r = terms_id) (t_terms s))"

section \<open>Receipts\<close>

record minted =
  mint_id :: string
  mint_terms :: string
  mint_raw :: bytes
  mint_covers :: "string list"

definition insert_receipt :: "string \<Rightarrow> string \<Rightarrow> string \<Rightarrow> minted \<Rightarrow> store \<Rightarrow> store" where
  "insert_receipt handle scope at m s =
     s\<lparr>t_receipts := insert_or_replace rc_id
         \<lparr>rc_id = mint_id m, rc_holder = handle, rc_scope = scope, rc_terms = mint_terms m,
          rc_raw = mint_raw m, rc_issued_at = at\<rparr> (t_receipts s),
       t_coverage := fold (\<lambda>d. insert_or_ignore cov_key \<lparr>cov_receipt = mint_id m, cov_digest = d\<rparr>)
         (mint_covers m) (t_coverage s)\<rparr>"

definition mark_erased :: "string \<Rightarrow> string \<Rightarrow> string \<Rightarrow> store \<Rightarrow> store" where
  "mark_erased handle at d s =
     s\<lparr>t_snapshots := update_where
       (\<lambda>r. snap_holder r = handle \<and> snap_digest r = d \<and> snap_erased_at r = None)
       (\<lambda>r. r\<lparr>snap_erased_at := Some at\<rparr>) (t_snapshots s)\<rparr>"

definition ids_text :: "crates \<Rightarrow> string list \<Rightarrow> string" where
  "ids_text X ids = json_bytes X (JArr (map JStr ids))"

definition commit_erasure ::
  "crates \<Rightarrow> string \<Rightarrow> string \<Rightarrow> string list \<Rightarrow> minted list \<Rightarrow> string \<Rightarrow> string \<Rightarrow> store \<Rightarrow> store" where
  "commit_erasure X handle scope digests mints operation_id at s =
     record_outcome operation_id handle scope ''erasure_acknowledged''
       (Some (ids_text X (map mint_id mints))) at
       (fold (insert_receipt handle scope at) mints
         (fold (mark_erased handle at) digests s))"

definition receipt :: "string \<Rightarrow> string \<Rightarrow> store \<Rightarrow> bytes option" where
  "receipt handle receipt_id s =
     map_option rc_raw (List.find (\<lambda>r. rc_holder r = handle \<and> rc_id r = receipt_id) (t_receipts s))"

definition receipts :: "crates \<Rightarrow> string \<Rightarrow> store \<Rightarrow> (string \<times> bytes) list" where
  "receipts X handle s =
     map (\<lambda>r. (rc_id r, rc_raw r))
       (sort_key (\<lambda>r. jd_asc X (rc_issued_at r)) (filter (\<lambda>r. rc_holder r = handle) (t_receipts s)))"

definition receipt_terms_ids :: "string \<Rightarrow> store \<Rightarrow> string list" where
  "receipt_terms_ids handle s =
     remdups (map rc_terms (filter (\<lambda>r. rc_holder r = handle) (t_receipts s)))"

text \<open>
  The receipts of a holder joined with their coverage, the ones relevant to an erased scope, and
  of those the whole set with the newest timestamp.
\<close>

definition receipt_coverage :: "store \<Rightarrow> receipt_row \<Rightarrow> string option list" where
  "receipt_coverage s r =
     (case map cov_digest (filter (\<lambda>c. cov_receipt c = rc_id r) (t_coverage s)) of
        [] \<Rightarrow> [None] | ds \<Rightarrow> map Some ds)"

definition relevant :: "string \<Rightarrow> string list \<Rightarrow> receipt_row \<Rightarrow> string option \<Rightarrow> bool" where
  "relevant scope digests r covered \<longleftrightarrow>
     rc_scope r = scope \<or> (case covered of None \<Rightarrow> False | Some d \<Rightarrow> d \<in> set digests)"

fun receipt_candidates ::
  "crates \<Rightarrow> string \<Rightarrow> string list \<Rightarrow> (receipt_row \<times> string option) list \<Rightarrow>
     (receipt_row \<times> instant) list \<Rightarrow> fail + (receipt_row \<times> instant) list" where
  "receipt_candidates X scope digests [] acc = Inr acc"
| "receipt_candidates X scope digests ((r, covered) # rows) acc =
     (if relevant scope digests r covered then
        and_then (ok_or (internal ''stored receipt timestamp'') (rfc_parse X (rc_issued_at r))) (\<lambda>at.
          receipt_candidates X scope digests rows
            (if \<exists>(r', _) \<in> set acc. rc_id r' = rc_id r then acc else acc @ [(r, at)]))
      else receipt_candidates X scope digests rows acc)"

definition newest_receipts :: "(receipt_row \<times> instant) list \<Rightarrow> receipt_row list" where
  "newest_receipts candidates =
     (case map snd candidates of
        [] \<Rightarrow> []
      | t # ts \<Rightarrow>
          sort_key (\<lambda>r. (rc_terms r, rc_id r))
            (map fst (filter (\<lambda>(r, at). at = fold max ts t) candidates)))"

definition latest_receipts_for_erased_scope ::
  "crates \<Rightarrow> string \<Rightarrow> string \<Rightarrow> string list \<Rightarrow> store \<Rightarrow> fail + (string \<times> bytes) list" where
  "latest_receipts_for_erased_scope X handle scope digests s =
     (let rows = concat (map (\<lambda>r. map (Pair r) (receipt_coverage s r))
                   (filter (\<lambda>r. rc_holder r = handle) (t_receipts s))) in
      and_then (receipt_candidates X scope digests rows []) (\<lambda>candidates.
        Inr (map (\<lambda>r. (rc_id r, rc_raw r)) (newest_receipts candidates))))"

definition sweep_outcomes_and_receipts ::
  "crates \<Rightarrow> string \<Rightarrow> string \<Rightarrow> store \<Rightarrow> (int \<times> int) \<times> store" where
  "sweep_outcomes_and_receipts X uploads_before receipts_before s =
     (let old_outcome = (\<lambda>r. (oc_status r \<noteq> ''erasure_acknowledged'' \<and> jd_less X (oc_recorded_at r) uploads_before)
                           \<or> (oc_status r = ''erasure_acknowledged'' \<and> jd_less X (oc_recorded_at r) receipts_before));
          old_receipt = (\<lambda>r. jd_less X (rc_issued_at r) receipts_before);
          old_ids = map rc_id (filter old_receipt (t_receipts s))
      in ((count_where old_outcome (t_outcomes s), count_where old_receipt (t_receipts s)),
          s\<lparr>t_outcomes := delete_where old_outcome (t_outcomes s),
            t_coverage := delete_where (\<lambda>c. cov_receipt c \<in> set old_ids) (t_coverage s),
            t_receipts := delete_where old_receipt (t_receipts s)\<rparr>))"

section \<open>Entitlement records and the state derived from them\<close>

record verified_entitlement =
  ve_id :: string
  ve_offer :: string
  ve_not_before :: instant
  ve_expires_at :: instant
  ve_raw :: bytes

definition forget_lapse_state :: "string \<Rightarrow> store \<Rightarrow> int \<times> store" where
  "forget_lapse_state handle s =
     (count_where (\<lambda>r. lp_holder r = handle) (t_lapse s),
      s\<lparr>t_lapse := delete_where (\<lambda>r. lp_holder r = handle) (t_lapse s)\<rparr>)"

definition insert_entitlement :: "string \<Rightarrow> verified_entitlement \<Rightarrow> string \<Rightarrow> string \<Rightarrow> string \<Rightarrow> store \<Rightarrow> store" where
  "insert_entitlement handle v not_before expires_at now s =
     s\<lparr>t_entitlements := insert_or_replace ent_id
       \<lparr>ent_id = ve_id v, ent_holder = handle, ent_offer = ve_offer v, ent_not_before = not_before,
        ent_expires_at = expires_at, ent_raw = ve_raw v, ent_registered_at = now\<rparr>
       (t_entitlements s)\<rparr>"

definition register_entitlement :: "crates \<Rightarrow> string \<Rightarrow> verified_entitlement \<Rightarrow> string \<Rightarrow> unit op" where
  "register_entitlement X handle v now =
     bindE (liftE (stamp X (ve_not_before v))) (\<lambda>not_before.
     bindE (liftE (stamp X (ve_expires_at v))) (\<lambda>expires_at.
     bindE (statement (insert_entitlement handle v not_before expires_at now)) (\<lambda>_.
     bindE (execute (forget_lapse_state handle)) (\<lambda>_.
       returnE ()))))"

record entitlement_horizon =
  hz_access :: "string option"
  hz_lifecycle :: string

text \<open>The loop over a holder's records; each accumulator keeps the first of the latest instants.\<close>

definition later :: "instant \<times> string \<Rightarrow> (instant \<times> string) option \<Rightarrow> (instant \<times> string) option" where
  "later p held = (case held of None \<Rightarrow> Some p | Some h \<Rightarrow> if fst p > fst h then Some p else held)"

fun horizon_loop ::
  "crates \<Rightarrow> string list \<Rightarrow> entitlement_row list \<Rightarrow> (instant \<times> string) option \<Rightarrow> (instant \<times> string) option \<Rightarrow>
     (instant \<times> string) option \<times> (instant \<times> string) option" where
  "horizon_loop X revoked [] access any = (access, any)"
| "horizon_loop X revoked (r # rs) access any =
     (case rfc_parse X (ent_expires_at r) of
        None \<Rightarrow> horizon_loop X revoked rs access any
      | Some at \<Rightarrow>
          horizon_loop X revoked rs
            (if ent_id r \<in> set revoked then access else later (at, ent_expires_at r) access)
            (later (at, ent_expires_at r) any))"

definition entitlement_horizon :: "crates \<Rightarrow> string \<Rightarrow> string list \<Rightarrow> store \<Rightarrow> entitlement_horizon option" where
  "entitlement_horizon X handle revoked s =
     (case horizon_loop X revoked (filter (\<lambda>r. ent_holder r = handle) (t_entitlements s)) None None of
        (access, any) \<Rightarrow>
          map_option (\<lambda>(_, lifecycle). \<lparr>hz_access = map_option snd access, hz_lifecycle = lifecycle\<rparr>) any)"

text \<open>\<open>MAX(julianday(expires_at))\<close> over the rows of one holder; \<open>NULL\<close> when none has a value.\<close>

definition max_julianday :: "crates \<Rightarrow> string \<Rightarrow> store \<Rightarrow> int option" where
  "max_julianday X handle s =
     (case List.map_filter (\<lambda>r. julianday X (ent_expires_at r))
        (filter (\<lambda>r. ent_holder r = handle) (t_entitlements s))
      of [] \<Rightarrow> None | j # js \<Rightarrow> Some (fold max js j))"

definition holders_losing_entitlements :: "crates \<Rightarrow> string \<Rightarrow> store \<Rightarrow> string list" where
  "holders_losing_entitlements X older_than s =
     filter (\<lambda>h. case (max_julianday X h s, julianday X older_than) of
         (Some m, Some f) \<Rightarrow> m < f | _ \<Rightarrow> False)
       (remdups (map ent_holder (t_entitlements s)))"

definition holder_losing_entitlements :: "crates \<Rightarrow> string \<Rightarrow> string \<Rightarrow> store \<Rightarrow> bool" where
  "holder_losing_entitlements X handle older_than s \<longleftrightarrow>
     0 < count_where (\<lambda>r. ent_holder r = handle) (t_entitlements s) \<and>
     count_where (\<lambda>r. ent_holder r = handle \<and> jd_le X older_than (ent_expires_at r)) (t_entitlements s) = 0"

definition sweep_superseded_entitlements :: "crates \<Rightarrow> string \<Rightarrow> store \<Rightarrow> int \<times> store" where
  "sweep_superseded_entitlements X older_than s =
     (let keeps_one = (\<lambda>h. case (max_julianday X h s, julianday X older_than) of
            (Some m, Some f) \<Rightarrow> f \<le> m | _ \<Rightarrow> False);
          p = (\<lambda>r. jd_less X (ent_expires_at r) older_than \<and> keeps_one (ent_holder r))
      in (count_where p (t_entitlements s), s\<lparr>t_entitlements := delete_where p (t_entitlements s)\<rparr>))"

definition sweep_entitlements :: "crates \<Rightarrow> string \<Rightarrow> string \<Rightarrow> store \<Rightarrow> int \<times> store" where
  "sweep_entitlements X handle older_than s =
     (let p = (\<lambda>r. ent_holder r = handle \<and> jd_less X (ent_expires_at r) older_than) in
      (count_where p (t_entitlements s), s\<lparr>t_entitlements := delete_where p (t_entitlements s)\<rparr>))"

definition has_entitlement_record :: "string \<Rightarrow> store \<Rightarrow> bool" where
  "has_entitlement_record handle s \<longleftrightarrow> (\<exists>r \<in> set (t_entitlements s). ent_holder r = handle)"

text \<open>\<open>LapseState\<close> is the row without its holder.\<close>

record lapse_state =
  ls_lapsed_at :: string
  ls_grace_expires_at :: string
  ls_post_grace_action :: string

definition record_lapse_state :: "string \<Rightarrow> lapse_state \<Rightarrow> store \<Rightarrow> store" where
  "record_lapse_state handle state s =
     s\<lparr>t_lapse := insert_or_replace lp_holder
       \<lparr>lp_holder = handle, lp_lapsed_at = ls_lapsed_at state,
        lp_grace_expires_at = ls_grace_expires_at state,
        lp_post_grace_action = ls_post_grace_action state\<rparr> (t_lapse s)\<rparr>"

definition row_lapse_state :: "lapse_row \<Rightarrow> lapse_state" where
  "row_lapse_state r =
     \<lparr>ls_lapsed_at = lp_lapsed_at r, ls_grace_expires_at = lp_grace_expires_at r,
      ls_post_grace_action = lp_post_grace_action r\<rparr>"

definition stored_lapse_state :: "string \<Rightarrow> store \<Rightarrow> lapse_state option" where
  "stored_lapse_state handle s =
     map_option row_lapse_state (List.find (\<lambda>r. lp_holder r = handle) (t_lapse s))"

definition lapsed_holders :: "store \<Rightarrow> (string \<times> lapse_state) list" where
  "lapsed_holders s = map (\<lambda>r. (lp_holder r, row_lapse_state r)) (t_lapse s)"

section \<open>The cached revocation epoch\<close>

definition insert_epoch :: "int \<Rightarrow> string \<Rightarrow> bytes \<Rightarrow> store \<Rightarrow> store" where
  "insert_epoch number fetched_at document s =
     s\<lparr>t_epochs := insert_or_replace ep_epoch
       \<lparr>ep_epoch = number, ep_fetched_at = fetched_at, ep_document = document\<rparr> (t_epochs s)\<rparr>"

definition cache_epoch :: "int \<Rightarrow> string \<Rightarrow> bytes \<Rightarrow> unit op" where
  "cache_epoch number fetched_at document =
     bindE (statement (insert_epoch number fetched_at document)) (\<lambda>_.
       statement (\<lambda>s. s\<lparr>t_epochs := delete_where (\<lambda>r. ep_epoch r < number) (t_epochs s)\<rparr>))"

definition latest_epoch :: "store \<Rightarrow> (bytes \<times> string) option" where
  "latest_epoch s =
     (case sort_key (\<lambda>r. - ep_epoch r) (t_epochs s) of
        [] \<Rightarrow> None | r # _ \<Rightarrow> Some (ep_document r, ep_fetched_at r))"

end
