(* ===== verification/Blobs.thy ===== *)
theory Blobs
  imports Store "HOL-Library.AList"
begin

text \<open>
  \<open>blobs.rs\<close>: the sealed bytes on the file system.  A directory that holds chunk files is a
  path (a list of components under the blob root) with its files; \<open><index>.part\<close> is
  represented by its index, and entries of another shape, which the source skips, are not
  represented.  Directories that only hold directories exist implicitly: the source creates them
  before it needs them.

  A directory removal that fails half way leaves the entries it had not reached, and a chunk
  write that fails leaves the bytes it had written.  Functions that only look at the disk are
  pure and count as one access.
\<close>

section \<open>Directories\<close>

definition dir_lookup :: "disk \<Rightarrow> path \<Rightarrow> files option" where
  "dir_lookup d p = map_of d p"

definition dir_put :: "path \<Rightarrow> files \<Rightarrow> disk \<Rightarrow> disk" where
  "dir_put p fs d = AList.update p fs d"

definition dir_remove :: "path \<Rightarrow> disk \<Rightarrow> disk" where
  "dir_remove p d = AList.delete p d"

text \<open>\<open>rename\<close> of a directory onto a path that does not exist.\<close>

definition dir_move :: "path \<Rightarrow> path \<Rightarrow> disk \<Rightarrow> disk" where
  "dir_move src dst d =
     (case dir_lookup d src of None \<Rightarrow> d | Some fs \<Rightarrow> dir_put dst fs (dir_remove src d))"

text \<open>The interface of the directory store, and what the operator relies on about it.\<close>

locale directory_store =
  fixes lookup :: "'d \<Rightarrow> 'p \<Rightarrow> 'f option"
    and put :: "'p \<Rightarrow> 'f \<Rightarrow> 'd \<Rightarrow> 'd"
    and remove :: "'p \<Rightarrow> 'd \<Rightarrow> 'd"
    and move :: "'p \<Rightarrow> 'p \<Rightarrow> 'd \<Rightarrow> 'd"
  assumes lookup_put: "lookup (put p fs d) q = (if q = p then Some fs else lookup d q)"
    and lookup_remove: "lookup (remove p d) q = (if q = p then None else lookup d q)"
    and move_def: "move p q d =
      (case lookup d p of None \<Rightarrow> d | Some fs \<Rightarrow> put q fs (remove p d))"
begin

lemma put_same [simp]: "lookup (put p fs d) p = Some fs"
  by (simp add: lookup_put)

lemma remove_same [simp]: "lookup (remove p d) p = None"
  by (simp add: lookup_remove)

lemma put_frame: "q \<noteq> p \<Longrightarrow> lookup (put p fs d) q = lookup d q"
  by (simp add: lookup_put)

lemma remove_frame: "q \<noteq> p \<Longrightarrow> lookup (remove p d) q = lookup d q"
  by (simp add: lookup_remove)

lemma move_absent: "lookup d p = None \<Longrightarrow> move p q d = d"
  by (simp add: move_def)

lemma move_target: "lookup d p = Some fs \<Longrightarrow> lookup (move p q d) q = Some fs"
  by (simp add: move_def)

lemma move_source: "p \<noteq> q \<Longrightarrow> lookup (move p q d) p = None"
  by (simp add: move_def lookup_put lookup_remove split: option.splits)

lemma move_frame: "r \<noteq> p \<Longrightarrow> r \<noteq> q \<Longrightarrow> lookup (move p q d) r = lookup d r"
  by (simp add: move_def lookup_put lookup_remove split: option.splits)

end

interpretation dirs: directory_store dir_lookup dir_put dir_remove dir_move
  by unfold_locales
    (simp_all add: dir_lookup_def dir_put_def dir_remove_def dir_move_def update_conv' delete_conv')

section \<open>Paths\<close>

definition holder_dir :: "string \<Rightarrow> string \<Rightarrow> path" where
  "holder_dir root handle = [root, take 2 handle, handle]"

definition snapshot_dir :: "string \<Rightarrow> string \<Rightarrow> string \<Rightarrow> path" where
  "snapshot_dir root handle digest_hex = holder_dir root handle @ [digest_hex]"

definition incoming_dir :: "string \<Rightarrow> string \<Rightarrow> path" where
  "incoming_dir root upload_id = [root, ''incoming'', upload_id]"

text \<open>Storage is partitioned by holder, and the two areas do not meet.\<close>

lemma snapshot_dir_inject [simp]:
  "snapshot_dir root h d = snapshot_dir root h' d' \<longleftrightarrow> h = h' \<and> d = d'"
  by (auto simp: snapshot_dir_def holder_dir_def)

lemma incoming_dir_inject [simp]: "incoming_dir root i = incoming_dir root j \<longleftrightarrow> i = j"
  by (simp add: incoming_dir_def)

lemma incoming_not_snapshot [simp]:
  "incoming_dir root i \<noteq> snapshot_dir root h d" "snapshot_dir root h d \<noteq> incoming_dir root i"
  by (simp_all add: incoming_dir_def snapshot_dir_def holder_dir_def)

definition digest_hex :: "string \<Rightarrow> fail + string" where
  "digest_hex d =
     and_then (ok_or (Err (BadRequest ''digest must be sha256:<hex>'')) (strip_prefix ''sha256:'' d))
       (\<lambda>hex_value.
          if length hex_value \<noteq> 64 \<or> \<not> list_all is_lower_hex hex_value
          then Inl (Err (BadRequest ''digest must be 64 lowercase hex characters''))
          else Inr hex_value)"

lemma digest_hex_Inr: "digest_hex d = Inr h \<Longrightarrow> d = ''sha256:'' @ h"
  by (auto simp: digest_hex_def strip_prefix_Some split: if_splits)

section \<open>Reading chunk files\<close>

definition read_file :: "disk \<Rightarrow> path \<Rightarrow> int \<Rightarrow> bytes option" where
  "read_file d p i = Option.bind (dir_lookup d p) (\<lambda>fs. map_of fs i)"

definition sync_dir :: "unit op" where
  "sync_dir = io_step ''sync directory''"

text \<open>Opening a directory that is not there fails.\<close>

definition sync_existing_dir :: "path \<Rightarrow> unit op" where
  "sync_existing_dir p =
     bindE sync_dir (\<lambda>_.
     bindE (getE (\<lambda>w. dir_lookup (disk w) p)) (\<lambda>found.
       if found = None then throwE (internal ''sync directory'') else returnE ()))"

definition set_disk :: "(disk \<Rightarrow> disk) \<Rightarrow> unit op" where
  "set_disk f = modifyE (\<lambda>w. w\<lparr>disk := f (disk w)\<rparr>)"

definition create_dir_all :: "path \<Rightarrow> disk \<Rightarrow> disk" where
  "create_dir_all p d = (if dir_lookup d p = None then dir_put p [] d else d)"

definition begin_incoming :: "string \<Rightarrow> string \<Rightarrow> unit op" where
  "begin_incoming root upload_id =
     bindE (io_step ''create incoming dir'') (\<lambda>_.
     bindE (set_disk (create_dir_all (incoming_dir root upload_id))) (\<lambda>_.
     bindE sync_dir (\<lambda>_. bindE sync_dir (\<lambda>_. sync_dir))))"

text \<open>
  \<open>write_chunk\<close>: the existing file decides; otherwise the file is created empty, written,
  and synced.
\<close>

definition write_bytes :: "path \<Rightarrow> int \<Rightarrow> bytes \<Rightarrow> unit op" where
  "write_bytes p i bytes w =
     (case take_fault w of (f, w') \<Rightarrow>
        (case dir_lookup (disk w') p of
           None \<Rightarrow> (Inl (internal ''write chunk''), w')
         | Some fs \<Rightarrow>
             let written = (case f of None \<Rightarrow> bytes | Some n \<Rightarrow> take n bytes) in
             (if f = None then Inr () else Inl (internal ''write chunk''),
              w'\<lparr>disk := dir_put p (AList.update i written fs) (disk w')\<rparr>)))"

definition create_chunk :: "path \<Rightarrow> int \<Rightarrow> unit op" where
  "create_chunk p i =
     bindE (io_step ''create chunk'') (\<lambda>_.
     bindE (getE (\<lambda>w. dir_lookup (disk w) p)) (\<lambda>found.
       case found of
         None \<Rightarrow> throwE (internal ''create chunk'')
       | Some fs \<Rightarrow> set_disk (dir_put p (AList.update i [] fs))))"

definition write_chunk :: "string \<Rightarrow> string \<Rightarrow> int \<Rightarrow> bytes \<Rightarrow> unit op" where
  "write_chunk root upload_id index bytes =
     (let p = incoming_dir root upload_id in
      bindE (io_step ''read existing chunk'') (\<lambda>_.
      bindE (getE (\<lambda>w. read_file (disk w) p index)) (\<lambda>existing.
        case existing of
          Some e \<Rightarrow> if e = bytes then returnE () else throwE (Err ChunkMismatch)
        | None \<Rightarrow>
            bindE (create_chunk p index) (\<lambda>_.
            bindE (write_bytes p index bytes) (\<lambda>_.
            bindE (io_step ''sync chunk'') (\<lambda>_. sync_dir))))))"

text \<open>
  \<open>arrival\<close>: the bytes that arrived and the gaps, in one walk.  A file whose metadata cannot
  be read counts as missing.
\<close>

definition chunk_length :: "path \<Rightarrow> int \<Rightarrow> int option op" where
  "chunk_length p i w =
     (case take_fault w of (f, w') \<Rightarrow>
        (Inr (if f = None then map_option (\<lambda>b. int (length b)) (read_file (disk w') p i) else None), w'))"

definition extend_gap :: "int \<Rightarrow> (int \<times> int) list \<Rightarrow> (int \<times> int) list" where
  "extend_gap index missing =
     (if missing \<noteq> [] \<and> snd (last missing) = index - 1
      then butlast missing @ [(fst (last missing), index)]
      else missing @ [(index, index)])"

definition arrival_step :: "path \<Rightarrow> int \<Rightarrow> int \<times> (int \<times> int) list \<Rightarrow> (int \<times> (int \<times> int) list) op" where
  "arrival_step p index acc =
     bindE (chunk_length p index) (\<lambda>len.
       returnE (case len of
           Some n \<Rightarrow> (wrap64 (fst acc + n), snd acc)
         | None \<Rightarrow> (fst acc, extend_gap index (snd acc))))"

definition arrival :: "string \<Rightarrow> string \<Rightarrow> int \<Rightarrow> (int \<times> (int \<times> int) list) op" where
  "arrival root upload_id chunk_count =
     foldE (arrival_step (incoming_dir root upload_id)) [0..chunk_count - 1] (0, [])"

definition digest_step :: "path \<Rightarrow> int \<Rightarrow> bytes \<Rightarrow> bytes op" where
  "digest_step p index acc =
     bindE (io_step ''read chunk'') (\<lambda>_.
     bindE (getE (\<lambda>w. read_file (disk w) p index)) (\<lambda>found.
       case found of
         None \<Rightarrow> throwE (internal ''read chunk'')
       | Some bytes \<Rightarrow> returnE (acc @ bytes)))"

definition digest_of :: "crates \<Rightarrow> string \<Rightarrow> string \<Rightarrow> int \<Rightarrow> string op" where
  "digest_of X root upload_id chunk_count =
     bindE (foldE (digest_step (incoming_dir root upload_id)) [0..chunk_count - 1] [])
       (\<lambda>bytes. returnE (digest X bytes))"

section \<open>Committed snapshots\<close>

definition inspect :: "(disk \<Rightarrow> fail + 'a) \<Rightarrow> 'a op" where
  "inspect f = bindE (io_step ''read snapshot directory'') (\<lambda>_ w. (f (disk w), w))"

definition chunk_paths_unchecked :: "string \<Rightarrow> string \<Rightarrow> string \<Rightarrow> disk \<Rightarrow> fail + (path \<times> int) list" where
  "chunk_paths_unchecked root handle hex d =
     (let p = snapshot_dir root handle hex in
      case dir_lookup d p of
        None \<Rightarrow> Inl (Err RetentionExpired)
      | Some fs \<Rightarrow> Inr (map (Pair p) (sort (map fst fs))))"

fun total_size :: "disk \<Rightarrow> (path \<times> int) list \<Rightarrow> int \<Rightarrow> fail + int" where
  "total_size d [] acc = Inr acc"
| "total_size d ((p, i) # ps) acc =
     (case read_file d p i of
        None \<Rightarrow> Inl (Err RetentionExpired)
      | Some b \<Rightarrow>
          and_then (ok_or (internal ''snapshot size overflow'') (checked_add64 acc (int (length b))))
            (total_size d ps))"

definition chunk_paths :: "string \<Rightarrow> string \<Rightarrow> string \<Rightarrow> int \<Rightarrow> int \<Rightarrow> disk \<Rightarrow> fail + (path \<times> int) list" where
  "chunk_paths root handle hex chunk_count sealed_byte_size d =
     and_then (chunk_paths_unchecked root handle hex d) (\<lambda>paths.
       let actual = map snd paths in
       if int (length actual) \<noteq> chunk_count \<or> actual \<noteq> map int [0..<length actual]
       then Inl (Err RetentionExpired)
       else and_then (total_size d paths 0) (\<lambda>stored.
         if stored \<noteq> sealed_byte_size then Inl (Err RetentionExpired) else Inr paths))"

text \<open>\<open>snapshot_stream\<close> run to its end: the files one after the other.\<close>

fun snapshot_stream :: "disk \<Rightarrow> (path \<times> int) list \<Rightarrow> fail + bytes" where
  "snapshot_stream d [] = Inr []"
| "snapshot_stream d ((p, i) # ps) =
     (case read_file d p i of
        None \<Rightarrow> Inl (internal ''open snapshot chunk'')
      | Some b \<Rightarrow> and_then (snapshot_stream d ps) (\<lambda>rest. Inr (b @ rest)))"

definition digest_paths :: "crates \<Rightarrow> (path \<times> int) list \<Rightarrow> disk \<Rightarrow> fail + string" where
  "digest_paths X paths d = and_then (snapshot_stream d paths) (\<lambda>bytes. Inr (digest X bytes))"

text \<open>\<open>remove_dir_all\<close>: whether the directory was there.\<close>

definition remove_dir_all :: "string \<Rightarrow> path \<Rightarrow> bool op" where
  "remove_dir_all what p w =
     (case take_fault w of (f, w') \<Rightarrow>
        (case f of
           Some n \<Rightarrow>
             (Inl (internal what),
              (case dir_lookup (disk w') p of
                 None \<Rightarrow> w'
               | Some fs \<Rightarrow> w'\<lparr>disk := dir_put p (drop n fs) (disk w')\<rparr>))
         | None \<Rightarrow> (Inr (dir_lookup (disk w') p \<noteq> None), w'\<lparr>disk := dir_remove p (disk w')\<rparr>)))"

definition discard_upload :: "string \<Rightarrow> string \<Rightarrow> unit op" where
  "discard_upload root upload_id =
     bindE (remove_dir_all ''discard upload'' (incoming_dir root upload_id)) (\<lambda>found.
       if found then sync_dir else returnE ())"

definition erase_blob :: "string \<Rightarrow> string \<Rightarrow> string \<Rightarrow> unit op" where
  "erase_blob root handle hex =
     bindE (remove_dir_all ''erase snapshot'' (snapshot_dir root handle hex)) (\<lambda>found.
       if found then sync_dir else returnE ())"

definition commit_blob :: "crates \<Rightarrow> string \<Rightarrow> string \<Rightarrow> string \<Rightarrow> string \<Rightarrow> int \<Rightarrow> int \<Rightarrow> unit op" where
  "commit_blob X root upload_id handle hex chunk_count sealed_byte_size =
     (let destination = snapshot_dir root handle hex;
          incoming = incoming_dir root upload_id
      in
      bindE (io_step ''create holder dir'') (\<lambda>_.
      bindE (getE (\<lambda>w. dir_lookup (disk w) destination)) (\<lambda>existing.
        if existing \<noteq> None then
          bindE (matchE (inspect (chunk_paths root handle hex chunk_count sealed_byte_size))
              (\<lambda>e. throwE (if e = Err RetentionExpired
                 then internal ''existing snapshot destination is incomplete'' else e))
              returnE) (\<lambda>paths.
          bindE (inspect (digest_paths X paths)) (\<lambda>actual.
            if actual \<noteq> ''sha256:'' @ hex
            then throwE (internal ''existing snapshot bytes do not match their digest'')
            else discard_upload root upload_id))
        else
          bindE (sync_existing_dir incoming) (\<lambda>_.
          bindE (io_step ''commit upload'') (\<lambda>_.
          bindE (set_disk (dir_move incoming destination)) (\<lambda>_.
          bindE sync_dir (\<lambda>_. bindE sync_dir (\<lambda>_. sync_dir))))))))"

section \<open>The walk of the blob root\<close>

text \<open>A listing that fails yields what it had read.\<close>

definition walk :: "(disk \<Rightarrow> 'a list) \<Rightarrow> 'a list op" where
  "walk f w = (case take_fault w of (g, w') \<Rightarrow>
     (Inr (case g of None \<Rightarrow> f (disk w') | Some n \<Rightarrow> take n (f (disk w'))), w'))"

definition retained_paths :: "string \<Rightarrow> disk \<Rightarrow> (string \<times> string) list" where
  "retained_paths root d =
     List.map_filter (\<lambda>(p, _).
       case p of
         [r, shard, handle, hex] \<Rightarrow> if r = root \<and> shard \<noteq> ''incoming'' then Some (handle, hex) else None
       | _ \<Rightarrow> None) d"

definition incoming_ids :: "string \<Rightarrow> disk \<Rightarrow> string list" where
  "incoming_ids root d =
     List.map_filter (\<lambda>(p, _).
       case p of
         [r, area, upload_id] \<Rightarrow> if r = root \<and> area = ''incoming'' then Some upload_id else None
       | _ \<Rightarrow> None) d"

definition retained_on_disk :: "string \<Rightarrow> (string \<times> string) list op" where
  "retained_on_disk root = walk (retained_paths root)"

definition incoming_on_disk :: "string \<Rightarrow> string list op" where
  "incoming_on_disk root = walk (incoming_ids root)"

end
