(* ===== verification/Auth.thy ===== *)
theory Auth
  imports Blobs
begin

text \<open>
  \<open>auth.rs\<close>: from a request's headers to a holder.  The signature and the freshness of the
  timestamp are \<open>verify_request\<close>; the nonce is recorded here, under the holder.
\<close>

definition holder_header :: string where "holder_header = ''x-onym-holder''"
definition timestamp_header :: string where "timestamp_header = ''x-onym-timestamp''"
definition nonce_header :: string where "nonce_header = ''x-onym-nonce''"
definition signature_header :: string where "signature_header = ''x-onym-signature''"

record holder =
  h_reference :: string
  h_handle :: string

definition header :: "headers \<Rightarrow> string \<Rightarrow> fail + string" where
  "header hs name = ok_or (Err SignatureInvalid) (hs name)"

text \<open>The part that needs no store: the four headers, then the proof.\<close>

definition request_proof ::
  "app \<Rightarrow> headers \<Rightarrow> string \<Rightarrow> string \<Rightarrow> bytes \<Rightarrow> instant \<Rightarrow> fail + string \<times> verified_proof" where
  "request_proof A hs verb path body now =
     and_then (header hs holder_header) (\<lambda>reference.
     and_then (header hs timestamp_header) (\<lambda>timestamp.
     and_then (header hs nonce_header) (\<lambda>nonce.
     and_then (header hs signature_header) (\<lambda>signature.
     and_then (verify_request (lib A) reference signature verb path timestamp nonce body now
         (max_skew_secs (cfg A))) (\<lambda>proof.
       Inr (reference, proof))))))"

definition authenticate ::
  "app \<Rightarrow> headers \<Rightarrow> string \<Rightarrow> string \<Rightarrow> bytes \<Rightarrow> instant \<Rightarrow> holder op" where
  "authenticate A hs verb path body now =
     bindE (liftE (request_proof A hs verb path body now)) (\<lambda>(reference, proof).
     bindE (liftE (stamp (lib A) now)) (\<lambda>seen_at.
     bindE (execute (record_nonce (proof_handle proof) (proof_nonce proof) seen_at)) (\<lambda>first_use.
       if first_use then returnE \<lparr>h_reference = reference, h_handle = proof_handle proof\<rparr>
       else throwE (Err SignatureInvalid))))"

section \<open>What a successful authentication means\<close>

lemma request_proof_Inr:
  assumes "request_proof A hs verb path body now = Inr (reference, p)"
  shows "hs holder_header = Some reference \<and> hs nonce_header = Some (proof_nonce p) \<and>
    (\<exists>timestamp signed_at sig64 sig key. hs timestamp_header = Some timestamp \<and>
       hs signature_header = Some sig64 \<and> rfc_parse (lib A) timestamp = Some signed_at \<and>
       fresh now signed_at (max_skew_secs (cfg A)) \<and> holder_key (lib A) reference = Inr key \<and>
       b64_decode (lib A) sig64 = Some sig \<and>
       ed_verify (lib A) key
         (signing_bytes (lib A) verb path reference timestamp (proof_nonce p) body) sig \<and>
       proof_key p = key \<and> proof_handle p = holder_handle (lib A) key)"
  using assms unfolding request_proof_def header_def
  by (auto simp: ok_or_def verify_request_Inr split: option.splits)

lemma request_proof_Inl: "request_proof A hs verb path body now = Inl e \<Longrightarrow> e = Err SignatureInvalid"
  by (auto simp: request_proof_def header_def and_then_def ok_or_def dest: verify_request_Inl
      split: sum.splits option.splits)

text \<open>The row a nonce leaves, and that a nonce already recorded refuses.\<close>

definition nonce_seen :: "string \<Rightarrow> string \<Rightarrow> store \<Rightarrow> bool" where
  "nonce_seen handle nonce s \<longleftrightarrow> (\<exists>r \<in> set (t_nonces s). nc_key r = (handle, nonce))"

lemma record_nonce_first: "fst (record_nonce h n now s) \<longleftrightarrow> \<not> nonce_seen h n s"
  by (simp add: record_nonce_def nonce_seen_def Let_def)

lemma record_nonce_seen: "nonce_seen h n (snd (record_nonce h n now s))"
  by (auto simp: record_nonce_def nonce_seen_def insert_or_ignore_def Let_def nc_key_def)

lemma record_nonce_keeps: "nonce_seen h n s \<Longrightarrow> nonce_seen h n (snd (record_nonce h' n' now s))"
  by (auto simp: record_nonce_def nonce_seen_def insert_or_ignore_def Let_def)

lemma record_nonce_tables:
  "snd (record_nonce h n now s) = s\<lparr>t_nonces := t_nonces (snd (record_nonce h n now s))\<rparr>"
  by (simp add: record_nonce_def Let_def)

lemma authenticate_Inr:
  assumes "authenticate A hs verb path body now w = (Inr who, w')"
  obtains p seen_at where
    "request_proof A hs verb path body now = Inr (h_reference who, p)"
    "h_handle who = proof_handle p" "rfc_format (lib A) now = Some seen_at"
    "\<not> nonce_seen (proof_handle p) (proof_nonce p) (store w)"
    "store w' = snd (record_nonce (proof_handle p) (proof_nonce p) seen_at (store w))"
    "disk w' = disk w" "epoch w' = epoch w"
proof -
  obtain reference p seen_at w1 first_use where
    p: "request_proof A hs verb path body now = Inr (reference, p)"
    and s: "rfc_format (lib A) now = Some seen_at"
    and e: "execute (record_nonce (proof_handle p) (proof_nonce p) seen_at) w = (Inr first_use, w1)"
    and r: "(if first_use then returnE \<lparr>h_reference = reference, h_handle = proof_handle p\<rparr>
         else throwE (Err SignatureInvalid)) w1 = (Inr who, w')"
    using assms unfolding authenticate_def
    by (auto simp: bindE_Inr_iff liftE_def)
  from r have "first_use" "w1 = w'" "who = \<lparr>h_reference = reference, h_handle = proof_handle p\<rparr>"
    by (auto simp: returnE_def throwE_def split: if_splits)
  with execute_same [OF e] p s that show ?thesis
    by (auto simp: record_nonce_first)
qed

lemma authenticate_Inl:
  assumes "authenticate A hs verb path body now w = (Inl e, w')" "faults w = []"
    "rfc_format (lib A) now \<noteq> None"
  shows "e = Err SignatureInvalid"
  using assms unfolding authenticate_def
  by (auto simp: run_simps stamp_def ok_or_def dest: request_proof_Inl
      split: sum.splits option.splits if_splits)

end
