(* ===== verification/Revocation.thy ===== *)
theory Revocation
  imports Auth
begin

text \<open>
  \<open>revocation.rs\<close>: the epoch in force, its installation, the parser of a published epoch,
  and the two places of \<open>main.rs\<close> that feed it, the poll and the restore from the cache.
  A poisoned lock, which needs a panic inside the two-line critical section, is not modelled.
  What the HTTP client made of the request, a \<open>reply\<close>, is the input of \<open>fetch\<close>.
\<close>

definition revoked_ids :: "world \<Rightarrow> string list" where
  "revoked_ids w = (case epoch w of None \<Rightarrow> [] | Some (e, _) \<Rightarrow> e_revoked e)"

definition install_epoch :: "epoch \<Rightarrow> instant \<Rightarrow> world \<Rightarrow> bool \<times> world" where
  "install_epoch e fetched_at w =
     (case epoch w of
        Some (held, _) \<Rightarrow>
          if e_epoch held > e_epoch e then (False, w) else (True, w\<lparr>epoch := Some (e, fetched_at)\<rparr>)
      | None \<Rightarrow> (True, w\<lparr>epoch := Some (e, fetched_at)\<rparr>))"

definition text_or_empty :: "string option \<Rightarrow> string" where
  "text_or_empty t = (case t of None \<Rightarrow> [] | Some s \<Rightarrow> s)"

definition revocation_health :: "app \<Rightarrow> instant \<Rightarrow> world \<Rightarrow> json" where
  "revocation_health A now w =
     (if \<not> requires_entitlement (cfg A) then JNull
      else (case epoch w of
         None \<Rightarrow> JObj [(''status'', JStr ''never_fetched''),
           (''pollIntervalSeconds'', JInt (revocation_poll_secs (cfg A)))]
       | Some (e, fetched_at) \<Rightarrow>
           let age = max (whole_seconds (now - fetched_at)) 0;
               limit = wrap64 (2 * wrap64 (revocation_poll_secs (cfg A)))
           in JObj [(''status'', JStr (if age > limit then ''stale'' else ''current'')),
             (''epoch'', JInt (e_epoch e)),
             (''publishedAt'', JStr (text_or_empty (rfc_format (lib A) (e_published_at e)))),
             (''fetchedAt'', JStr (text_or_empty (rfc_format (lib A) fetched_at))),
             (''ageSeconds'', JInt age),
             (''pollIntervalSeconds'', JInt (revocation_poll_secs (cfg A))),
             (''revokedCount'', JInt (int (length (e_revoked e))))]))"

definition malformed_epoch :: fail where
  "malformed_epoch = internal ''revocation epoch did not verify''"

text \<open>The signature is checked before any field is read, against every pinned issuer.\<close>

definition parse_epoch :: "app \<Rightarrow> bytes \<Rightarrow> fail + epoch" where
  "parse_epoch A raw =
     and_then (ok_or malformed_epoch (json_parse (lib A) raw)) (\<lambda>document.
     and_then (ok_or malformed_epoch (as_object document)) (\<lambda>object.
     and_then (ok_or malformed_epoch (Option.bind (jobj_get object ''signature'') as_str)) (\<lambda>encoded.
     and_then (ok_or malformed_epoch (b64_decode (lib A) encoded)) (\<lambda>sig.
     and_then (guard_or malformed_epoch (length sig = 64)) (\<lambda>_.
     and_then (canonical_bytes document [''signature'']) (\<lambda>signed.
     and_then (guard_or malformed_epoch
       (list_ex (\<lambda>(_, key). ed_verify (lib A) key signed sig)
          (issuer_keys (lib A) (entitlement_issuers (cfg A))))) (\<lambda>_.
     and_then (ok_or malformed_epoch (Option.bind (jobj_get object ''epoch'') as_i64)) (\<lambda>number.
     and_then (ok_or malformed_epoch
       (Option.bind (Option.bind (jobj_get object ''publishedAt'') as_str) (rfc_parse (lib A)))) (\<lambda>published_at.
       Inr \<lparr>e_epoch = number, e_published_at = published_at,
         e_revoked = (case Option.bind (jobj_get object ''revoked'') as_array of
             None \<Rightarrow> [] | Some items \<Rightarrow> remdups (string_items items)),
         e_raw = raw\<rparr>)))))))))"

section \<open>The poll and the cache\<close>

text \<open>One turn of the polling loop, with the response body or nothing.\<close>

text \<open>No answer and why, or a status, its text, and the body or why it could not be read.\<close>

datatype reply = Unsent string | Replied int string "string + bytes"

definition fetch_epoch :: "app \<Rightarrow> reply \<Rightarrow> fail + epoch" where
  "fetch_epoch A r =
     (case r of
        Unsent e \<Rightarrow> Inl (internal (''fetch revocation epoch: '' @ e))
      | Replied http_status status_text body \<Rightarrow>
          if \<not> (200 \<le> http_status \<and> http_status < 300)
          then Inl (internal (''revocation epoch: HTTP '' @ status_text))
          else (case body of
              Inl e \<Rightarrow> Inl (internal (''read revocation epoch: '' @ e))
            | Inr raw \<Rightarrow> parse_epoch A raw))"

lemma fetched_parsed: "fetch_epoch A r = Inr e \<Longrightarrow> \<exists>raw. parse_epoch A raw = Inr e"
  by (auto simp: fetch_epoch_def split: reply.splits sum.splits if_splits)

definition poll_epoch :: "app \<Rightarrow> reply \<Rightarrow> instant \<Rightarrow> unit op" where
  "poll_epoch A fetched at =
     (case fetch_epoch A fetched of
        Inl _ \<Rightarrow> returnE ()
      | Inr e \<Rightarrow>
          bindE (\<lambda>w. case install_epoch e at w of (b, w') \<Rightarrow> (Inr b, w')) (\<lambda>installed.
            if installed
            then matchE (cache_epoch (e_epoch e) (text_or_empty (rfc_format (lib A) at)) (e_raw e))
                   (\<lambda>_. returnE ()) returnE
            else returnE ()))"

definition restore_epoch :: "app \<Rightarrow> unit op" where
  "restore_epoch A =
     matchE (select latest_epoch) (\<lambda>_. returnE ()) (\<lambda>cached.
       case cached of
         None \<Rightarrow> returnE ()
       | Some (document, fetched_at) \<Rightarrow>
           (case (parse_epoch A document, rfc_parse (lib A) fetched_at) of
              (Inr e, Some at) \<Rightarrow> modifyE (\<lambda>w. snd (install_epoch e at w))
            | _ \<Rightarrow> returnE ()))"

section \<open>Epochs only grow\<close>

definition epoch_number :: "world \<Rightarrow> int option" where
  "epoch_number w = map_option (\<lambda>(e, _). e_epoch e) (epoch w)"

lemma install_epoch_monotone:
  "epoch_number w = Some n \<Longrightarrow> \<exists>m. epoch_number (snd (install_epoch e at w)) = Some m \<and> n \<le> m"
  by (auto simp: epoch_number_def install_epoch_def)

lemma install_epoch_data [simp]:
  "store (snd (install_epoch e at w)) = store w" "disk (snd (install_epoch e at w)) = disk w"
  by (simp_all add: install_epoch_def split: option.splits prod.splits)

text \<open>An epoch that parsed was signed by a pinned issuer over its canonical bytes.\<close>

lemma parse_epoch_signed:
  assumes "parse_epoch A raw = Inr e"
  shows "e_raw e = raw \<and> distinct (e_revoked e) \<and>
    (\<exists>document signed sig64 sig reference key.
       json_parse (lib A) raw = Some document \<and> jget document ''signature'' = Some (JStr sig64) \<and>
       b64_decode (lib A) sig64 = Some sig \<and> canonical_bytes document [''signature''] = Inr signed \<and>
       reference \<in> set (entitlement_issuers (cfg A)) \<and> issuer_key (lib A) reference = Inr key \<and>
       ed_verify (lib A) key signed sig)"
proof -
  from assms obtain document object encoded sig signed where
    steps: "json_parse (lib A) raw = Some document" "as_object document = Some object"
      "Option.bind (jobj_get object ''signature'') as_str = Some encoded"
      "b64_decode (lib A) encoded = Some sig" "canonical_bytes document [''signature''] = Inr signed"
      "list_ex (\<lambda>(_, key). ed_verify (lib A) key signed sig)
         (issuer_keys (lib A) (entitlement_issuers (cfg A)))"
    and e: "e_raw e = raw" "distinct (e_revoked e)"
    by (auto simp: parse_epoch_def ok_or_def guard_or_def split: option.splits if_splits)
  then obtain reference key where k: "(reference, key) \<in> set (issuer_keys (lib A) (entitlement_issuers (cfg A)))"
      "ed_verify (lib A) key signed sig"
    by (auto simp: list_ex_iff)
  then have "reference \<in> set (entitlement_issuers (cfg A))" "issuer_key (lib A) reference = Inr key"
    by (auto simp: issuer_keys_def map_filter_def split: sum.splits)
  moreover have "jget document ''signature'' = Some (JStr encoded)"
    using steps(2,3) by (cases document) (auto simp: bind_eq_Some_conv elim!: as_str.elims)
  ultimately show ?thesis using steps e k by blast
qed

end
