(* ===== verification/Entitlements.thy ===== *)
theory Entitlements
  imports Revocation
begin

text \<open>
  \<open>entitlements.rs\<close>: the local check of a broker's credential, and the header that presents one.
  The route that registers one is in \<open>Routes\<close>, after the gate it passes.
\<close>

definition entitlement_header :: string where
  "entitlement_header = ''x-onym-entitlement''"

definition refused :: "app \<Rightarrow> fail" where
  "refused A = Err (InvalidEntitlement (entitlement_issuers (cfg A)))"

definition object_string :: "fail \<Rightarrow> (string \<times> json) list \<Rightarrow> string \<Rightarrow> fail + string" where
  "object_string e object key = ok_or e (Option.bind (jobj_get object key) as_str)"

text \<open>
  The checks in the order of the source: shape, issuer, signature, audience, subject, window,
  revocation, quota.
\<close>

definition quota_ok :: "(string \<times> json) list \<Rightarrow> bool" where
  "quota_ok object \<longleftrightarrow> jobj_get object ''quota'' = None \<or> jobj_get object ''quota'' = Some JNull"

definition verify_entitlement ::
  "app \<Rightarrow> bytes \<Rightarrow> string \<Rightarrow> string list \<Rightarrow> instant \<Rightarrow> fail + verified_entitlement" where
  "verify_entitlement A raw holder_reference revoked now =
     (let e = refused A; X = lib A; c = cfg A in
      and_then (ok_or e (json_parse X raw)) (\<lambda>document.
      and_then (ok_or e (as_object document)) (\<lambda>object.
      and_then (guard_or e (Option.bind (jobj_get object ''version'') as_i64 = Some 1)) (\<lambda>_.
      and_then (object_string e object ''type'') (\<lambda>kind.
      and_then (guard_or e (kind = ''SeatEntitlement'')) (\<lambda>_.
      and_then (object_string e object ''issuer'') (\<lambda>issuer.
      and_then (ok_or e (map_of (issuer_keys X (entitlement_issuers c)) issuer)) (\<lambda>key.
      and_then (object_string e object ''signature'') (\<lambda>encoded.
      and_then (ok_or e (b64_decode X encoded)) (\<lambda>sig.
      and_then (guard_or e (length sig = 64)) (\<lambda>_.
      and_then (with_error e (canonical_bytes document [''signature''])) (\<lambda>signed.
      and_then (guard_or e (ed_verify X key signed sig)) (\<lambda>_.
      and_then (object_string e object ''audience'') (\<lambda>audience.
      and_then (guard_or e (audience = component_id c)) (\<lambda>_.
      and_then (object_string e object ''subject'') (\<lambda>subject.
      and_then (guard_or e (subject = holder_reference)) (\<lambda>_.
      and_then (object_string e object ''notBefore'') (\<lambda>not_before_text.
      and_then (ok_or e (rfc_parse X not_before_text)) (\<lambda>not_before.
      and_then (object_string e object ''expiresAt'') (\<lambda>expires_text.
      and_then (ok_or e (rfc_parse X expires_text)) (\<lambda>expires_at.
      and_then (guard_or e (\<not> (now < not_before \<or> now > expires_at))) (\<lambda>_.
      and_then (object_string e object ''entitlementId'') (\<lambda>ident.
      and_then (guard_or e (ident \<notin> set revoked)) (\<lambda>_.
      and_then (guard_or e (quota_ok object)) (\<lambda>_.
      and_then (object_string e object ''offerId'') (\<lambda>offer.
        Inr \<lparr>ve_id = ident, ve_offer = offer, ve_not_before = not_before,
          ve_expires_at = expires_at, ve_raw = raw\<rparr>))))))))))))))))))))))))))"

definition presented ::
  "app \<Rightarrow> headers \<Rightarrow> string \<Rightarrow> string list \<Rightarrow> instant \<Rightarrow> fail + verified_entitlement option" where
  "presented A hs holder_reference revoked now =
     (if \<not> requires_entitlement (cfg A) then Inr None
      else (case hs entitlement_header of
         None \<Rightarrow> Inr None
       | Some value \<Rightarrow>
           and_then (ok_or (refused A) (b64_decode (lib A) (trim value))) (\<lambda>raw.
           and_then (verify_entitlement A raw holder_reference revoked now) (\<lambda>v. Inr (Some v)))))"

section \<open>What a verified credential is\<close>

definition credential_signed :: "app \<Rightarrow> json \<Rightarrow> bool" where
  "credential_signed A document \<longleftrightarrow>
     (\<exists>issuer key sig64 sig signed.
        jget document ''issuer'' = Some (JStr issuer) \<and> issuer \<in> set (entitlement_issuers (cfg A)) \<and>
        issuer_key (lib A) issuer = Inr key \<and> jget document ''signature'' = Some (JStr sig64) \<and>
        b64_decode (lib A) sig64 = Some sig \<and> length sig = 64 \<and>
        canonical_bytes document [''signature''] = Inr signed \<and> ed_verify (lib A) key signed sig)"

lemma object_string_Inr [simp]:
  "object_string e object key = Inr s \<longleftrightarrow> jobj_get object key = Some (JStr s)"
  by (auto simp: object_string_def bind_eq_Some_conv)

lemma issuer_keys_pinned:
  "map_of (issuer_keys X refs) r = Some k \<Longrightarrow> r \<in> set refs \<and> issuer_key X r = Inr k"
  by (drule map_of_SomeD) (auto simp: issuer_keys_def map_filter_def split: sum.splits)

lemma verify_entitlement_Inr:
  assumes "verify_entitlement A raw holder_reference revoked now = Inr v"
  obtains document where
    "json_parse (lib A) raw = Some document" "credential_signed A document"
    "jget document ''audience'' = Some (JStr (component_id (cfg A)))"
    "jget document ''subject'' = Some (JStr holder_reference)"
    "jget document ''entitlementId'' = Some (JStr (ve_id v))"
    "ve_not_before v \<le> now" "now \<le> ve_expires_at v" "ve_id v \<notin> set revoked" "ve_raw v = raw"
proof -
  obtain object issuer key encoded sig signed where
    d: "json_parse (lib A) raw = Some (JObj object)"
    and i: "jobj_get object ''issuer'' = Some (JStr issuer)"
    and k: "map_of (issuer_keys (lib A) (entitlement_issuers (cfg A))) issuer = Some key"
    and s: "jobj_get object ''signature'' = Some (JStr encoded)" "b64_decode (lib A) encoded = Some sig"
      "length sig = 64" "canonical_bytes (JObj object) [''signature''] = Inr signed"
      "ed_verify (lib A) key signed sig"
    and f: "jobj_get object ''audience'' = Some (JStr (component_id (cfg A)))"
      "jobj_get object ''subject'' = Some (JStr holder_reference)"
      "jobj_get object ''entitlementId'' = Some (JStr (ve_id v))"
      "ve_not_before v \<le> now" "now \<le> ve_expires_at v" "ve_id v \<notin> set revoked" "ve_raw v = raw"
    using assms unfolding verify_entitlement_def Let_def
    by (clarsimp split: sum.splits)
  have "credential_signed A (JObj object)"
    unfolding credential_signed_def using i s issuer_keys_pinned [OF k] by auto
  with d f show ?thesis by (intro that) auto
qed

lemma verify_entitlement_Inl:
  "verify_entitlement A raw r revoked now = Inl e \<Longrightarrow> e = refused A"
  unfolding verify_entitlement_def Let_def object_string_def
  by (auto simp: and_then_Inl_iff)

lemma presented_free [simp]: "\<not> requires_entitlement (cfg A) \<Longrightarrow> presented A hs r revoked now = Inr None"
  by (simp add: presented_def)

lemma presented_Inl: "presented A hs r revoked now = Inl e \<Longrightarrow> e = refused A"
  by (auto simp: presented_def and_then_Inl_iff dest: verify_entitlement_Inl
      split: option.splits if_splits)

end
