(* ===== verification/Lapse.thy ===== *)
theory Lapse
  imports Entitlements
begin

text \<open>
  \<open>lapse.rs\<close>: the table of operations, a holder's payment state, the windows the pinned terms
  of each snapshot open, and the gate.  Functions that only read are pure functions of the store.
  The text of an error that quotes a library's own error is cut short.
\<close>

section \<open>The table of operations\<close>

datatype operation =
  Register | Preflight | Upload_chunk | Commit | List_snapshots | Download | Erase | Export | Reconcile

fun grace_term :: "operation \<Rightarrow> string option" where
  "grace_term Download = Some ''download''"
| "grace_term Erase = Some ''erase''"
| "grace_term Export = Some ''export''"
| "grace_term _ = None"

fun always_available :: "operation \<Rightarrow> bool" where
  "always_available Export = True"
| "always_available Register = True"
| "always_available List_snapshots = True"
| "always_available Reconcile = True"
| "always_available Upload_chunk = True"
| "always_available Commit = True"
| "always_available _ = False"

definition refused_holder_wide :: "operation \<Rightarrow> bool" where
  "refused_holder_wide operation \<longleftrightarrow> operation = Preflight"

datatype access = Entitled | Unpaid | Grace "string list" | Lapsed

section \<open>The clause a snapshot pins\<close>

record end_of_payment =
  notice_secs :: int
  grace_secs :: int
  during_grace :: "string list"
  after_grace :: string

definition window_end :: "crates \<Rightarrow> end_of_payment \<Rightarrow> instant \<Rightarrow> instant option" where
  "window_end X clause lapsed_at =
     Option.bind (checked_add64 (notice_secs clause) (grace_secs clause)) (time_add X lapsed_at)"

definition clause_of :: "json \<Rightarrow> end_of_payment option" where
  "clause_of document =
     Option.bind (jget document ''endOfPayment'') (\<lambda>clause.
       let text_field = (\<lambda>key. Option.bind (jget clause key) as_str) in
       Option.bind (text_field ''notice'') (\<lambda>notice.
       Option.bind (text_field ''grace'') (\<lambda>grace.
       Option.bind (duration_seconds notice) (\<lambda>n.
       Option.bind (duration_seconds grace) (\<lambda>g.
         Some \<lparr>notice_secs = n, grace_secs = g,
           during_grace = (case Option.bind (jget clause ''duringGrace'') as_array of
             None \<Rightarrow> [] | Some items \<Rightarrow> string_items items),
           after_grace = (case text_field ''afterGrace'' of None \<Rightarrow> ''erase'' | Some a \<Rightarrow> a)\<rparr>)))))"

definition end_of_payment :: "crates \<Rightarrow> string \<Rightarrow> store \<Rightarrow> fail + end_of_payment option" where
  "end_of_payment X terms_id s =
     (case terms_document terms_id s of
        None \<Rightarrow> Inr None
      | Some (raw, _) \<Rightarrow>
          and_then (ok_or (internal ''stored terms are not JSON'') (json_parse X raw)) (\<lambda>document.
            Inr (clause_of document)))"

text \<open>
  The loop every reader of the windows runs: the snapshots of the holder that have a readable
  clause whose window end is representable, each with its clause and that end.
\<close>

fun windows ::
  "crates \<Rightarrow> instant \<Rightarrow> store \<Rightarrow> snapshot_row list \<Rightarrow> fail + (snapshot_row \<times> end_of_payment \<times> instant) list"
  where
  "windows X lapsed_at s [] = Inr []"
| "windows X lapsed_at s (row # rows) =
     and_then (end_of_payment X (snap_terms row) s) (\<lambda>found.
       case Option.bind found (\<lambda>clause. map_option (Pair clause) (window_end X clause lapsed_at)) of
         None \<Rightarrow> windows X lapsed_at s rows
       | Some (clause, ends) \<Rightarrow>
           and_then (windows X lapsed_at s rows) (\<lambda>rest. Inr ((row, clause, ends) # rest)))"

definition holder_windows ::
  "crates \<Rightarrow> string \<Rightarrow> instant \<Rightarrow> store \<Rightarrow> fail + (snapshot_row \<times> end_of_payment \<times> instant) list" where
  "holder_windows X handle lapsed_at s = windows X lapsed_at s (snapshots X handle s)"

section \<open>The lapse and what follows from it\<close>

definition lifecycle_horizon :: "crates \<Rightarrow> string \<Rightarrow> string list \<Rightarrow> store \<Rightarrow> fail + instant option" where
  "lifecycle_horizon X handle revoked s =
     (let text_found = (case entitlement_horizon X handle revoked s of
            Some horizon \<Rightarrow> Some (hz_lifecycle horizon)
          | None \<Rightarrow> map_option ls_lapsed_at (stored_lapse_state handle s))
      in case text_found of
           None \<Rightarrow> Inr None
         | Some t \<Rightarrow> and_then (ok_or (internal ''stored lapse horizon'') (rfc_parse X t)) (\<lambda>at. Inr (Some at)))"

definition grace_from :: "crates \<Rightarrow> string \<Rightarrow> instant \<Rightarrow> instant \<Rightarrow> store \<Rightarrow> fail + access" where
  "grace_from X handle lapsed_at now s =
     and_then (holder_windows X handle lapsed_at s) (\<lambda>ws.
       let open_windows = filter (\<lambda>(_, _, ends). \<not> now \<ge> ends) ws in
       Inr (if open_windows = [] then Lapsed
            else Grace (concat (map (\<lambda>(_, clause, _). during_grace clause) open_windows))))"

definition post_grace_due ::
  "crates \<Rightarrow> string \<Rightarrow> string list \<Rightarrow> instant \<Rightarrow> store \<Rightarrow> fail + (string \<times> string) list" where
  "post_grace_due X handle revoked now s =
     and_then (lifecycle_horizon X handle revoked s) (\<lambda>horizon.
       case horizon of
         None \<Rightarrow> Inr []
       | Some lapsed_at \<Rightarrow>
           if now < lapsed_at then Inr []
           else and_then (holder_windows X handle lapsed_at s) (\<lambda>ws.
             Inr (map (\<lambda>(row, clause, _). (snap_digest row, after_grace clause))
               (filter (\<lambda>(_, _, ends). now \<ge> ends) ws))))"

definition record_floor :: "crates \<Rightarrow> int \<Rightarrow> instant \<Rightarrow> fail + instant" where
  "record_floor X poll_secs now =
     ok_or (internal ''entitlement record floor is out of range'') (time_sub X now poll_secs)"

text \<open>The first of the latest ends.\<close>

fun latest_window :: "(snapshot_row \<times> end_of_payment \<times> instant) list \<Rightarrow> (instant \<times> string) option \<Rightarrow>
    (instant \<times> string) option" where
  "latest_window [] held = held"
| "latest_window ((_, clause, ends) # ws) held =
     latest_window ws
       (case held of None \<Rightarrow> Some (ends, after_grace clause)
        | Some h \<Rightarrow> if ends > fst h then Some (ends, after_grace clause) else held)"

definition lapse_state_at :: "crates \<Rightarrow> string \<Rightarrow> instant \<Rightarrow> store \<Rightarrow> fail + lapse_state option" where
  "lapse_state_at X handle lapsed_at s =
     and_then (holder_windows X handle lapsed_at s) (\<lambda>ws.
       case latest_window ws None of
         None \<Rightarrow> Inr None
       | Some (ends, action) \<Rightarrow>
           and_then (stamp X lapsed_at) (\<lambda>lapsed_text.
           and_then (stamp X ends) (\<lambda>ends_text.
             Inr (Some \<lparr>ls_lapsed_at = lapsed_text, ls_grace_expires_at = ends_text,
               ls_post_grace_action = action\<rparr>))))"

definition derive_lapse_state ::
  "crates \<Rightarrow> string \<Rightarrow> string list \<Rightarrow> store \<Rightarrow> fail + lapse_state option" where
  "derive_lapse_state X handle revoked s =
     and_then (lifecycle_horizon X handle revoked s) (\<lambda>horizon.
       case horizon of None \<Rightarrow> Inr None | Some lapsed_at \<Rightarrow> lapse_state_at X handle lapsed_at s)"

fun unrecorded_among ::
  "crates \<Rightarrow> string list \<Rightarrow> store \<Rightarrow> string list \<Rightarrow> fail + string list" where
  "unrecorded_among X revoked s [] = Inr []"
| "unrecorded_among X revoked s (h # hs) =
     and_then (lifecycle_horizon X h revoked s) (\<lambda>horizon.
     and_then (unrecorded_among X revoked s hs) (\<lambda>rest.
       Inr (if horizon = None then h # rest else rest)))"

definition unrecorded_lapsed_holders :: "crates \<Rightarrow> string list \<Rightarrow> store \<Rightarrow> fail + string list" where
  "unrecorded_lapsed_holders X revoked s = unrecorded_among X revoked s (holders_with_snapshots s)"

section \<open>The payment state and the gate\<close>

text \<open>What the store answers when no credential is attached to the request.\<close>

definition stored_access ::
  "crates \<Rightarrow> string \<Rightarrow> string list \<Rightarrow> instant \<Rightarrow> store \<Rightarrow> fail + access" where
  "stored_access X handle revoked now s =
     and_then
       (case Option.bind (entitlement_horizon X handle revoked s) hz_access of
          None \<Rightarrow> Inr False
        | Some t \<Rightarrow> and_then (ok_or (internal ''stored entitlement expiry'') (rfc_parse X t)) (\<lambda>at.
            Inr (now < at)))
       (\<lambda>registered.
         if registered then Inr Entitled
         else and_then (lifecycle_horizon X handle revoked s) (\<lambda>horizon.
           case horizon of
             None \<Rightarrow> Inr (if has_entitlement_record handle s then Lapsed else Unpaid)
           | Some lapsed_at \<Rightarrow> grace_from X handle lapsed_at now s))"

definition evaluate :: "app \<Rightarrow> holder \<Rightarrow> headers \<Rightarrow> instant \<Rightarrow> access op" where
  "evaluate A who hs now =
     (if \<not> requires_entitlement (cfg A) then returnE Entitled
      else
        bindE (getE revoked_ids) (\<lambda>revoked.
        bindE (liftE (presented A hs (h_reference who) revoked now)) (\<lambda>shown.
          case shown of
            Some v \<Rightarrow>
              bindE (liftE (stamp (lib A) now)) (\<lambda>at.
              bindE (register_entitlement (lib A) (h_handle who) v at) (\<lambda>_.
                returnE Entitled))
          | None \<Rightarrow> query (stored_access (lib A) (h_handle who) revoked now))))"

definition payment_required :: "app \<Rightarrow> fail" where
  "payment_required A =
     Err (PaymentRequired (component_id (cfg A)) (offers (cfg A)) (entitlement_issuers (cfg A))
       (manifest_url (cfg A)))"

text \<open>What an access permits.\<close>

definition permits :: "access \<Rightarrow> operation \<Rightarrow> bool" where
  "permits acc operation =
     (case acc of
        Entitled \<Rightarrow> True
      | Unpaid \<Rightarrow> False
      | Lapsed \<Rightarrow> False
      | Grace allowed \<Rightarrow>
          if refused_holder_wide operation then False
          else (case grace_term operation of None \<Rightarrow> False | Some t \<Rightarrow> t \<in> set allowed))"

definition require :: "app \<Rightarrow> holder \<Rightarrow> headers \<Rightarrow> operation \<Rightarrow> instant \<Rightarrow> unit op" where
  "require A who hs operation now =
     (if always_available operation \<or> \<not> requires_entitlement (cfg A) then returnE ()
      else bindE (evaluate A who hs now) (\<lambda>acc.
        if permits acc operation then returnE () else throwE (payment_required A)))"

section \<open>The gate\<close>

lemma require_ungated [simp]:
  "always_available operation \<or> \<not> requires_entitlement (cfg A) \<Longrightarrow>
     require A who hs operation now = returnE ()"
  by (auto simp: require_def)

lemma gated_operations: "\<not> always_available operation \<longleftrightarrow> operation \<in> {Preflight, Download, Erase}"
  by (cases operation) auto

lemma windows_Inr:
  "windows X lapsed_at s rows = Inr ws \<Longrightarrow>
     set ws = {(row, clause, ends). row \<in> set rows \<and> end_of_payment X (snap_terms row) s = Inr (Some clause) \<and>
       window_end X clause lapsed_at = Some ends}"
proof (induction rows arbitrary: ws)
  case (Cons row rows)
  then obtain found where f: "end_of_payment X (snap_terms row) s = Inr found" by auto
  show ?case
  proof (cases "Option.bind found (\<lambda>clause. map_option (Pair clause) (window_end X clause lapsed_at))")
    case None
    then have "\<And>clause ends. found = Some clause \<Longrightarrow> window_end X clause lapsed_at \<noteq> Some ends"
      by (auto simp: bind_eq_None_conv)
    with None Cons f show ?thesis by auto
  next
    case (Some p)
    then obtain clause ends where p: "found = Some clause" "window_end X clause lapsed_at = Some ends"
      "p = (clause, ends)"
      by (auto simp: bind_eq_Some_conv)
    with Some Cons f show ?thesis by auto
  qed
qed auto

text \<open>The clause bundle of the windows of one holder.\<close>

definition in_window ::
  "crates \<Rightarrow> string \<Rightarrow> instant \<Rightarrow> store \<Rightarrow> snapshot_row \<Rightarrow> end_of_payment \<Rightarrow> instant \<Rightarrow> bool" where
  "in_window X handle lapsed_at s row clause ends \<longleftrightarrow>
     row \<in> set (t_snapshots s) \<and> snap_holder row = handle \<and> live row \<and>
     end_of_payment X (snap_terms row) s = Inr (Some clause) \<and>
     window_end X clause lapsed_at = Some ends"

lemma set_snapshots [simp]:
  "r \<in> set (snapshots X handle s) \<longleftrightarrow> r \<in> set (t_snapshots s) \<and> snap_holder r = handle \<and> live r"
  by (simp add: snapshots_def listed_def)

lemma holder_windows_Inr:
  "holder_windows X handle lapsed_at s = Inr ws \<Longrightarrow>
     (row, clause, ends) \<in> set ws \<longleftrightarrow> in_window X handle lapsed_at s row clause ends"
  unfolding holder_windows_def by (drule windows_Inr) (auto simp: in_window_def)

end
