(* ===== verification/Uploads.thy ===== *)
theory Uploads
  imports Lapse
begin

text \<open>
  \<open>uploads.rs\<close>: preflight, chunks, commit, list and download.  A handler takes the headers, the
  body, the clock and, for preflight, the fresh identifier \<open>uuid\<close> drew.  \<open>commit\<close> and
  \<open>download\<close> are composed of the phases between which the source releases the store lock, so
  that a proof can run other operations between them.
\<close>

section \<open>Preflight\<close>

text \<open>Integer division of \<open>i64\<close> rounds towards zero.\<close>

definition quot64 :: "int \<Rightarrow> int \<Rightarrow> int" where
  "quot64 a b = sgn a * sgn b * (\<bar>a\<bar> div \<bar>b\<bar>)"

definition check_preflight :: "preflight_request \<Rightarrow> fail + unit" where
  "check_preflight req =
     (let reference = req_snapshot_reference req in
      and_then (guard_or (Err (BadRequest ''unsupported digest algorithm''))
        (ref_algorithm reference = digest_suite)) (\<lambda>_.
      and_then (digest_hex (ref_digest reference)) (\<lambda>_.
      and_then (guard_or (Err (BadRequest ''sealedByteSize must be positive''))
        (\<not> ref_sealed_byte_size reference \<le> 0)) (\<lambda>_.
        case req_supersedes req of
          None \<Rightarrow> Inr ()
        | Some previous \<Rightarrow>
            and_then (digest_hex previous) (\<lambda>_.
              guard_or (Err (BadRequest ''a snapshot cannot supersede itself''))
                (previous \<noteq> ref_digest reference))))))"

definition grant_json :: "upload_row \<Rightarrow> (int \<times> int) list \<Rightarrow> json" where
  "grant_json u missing =
     JObj [(''uploadId'', JStr (up_id u)), (''chunkBytes'', JInt (up_chunk_bytes u)),
       (''chunkCount'', JInt (up_chunk_count u)), (''expiresAt'', JStr (up_expires_at u)),
       (''acceptedTermsId'', JStr (up_terms u)),
       (''missingChunks'', JArr (map (\<lambda>(first, last). JArr [JInt first, JInt last]) missing))]"

definition reference_json :: "string \<Rightarrow> string \<Rightarrow> int \<Rightarrow> json" where
  "reference_json algorithm digest_text size_bytes =
     JObj [(''referenceVersion'', JInt 1), (''algorithm'', JStr algorithm),
       (''digest'', JStr digest_text), (''sealedByteSize'', JInt size_bytes)]"

definition outcome_json :: "app \<Rightarrow> string \<Rightarrow> json \<Rightarrow> string \<Rightarrow> json" where
  "outcome_json A status_text reference terms_id =
     JObj [(''outcome'', JObj [(''componentId'', JStr (component_id (cfg A))),
       (''status'', JStr status_text), (''snapshotReference'', reference),
       (''termsId'', JStr terms_id)])]"

definition resume_grant :: "app \<Rightarrow> upload_row \<Rightarrow> int \<Rightarrow> response op" where
  "resume_grant A open_grant sealed_byte_size =
     (if up_size open_grant \<noteq> sealed_byte_size
      then throwE (Err (BadRequest ''sealedByteSize disagrees with the open grant for this digest''))
      else bindE (arrival (blob_root (cfg A)) (up_id open_grant) (up_chunk_count open_grant)) (\<lambda>(_, missing).
        returnE (RJson 200 (grant_json open_grant missing))))"

definition quota_error :: "app \<Rightarrow> int \<times> int \<Rightarrow> int \<times> int \<Rightarrow> fail" where
  "quota_error A used grants =
     Err (QuotaExceeded (fst used) (maximum_retained_snapshots (cfg A)) (snd used)
       (wrap64 (maximum_sealed_snapshot_bytes (cfg A) * maximum_retained_snapshots (cfg A)))
       (fst grants) (snd grants))"

text \<open>The grant of a request: the framing of its size, and the upload's expiry.\<close>

definition grant_row ::
  "app \<Rightarrow> string \<Rightarrow> preflight_request \<Rightarrow> string \<Rightarrow> string \<Rightarrow> string \<Rightarrow> upload_row" where
  "grant_row A handle req upload_id now_stamp expires_at =
     (let chunk = chunk_bytes (cfg A);
          size_bytes = ref_sealed_byte_size (req_snapshot_reference req)
      in \<lparr>up_id = upload_id, up_holder = handle, up_operation = req_operation_id req,
          up_digest = ref_digest (req_snapshot_reference req), up_size = size_bytes,
          up_chunk_bytes = chunk,
          up_chunk_count = quot64 (wrap64 (size_bytes + chunk - 1)) chunk,
          up_terms = req_accepted_terms_id req, up_supersedes = req_supersedes req,
          up_started_at = now_stamp, up_expires_at = expires_at\<rparr>)"

definition mint_grant ::
  "app \<Rightarrow> holder \<Rightarrow> preflight_request \<Rightarrow> instant \<Rightarrow> string \<Rightarrow> string \<Rightarrow> response op" where
  "mint_grant A who req now now_stamp upload_id =
     bindE (liftE (ok_or Panic (time_add (lib A) now (upload_expiry_secs (cfg A))))) (\<lambda>expiry.
     bindE (liftE (stamp (lib A) expiry)) (\<lambda>expires_at.
     let row = grant_row A (h_handle who) req upload_id now_stamp expires_at in
     bindE (begin_incoming (blob_root (cfg A)) upload_id) (\<lambda>_.
     bindE (query (begin_upload row)) (\<lambda>s.
     bindE (modifyE (\<lambda>w. w\<lparr>store := s\<rparr>)) (\<lambda>_.
       returnE (RJson 200 (grant_json row [(0, up_chunk_count row - 1)])))))))"

text \<open>The steps after the resume: terms, payment, already held, size, quota, grant.\<close>

definition new_grant ::
  "app \<Rightarrow> holder \<Rightarrow> headers \<Rightarrow> preflight_request \<Rightarrow> instant \<Rightarrow> string \<Rightarrow> string \<Rightarrow> response op" where
  "new_grant A who hs req now now_stamp upload_id =
     (let reference = req_snapshot_reference req; c = cfg A in
      if req_accepted_terms_id req \<noteq> doc_terms_id (docs A)
      then throwE (Err (TermsChanged (doc_terms_id (docs A))))
      else
        bindE (require A who hs Preflight now) (\<lambda>_.
        bindE (select (snapshot_exists (h_handle who) (ref_digest reference))) (\<lambda>held.
        if held then returnE (RJson 200 (outcome_json A ''already_retained''
            (reference_json (ref_algorithm reference) (ref_digest reference) (ref_sealed_byte_size reference))
            (doc_terms_id (docs A))))
        else if ref_sealed_byte_size reference > maximum_sealed_snapshot_bytes c
        then throwE (Err (SnapshotTooLarge (maximum_sealed_snapshot_bytes c)))
        else
          bindE (query (usage (h_handle who))) (\<lambda>used.
          bindE (query (open_grants (lib A) (h_handle who) now_stamp)) (\<lambda>grants.
          if fst used + fst grants \<ge> maximum_retained_snapshots c
          then throwE (quota_error A used grants)
          else mint_grant A who req now now_stamp upload_id)))))"

definition preflight :: "app \<Rightarrow> headers \<Rightarrow> bytes \<Rightarrow> instant \<Rightarrow> string \<Rightarrow> response op" where
  "preflight A hs body now upload_id =
     bindE (authenticate A hs ''POST'' ''/v1/preflight'' body now) (\<lambda>who.
     bindE (liftE (ok_or (Err (BadRequest ''preflight body'')) (decode_preflight (lib A) body))) (\<lambda>req.
     bindE (liftE (check_preflight req)) (\<lambda>_.
     bindE (liftE (stamp (lib A) now)) (\<lambda>now_stamp.
     let reference = req_snapshot_reference req in
     bindE (select (open_grant_for (lib A) (h_handle who) (ref_digest reference) now_stamp)) (\<lambda>found.
       case found of
         Some open_grant \<Rightarrow> resume_grant A open_grant (ref_sealed_byte_size reference)
       | None \<Rightarrow> new_grant A who hs req now now_stamp upload_id)))))"

section \<open>Chunks\<close>

definition has_expired :: "crates \<Rightarrow> string \<Rightarrow> instant \<Rightarrow> fail + bool" where
  "has_expired X expires_at now =
     and_then (ok_or (internal ''unparseable grant expiry'') (rfc_parse X expires_at)) (\<lambda>expiry.
       Inr (expiry \<le> now))"

text \<open>The block that opens \<open>put_chunk\<close> and \<open>commit\<close>: the holder's own unexpired grant.\<close>

definition granted_upload ::
  "app \<Rightarrow> headers \<Rightarrow> string \<Rightarrow> string \<Rightarrow> bytes \<Rightarrow> instant \<Rightarrow> string \<Rightarrow> upload_row op" where
  "granted_upload A hs verb path body now upload_id =
     bindE (authenticate A hs verb path body now) (\<lambda>who.
     bindE (select (upload upload_id)) (\<lambda>found.
     bindE (liftE (ok_or (Err (NotFound Upload)) found)) (\<lambda>u.
       if up_holder u \<noteq> h_handle who then throwE (Err (NotFound Upload))
       else bindE (liftE (has_expired (lib A) (up_expires_at u) now)) (\<lambda>expired.
         if expired then throwE (Err UploadExpired) else returnE u))))"

definition upload_path :: "string \<Rightarrow> string" where
  "upload_path upload_id = ''/v1/uploads/'' @ upload_id"

definition expected_chunk :: "upload_row \<Rightarrow> int \<Rightarrow> int" where
  "expected_chunk u index =
     (if index = up_chunk_count u - 1
      then wrap64 (up_size u - wrap64 (up_chunk_bytes u * (up_chunk_count u - 1)))
      else up_chunk_bytes u)"

definition put_chunk :: "app \<Rightarrow> headers \<Rightarrow> string \<Rightarrow> int \<Rightarrow> bytes \<Rightarrow> instant \<Rightarrow> response op" where
  "put_chunk A hs upload_id index body now =
     bindE (granted_upload A hs ''PUT'' (upload_path upload_id @ ''/chunks/'' @ show_int index) body now upload_id)
       (\<lambda>u.
       if index < 0 \<or> index \<ge> up_chunk_count u
       then throwE (Err (BadRequest ''chunk index outside the grant''))
       else if int (length body) \<noteq> expected_chunk u index
       then throwE (Err (BadRequest (''chunk '' @ show_int index @ '' must be ''
         @ show_int (expected_chunk u index) @ '' bytes'')))
       else bindE (write_chunk (blob_root (cfg A)) upload_id index body) (\<lambda>_.
         returnE (REmpty 200)))"

section \<open>Commit\<close>

definition abandon :: "app \<Rightarrow> string \<Rightarrow> unit op" where
  "abandon A upload_id =
     bindE (discard_upload (blob_root (cfg A)) upload_id) (\<lambda>_.
       statement (drop_upload upload_id))"

definition commit_lookup :: "app \<Rightarrow> headers \<Rightarrow> string \<Rightarrow> bytes \<Rightarrow> instant \<Rightarrow> upload_row op" where
  "commit_lookup A hs upload_id body now =
     granted_upload A hs ''POST'' (upload_path upload_id @ ''/commit'') body now upload_id"

text \<open>Count, size and digest, off the lock; the result is the digest's hex.\<close>

definition commit_verify :: "app \<Rightarrow> upload_row \<Rightarrow> string op" where
  "commit_verify A u =
     (let root = blob_root (cfg A) in
      bindE (arrival root (up_id u) (up_chunk_count u)) (\<lambda>(received, missing).
        if missing \<noteq> [] then throwE (Err (UploadIncomplete missing (up_chunk_count u)))
        else if received \<noteq> up_size u
        then bindE (abandon A (up_id u)) (\<lambda>_. throwE (Err DigestMismatch))
        else
          bindE (digest_of (lib A) root (up_id u) (up_chunk_count u)) (\<lambda>actual.
            if actual \<noteq> up_digest u
            then bindE (abandon A (up_id u)) (\<lambda>_. throwE (Err DigestMismatch))
            else liftE (digest_hex actual))))"

text \<open>The quota that decides, under the store lock, unless the digest is already held.\<close>

definition commit_quota :: "app \<Rightarrow> upload_row \<Rightarrow> instant \<Rightarrow> unit op" where
  "commit_quota A u now =
     bindE (select (snapshot_exists (up_holder u) (up_digest u))) (\<lambda>held.
       if held then returnE ()
       else
         bindE (query (usage (up_holder u))) (\<lambda>used.
         bindE (liftE (stamp (lib A) now)) (\<lambda>now_stamp.
         bindE (query (open_grants (lib A) (up_holder u) now_stamp)) (\<lambda>grants.
           if fst used \<ge> maximum_retained_snapshots (cfg A)
           then bindE (discard_upload (blob_root (cfg A)) (up_id u)) (\<lambda>_.
             bindE (statement (drop_upload (up_id u))) (\<lambda>_.
               throwE (quota_error A used (max (fst grants - 1) 0, max (snd grants - up_size u) 0))))
           else returnE ()))))"

definition commit_place :: "app \<Rightarrow> upload_row \<Rightarrow> string \<Rightarrow> instant \<Rightarrow> response op" where
  "commit_place A u hex now =
     bindE (liftE (stamp (lib A) now)) (\<lambda>retained_at.
     bindE (commit_quota A u now) (\<lambda>_.
     bindE (commit_blob (lib A) (blob_root (cfg A)) (up_id u) (up_holder u) hex
       (up_chunk_count u) (up_size u)) (\<lambda>_.
     bindE (statement (retain u retained_at)) (\<lambda>_.
     bindE (statement (drop_upload (up_id u))) (\<lambda>_.
     bindE (statement (record_outcome (up_operation u) (up_holder u) (up_digest u) ''retained'' None
       retained_at)) (\<lambda>_.
       returnE (RJson 200 (outcome_json A ''retained''
         (reference_json digest_suite (up_digest u) (up_size u)) (up_terms u)))))))))"

definition commit :: "app \<Rightarrow> headers \<Rightarrow> string \<Rightarrow> bytes \<Rightarrow> instant \<Rightarrow> response op" where
  "commit A hs upload_id body now =
     bindE (commit_lookup A hs upload_id body now) (\<lambda>u.
     bindE (commit_verify A u) (\<lambda>hex.
       commit_place A u hex now))"

section \<open>List and download\<close>

definition row_status :: "snapshot_row \<Rightarrow> string" where
  "row_status r =
     (if snap_erased_at r \<noteq> None then ''erased''
      else if snap_retained_until r \<noteq> None then ''retention_expired''
      else ''retained'')"

definition row_json :: "snapshot_row \<Rightarrow> json" where
  "row_json r =
     JObj [(''snapshotReference'', reference_json (snap_algorithm r) (snap_digest r) (snap_size r)),
       (''acceptedTermsId'', JStr (snap_terms r)), (''retainedAt'', JStr (snap_retained_at r)),
       (''retainedUntil'', opt_str (snap_retained_until r)), (''supersedes'', opt_str (snap_supersedes r)),
       (''erasedAt'', opt_str (snap_erased_at r)), (''status'', JStr (row_status r))]"

definition list_snapshots :: "app \<Rightarrow> headers \<Rightarrow> instant \<Rightarrow> response op" where
  "list_snapshots A hs now =
     bindE (authenticate A hs ''GET'' ''/v1/snapshots'' [] now) (\<lambda>who.
     bindE (require A who hs List_snapshots now) (\<lambda>_.
     bindE (select (snapshots_including_erased (lib A) (h_handle who))) (\<lambda>rows.
       returnE (RJson 200 (JArr (map row_json rows))))))"

definition download_lookup :: "app \<Rightarrow> headers \<Rightarrow> string \<Rightarrow> instant \<Rightarrow> (holder \<times> snapshot_row) op" where
  "download_lookup A hs digest_path now =
     bindE (authenticate A hs ''GET'' (''/v1/snapshots/'' @ digest_path) [] now) (\<lambda>who.
     bindE (require A who hs Download now) (\<lambda>_.
     bindE (liftE (digest_hex (''sha256:'' @ digest_path))) (\<lambda>_.
     bindE (select (snapshot_record (h_handle who) (''sha256:'' @ digest_path))) (\<lambda>found.
     bindE (liftE (ok_or (Err (NotFound Snapshot)) found)) (\<lambda>row.
       if snap_erased_at row \<noteq> None then throwE (Err (NotFound Snapshot))
       else if snap_retained_until row \<noteq> None then throwE (Err RetentionExpired)
       else returnE (who, row))))))"

definition expire_missing :: "app \<Rightarrow> string \<Rightarrow> string \<Rightarrow> instant \<Rightarrow> fail \<Rightarrow> 'a op" where
  "expire_missing A handle digest_text now e =
     (if e = Err RetentionExpired then
        bindE (liftE (stamp (lib A) now)) (\<lambda>at.
        bindE (execute (mark_unavailable handle digest_text at)) (\<lambda>_.
          throwE (Err RetentionExpired)))
      else throwE e)"

definition download_open :: "app \<Rightarrow> holder \<Rightarrow> snapshot_row \<Rightarrow> string \<Rightarrow> instant \<Rightarrow> response op" where
  "download_open A who row digest_path now =
     matchE (inspect (chunk_paths (blob_root (cfg A)) (h_handle who) digest_path
         (snap_chunks row) (snap_size row)))
       (expire_missing A (h_handle who) (''sha256:'' @ digest_path) now)
       (\<lambda>paths. returnE (RStream 200 (snap_size row) paths))"

definition download :: "app \<Rightarrow> headers \<Rightarrow> string \<Rightarrow> instant \<Rightarrow> response op" where
  "download A hs digest_path now =
     bindE (download_lookup A hs digest_path now) (\<lambda>(who, row).
       download_open A who row digest_path now)"

end
