(* ===== verification/Erasures.thy ===== *)
theory Erasures
  imports Uploads
begin

text \<open>
  \<open>erasures.rs\<close>: an erasure request, the receipts it mints against the pinned terms, the
  transaction that decides it, and the removal of the bytes afterwards.  \<open>ids\<close> names the fresh
  receipt identifier drawn for each pinned terms document.
\<close>

section \<open>The receipt\<close>

definition iso8601_days :: "string \<Rightarrow> fail + int" where
  "iso8601_days period =
     and_then (ok_or (internal ''completion deadline is not a whole number of days'')
       (Option.bind (Option.bind (strip_prefix ''P'' period) (strip_suffix ''D'')) parse_i64)) (\<lambda>days.
     if days \<le> 0 then Inl (internal ''completion deadline must be positive'')
     else ok_or (internal ''completion deadline is too large'') (checked_mul64 days (24 * 60 * 60)))"

definition text_field :: "json \<Rightarrow> string \<Rightarrow> string" where
  "text_field v key = (case as_str (jindex v key) of None \<Rightarrow> [] | Some s \<Rightarrow> s)"

definition compose ::
  "app \<Rightarrow> json \<Rightarrow> string \<Rightarrow> string \<Rightarrow> string list \<Rightarrow> string \<Rightarrow> string \<Rightarrow> fail + json" where
  "compose A terms terms_id scope covers acknowledged_at receipt_id =
     (let erasure = jindex terms ''erasure''; X = lib A;
          excluded = text_field erasure ''excluded'';
          covered = text_field erasure ''scope''
      in
      and_then (guard_or (internal ''pinned terms declare no erasure exclusions'') (trim excluded \<noteq> [])) (\<lambda>_.
      and_then (guard_or (internal ''pinned terms declare no erasure scope'') (trim covered \<noteq> [])) (\<lambda>_.
      and_then (ok_or (internal ''pinned terms declare no erasure completion deadline'')
        (as_str (jindex erasure ''completionDeadline''))) (\<lambda>deadline.
      and_then (ok_or (internal ''unparseable stamp'') (rfc_parse X acknowledged_at)) (\<lambda>acknowledged.
      and_then (iso8601_days deadline) (\<lambda>seconds.
      and_then (ok_or (internal ''erasure completion deadline is out of range'')
        (time_add X acknowledged seconds)) (\<lambda>by_instant.
      and_then (stamp X by_instant) (\<lambda>committed_by.
        Inr (JObj [(''receiptVersion'', JInt 1), (''receiptId'', JStr receipt_id),
          (''operator'', JStr (doc_operator_key (docs A))), (''scope'', JStr scope),
          (''snapshots'', JArr (map JStr covers)), (''acknowledgedAt'', JStr acknowledged_at),
          (''completionCommittedBy'', JStr committed_by), (''coveredScope'', JStr covered),
          (''excludedScope'', JStr excluded), (''termsId'', JStr terms_id)])))))))))"

definition decode_receipts :: "crates \<Rightarrow> (string \<times> bytes) list \<Rightarrow> fail + json list" where
  "decode_receipts X raws =
     collect_results (\<lambda>(_, raw). ok_or (internal ''stored receipt'') (json_parse X raw)) raws"

section \<open>The bookkeeping\<close>

text \<open>The digests of the scope's rows that pin one terms document, and its receipt.\<close>

definition covered_by :: "snapshot_row list \<Rightarrow> string \<Rightarrow> string list" where
  "covered_by targets terms_id = map snap_digest (filter (\<lambda>r. snap_terms r = terms_id) targets)"

definition mint_receipt ::
  "app \<Rightarrow> string \<Rightarrow> snapshot_row list \<Rightarrow> string \<Rightarrow> (string \<Rightarrow> string) \<Rightarrow> string \<Rightarrow> store \<Rightarrow> fail + json \<times> minted" where
  "mint_receipt A scope targets at ids terms_id s =
     and_then (ok_or (Err (NotFound Terms)) (terms_document terms_id s)) (\<lambda>(raw, _).
     and_then (ok_or (internal ''stored terms'') (json_parse (lib A) raw)) (\<lambda>terms.
     let covers = covered_by targets terms_id in
     and_then (compose A terms terms_id scope covers at (ids terms_id)) (\<lambda>unsigned.
     and_then (ok_or (internal ''receipt has no id'') (as_str (jindex unsigned ''receiptId''))) (\<lambda>receipt_id.
     and_then (sign_receipt (lib A) (signing_seed (cfg A)) unsigned) (\<lambda>(document, signed).
       Inr (document, \<lparr>mint_id = receipt_id, mint_terms = terms_id, mint_raw = signed, mint_covers = covers\<rparr>))))))"

definition pinned_terms :: "snapshot_row list \<Rightarrow> string list" where
  "pinned_terms targets = sort (remdups (map snap_terms targets))"

definition mint_receipts ::
  "app \<Rightarrow> string \<Rightarrow> snapshot_row list \<Rightarrow> string \<Rightarrow> (string \<Rightarrow> string) \<Rightarrow> store \<Rightarrow> fail + (json \<times> minted) list" where
  "mint_receipts A scope targets at ids s =
     collect_results (\<lambda>terms_id. mint_receipt A scope targets at ids terms_id s) (pinned_terms targets)"

text \<open>Nothing live in scope: the newest receipts that cover it, or why there is none.\<close>

definition erase_again :: "app \<Rightarrow> holder \<Rightarrow> erase_request \<Rightarrow> string \<Rightarrow> response op" where
  "erase_again A who req at =
     (let handle = h_handle who; scope = erase_scope req in
      bindE (select (scope_is_unavailable handle scope)) (\<lambda>expired.
      if expired then throwE (Err RetentionExpired)
      else
        bindE (select (erased_digests handle scope)) (\<lambda>erased.
        bindE (query (latest_receipts_for_erased_scope (lib A) handle scope erased)) (\<lambda>existing.
        if existing \<noteq> [] then
          bindE (statement (record_outcome (erase_operation_id req) handle scope ''erasure_acknowledged''
            (Some (ids_text (lib A) (map fst existing))) at)) (\<lambda>_.
          bindE (liftE (decode_receipts (lib A) existing)) (\<lambda>documents.
            returnE (RJson 200 (JArr documents))))
        else if erased \<noteq> [] then throwE (Err ReceiptExpired)
        else throwE (Err (NotFound Snapshot))))))"

definition check_erase :: "erase_request \<Rightarrow> fail + unit" where
  "check_erase req =
     and_then (guard_or (Err (BadRequest ''operationId is required'')) (trim (erase_operation_id req) \<noteq> []))
       (\<lambda>_. if erase_scope req \<noteq> ''all''
          then and_then (digest_hex (erase_scope req)) (\<lambda>_. Inr ()) else Inr ())"

text \<open>The decision: receipts first, then rows, receipts and outcome in one transaction.\<close>

definition erase_targets ::
  "app \<Rightarrow> holder \<Rightarrow> erase_request \<Rightarrow> snapshot_row list \<Rightarrow> string \<Rightarrow> (string \<Rightarrow> string) \<Rightarrow> (json list \<times> string list) op" where
  "erase_targets A who req targets at ids =
     bindE (query (mint_receipts A (erase_scope req) targets at ids)) (\<lambda>made.
     bindE (statement (commit_erasure (lib A) (h_handle who) (erase_scope req) (map snap_digest targets)
       (map snd made) (erase_operation_id req) at)) (\<lambda>_.
     bindE (liftE (collect_results digest_hex (map snap_digest targets))) (\<lambda>doomed.
       returnE (map fst made, doomed))))"

section \<open>The bytes\<close>

definition unlink_erased :: "app \<Rightarrow> string \<Rightarrow> string list \<Rightarrow> unit op" where
  "unlink_erased A handle doomed =
     foldE (\<lambda>hex _. matchE (erase_blob (blob_root (cfg A)) handle hex) (\<lambda>_. returnE ()) returnE) doomed ()"

definition erase :: "app \<Rightarrow> headers \<Rightarrow> bytes \<Rightarrow> instant \<Rightarrow> (string \<Rightarrow> string) \<Rightarrow> response op" where
  "erase A hs body now ids =
     bindE (liftE (stamp (lib A) now)) (\<lambda>at.
     bindE (authenticate A hs ''POST'' ''/v1/erasures'' body now) (\<lambda>who.
     bindE (require A who hs Erase now) (\<lambda>_.
     bindE (liftE (ok_or (Err (BadRequest ''erasure body'')) (decode_erase (lib A) body))) (\<lambda>req.
     bindE (liftE (check_erase req)) (\<lambda>_.
     bindE (select (snapshots_in_scope (lib A) (h_handle who) (erase_scope req))) (\<lambda>targets.
       if targets = [] then erase_again A who req at
       else
         bindE (erase_targets A who req targets at ids) (\<lambda>(receipts, doomed).
         bindE (unlink_erased A (h_handle who) doomed) (\<lambda>_.
           returnE (RJson 200 (JArr receipts))))))))))"

end
