(* ===== verification/Routes.thy ===== *)
theory Routes
  imports Erasures
begin

text \<open>
  The routes that are not an upload or an erasure (\<open>export.rs\<close>, \<open>operations.rs\<close>, the
  handlers of \<open>api.rs\<close> and \<open>register\<close> of \<open>entitlements.rs\<close>), the route table of
  \<open>api.rs\<close>, and the dispatch from a request to its handler.
\<close>

section \<open>Export\<close>

definition hex_of :: "string \<Rightarrow> string" where
  "hex_of d = (case strip_prefix ''sha256:'' d of Some h \<Rightarrow> h | None \<Rightarrow> d)"

definition terms_url :: "app \<Rightarrow> string \<Rightarrow> string" where
  "terms_url A terms_id = trim_end_slash (public_url (cfg A)) @ ''/terms/'' @ hex_of terms_id @ ''.json''"

definition export_row :: "app \<Rightarrow> snapshot_row \<Rightarrow> json" where
  "export_row A r =
     JObj [(''snapshotReference'', reference_json (snap_algorithm r) (snap_digest r) (snap_size r)),
       (''acceptedTermsId'', JStr (snap_terms r)), (''termsUrl'', JStr (terms_url A (snap_terms r))),
       (''retainedAt'', JStr (snap_retained_at r)),
       (''file'', JStr (''snapshots/'' @ hex_of (snap_digest r) @ ''.seal''))]"

definition export_terms :: "app \<Rightarrow> string \<Rightarrow> json" where
  "export_terms A terms_id =
     JObj [(''termsId'', JStr terms_id), (''termsUrl'', JStr (terms_url A terms_id)),
       (''file'', JStr (''terms/'' @ hex_of terms_id @ ''.json'')),
       (''signature'', JStr (''terms/'' @ hex_of terms_id @ ''.json.sig''))]"

definition export_terms_ids :: "snapshot_row list \<Rightarrow> string list \<Rightarrow> string list" where
  "export_terms_ids rows receipt_terms = sort (remdups (map snap_terms rows @ receipt_terms))"

definition export_manifest :: "app \<Rightarrow> headers \<Rightarrow> instant \<Rightarrow> response op" where
  "export_manifest A hs now =
     bindE (authenticate A hs ''GET'' ''/v1/exports'' [] now) (\<lambda>who.
     bindE (select (snapshots (lib A) (h_handle who))) (\<lambda>rows.
     bindE (select (receipts (lib A) (h_handle who))) (\<lambda>kept.
     bindE (select (receipt_terms_ids (h_handle who))) (\<lambda>receipt_terms.
     bindE (liftE (stamp (lib A) now)) (\<lambda>at.
       returnE (RJson 200 (JObj [(''exportVersion'', JInt 1), (''exportedAt'', JStr at),
         (''operator'', JStr (doc_operator_key (docs A))),
         (''snapshots'', JArr (map (export_row A) rows)),
         (''receipts'', JArr (map (\<lambda>(i, _). JStr (''receipts/'' @ i @ ''.json'')) kept)),
         (''terms'', JArr (map (export_terms A) (export_terms_ids rows receipt_terms)))])))))))"

definition export_lookup :: "app \<Rightarrow> headers \<Rightarrow> string \<Rightarrow> instant \<Rightarrow> (holder \<times> snapshot_row) op" where
  "export_lookup A hs digest_path now =
     bindE (authenticate A hs ''GET'' (''/v1/exports/'' @ digest_path) [] now) (\<lambda>who.
     bindE (liftE (digest_hex (''sha256:'' @ digest_path))) (\<lambda>_.
     bindE (select (snapshot_record (h_handle who) (''sha256:'' @ digest_path))) (\<lambda>found.
     bindE (liftE (ok_or (Err (NotFound Snapshot)) found)) (\<lambda>row.
       if snap_erased_at row \<noteq> None then throwE (Err (NotFound Snapshot))
       else if snap_retained_until row \<noteq> None then throwE (Err RetentionExpired)
       else returnE (who, row)))))"

definition export_open :: "app \<Rightarrow> holder \<Rightarrow> snapshot_row \<Rightarrow> string \<Rightarrow> instant \<Rightarrow> response op" where
  "export_open A who row digest_path now =
     matchE (inspect (chunk_paths (blob_root (cfg A)) (h_handle who) digest_path
         (snap_chunks row) (snap_size row)))
       (expire_missing A (h_handle who) (''sha256:'' @ digest_path) now)
       (\<lambda>paths. returnE (RStream 200 (snap_size row) paths))"

definition export_snapshot :: "app \<Rightarrow> headers \<Rightarrow> string \<Rightarrow> instant \<Rightarrow> response op" where
  "export_snapshot A hs digest_path now =
     bindE (export_lookup A hs digest_path now) (\<lambda>(who, row).
       export_open A who row digest_path now)"

definition export_receipt :: "app \<Rightarrow> headers \<Rightarrow> string \<Rightarrow> instant \<Rightarrow> response op" where
  "export_receipt A hs receipt_id now =
     bindE (authenticate A hs ''GET'' (''/v1/exports/receipts/'' @ receipt_id) [] now) (\<lambda>who.
     bindE (select (receipt (h_handle who) receipt_id)) (\<lambda>found.
     bindE (liftE (ok_or (Err (NotFound Receipt)) found)) (\<lambda>raw.
       returnE (RDoc 200 ''application/json'' raw))))"

section \<open>Operations\<close>

text \<open>\<open>serde_json::from_str::<Vec<String>>\<close>, or the empty list.\<close>

definition stored_ids :: "crates \<Rightarrow> string \<Rightarrow> string list" where
  "stored_ids X ids =
     (case Option.bind (json_parse X ids) as_array of
        None \<Rightarrow> []
      | Some items \<Rightarrow> if list_all (\<lambda>v. as_str v \<noteq> None) items then string_items items else [])"

definition operation_json ::
  "app \<Rightarrow> string \<Rightarrow> string \<times> string \<times> string option \<times> string \<Rightarrow> json" where
  "operation_json A operation_id found =
     (case found of (subject, status_text, receipt_ids, recorded_at) \<Rightarrow>
        JObj [(''outcome'', JObj
          ([(''componentId'', JStr (component_id (cfg A))), (''operationId'', JStr operation_id),
            (''status'', JStr status_text),
            (if status_text = ''erasure_acknowledged'' then ''scope'' else ''digest'', JStr subject),
            (''recordedAt'', JStr recorded_at)] @
           (case receipt_ids of None \<Rightarrow> []
            | Some t \<Rightarrow> [(''receiptIds'', JArr (map JStr (stored_ids (lib A) t)))])))])"

text \<open>\<open>target\<close> is the path as the client sent it, \<open>operation_id\<close> the decoded segment.\<close>

definition query_operation :: "app \<Rightarrow> headers \<Rightarrow> string \<Rightarrow> string \<Rightarrow> instant \<Rightarrow> response op" where
  "query_operation A hs target operation_id now =
     bindE (authenticate A hs ''GET'' target [] now) (\<lambda>who.
     bindE (require A who hs Reconcile now) (\<lambda>_.
     bindE (select (outcome (h_handle who) operation_id)) (\<lambda>found.
     bindE (liftE (ok_or (Err (NotFound Operation)) found)) (\<lambda>row.
       returnE (RJson 200 (operation_json A operation_id row))))))"

section \<open>Registering an entitlement\<close>

definition free_operator_error :: fail where
  "free_operator_error = Err (BadRequest
     ''this operator declares no entitlement issuers and never consults an entitlement'')"

text \<open>The credential of a registration body, as the canonical bytes of its document.\<close>

definition registration_bytes :: "app \<Rightarrow> bytes \<Rightarrow> fail + bytes" where
  "registration_bytes A body =
     and_then (ok_or (Err (BadRequest ''body is not JSON'')) (json_parse (lib A) body)) (\<lambda>request.
     and_then (guard_or (Err (BadRequest ''version must be 1''))
       (Option.bind (jget request ''version'') as_i64 = Some 1)) (\<lambda>_.
     and_then (ok_or (Err (BadRequest ''entitlement is required'')) (jget request ''entitlement''))
       (\<lambda>entitlement. canonical_bytes entitlement [])))"

definition register :: "app \<Rightarrow> headers \<Rightarrow> bytes \<Rightarrow> instant \<Rightarrow> response op" where
  "register A hs body now =
     bindE (authenticate A hs ''POST'' ''/v1/entitlements'' body now) (\<lambda>who.
     bindE (require A who hs Register now) (\<lambda>_.
     if \<not> requires_entitlement (cfg A) then throwE free_operator_error
     else
       bindE (liftE (registration_bytes A body)) (\<lambda>raw.
       bindE (getE revoked_ids) (\<lambda>revoked.
       bindE (liftE (verify_entitlement A raw (h_reference who) revoked now)) (\<lambda>v.
       bindE (liftE (stamp (lib A) now)) (\<lambda>at.
       bindE (register_entitlement (lib A) (h_handle who) v at) (\<lambda>_.
       bindE (liftE (stamp (lib A) (ve_expires_at v))) (\<lambda>expires_at.
         returnE (RJson 200 (JObj [(''registered'', JBool True), (''entitlementId'', JStr (ve_id v)),
           (''expiresAt'', JStr expires_at)])))))))))) "

section \<open>Published documents and health\<close>

definition json_document :: "bytes \<Rightarrow> response" where
  "json_document raw = RDoc 200 ''application/json'' raw"

definition signature_document :: "string \<Rightarrow> response" where
  "signature_document signature = RDoc 200 ''text/plain; charset=utf-8'' signature"

definition health :: "app \<Rightarrow> instant \<Rightarrow> response op" where
  "health A now =
     bindE (getE (revocation_health A now)) (\<lambda>revocation.
       returnE (RJson 200 (JObj [(''status'', JStr ''ok''), (''componentId'', JStr (component_id (cfg A))),
         (''operator'', JStr (doc_operator_key (docs A))),
         (''declaredTerms'', JStr (doc_terms_id (docs A))),
         (''charges'', JBool (requires_entitlement (cfg A))), (''revocation'', revocation)])))"

definition terms_name :: "string \<Rightarrow> (string \<times> bool) option" where
  "terms_name file =
     (case strip_suffix ''.json.sig'' file of
        Some requested \<Rightarrow> Some (requested, True)
      | None \<Rightarrow> map_option (\<lambda>r. (r, False)) (strip_suffix ''.json'' file))"

definition terms_route :: "app \<Rightarrow> string \<Rightarrow> response op" where
  "terms_route A file =
     bindE (liftE (ok_or (Err (NotFound Terms)) (terms_name file))) (\<lambda>(requested, is_signature).
       if requested = strip_sha (doc_terms_id (docs A))
       then returnE (if is_signature then signature_document (doc_terms_signature (docs A))
         else json_document (doc_terms (docs A)))
       else
         bindE (select (terms_document (''sha256:'' @ requested))) (\<lambda>stored.
         bindE (liftE (ok_or (Err (NotFound Terms)) stored)) (\<lambda>(raw, signature).
           if is_signature
           then (if utf8_valid signature then returnE (signature_document signature)
             else throwE (internal ''stored terms signature is not valid UTF-8''))
           else returnE (json_document raw))))"

text \<open>\<open>AppState::new\<close> remembers the terms this boot publishes, and \<open>main\<close> restores the epoch.\<close>

definition remember_boot_terms :: "app \<Rightarrow> string \<Rightarrow> unit op" where
  "remember_boot_terms A now_text =
     statement (remember_terms (doc_terms_id (docs A)) (doc_terms (docs A)) (doc_terms_signature (docs A))
       now_text)"

section \<open>The route table\<close>

datatype request =
    Get_health
  | Get_manifest
  | Get_manifest_signature
  | Get_profile
  | Get_terms string
  | Post_entitlement
  | Post_preflight
  | Put_chunk string int
  | Post_commit string
  | Get_snapshots
  | Get_snapshot string
  | Post_erasure
  | Get_exports
  | Get_export_receipt string
  | Get_export string
  | Get_operation string

definition routes :: "string \<Rightarrow> string list \<Rightarrow> request option" where
  "routes verb segments =
     (if verb = ''GET'' then
        (case segments of
           [a] \<Rightarrow> if a = ''health'' then Some Get_health
             else if a = ''manifest.json'' then Some Get_manifest
             else if a = ''manifest.json.sig'' then Some Get_manifest_signature
             else if a = ''profile.json'' then Some Get_profile else None
         | [a, b] \<Rightarrow> if a = ''terms'' then Some (Get_terms b)
             else if a = ''v1'' \<and> b = ''snapshots'' then Some Get_snapshots
             else if a = ''v1'' \<and> b = ''exports'' then Some Get_exports else None
         | [a, b, c] \<Rightarrow> if a \<noteq> ''v1'' then None
             else if b = ''snapshots'' then Some (Get_snapshot c)
             else if b = ''exports'' then Some (Get_export c)
             else if b = ''operations'' then Some (Get_operation c) else None
         | [a, b, c, d] \<Rightarrow> if a = ''v1'' \<and> b = ''exports'' \<and> c = ''receipts''
             then Some (Get_export_receipt d) else None
         | _ \<Rightarrow> None)
      else if verb = ''POST'' then
        (case segments of
           [a, b] \<Rightarrow> if a \<noteq> ''v1'' then None
             else if b = ''entitlements'' then Some Post_entitlement
             else if b = ''preflight'' then Some Post_preflight
             else if b = ''erasures'' then Some Post_erasure else None
         | [a, b, c, d] \<Rightarrow> if a = ''v1'' \<and> b = ''uploads'' \<and> d = ''commit'' then Some (Post_commit c) else None
         | _ \<Rightarrow> None)
      else if verb = ''PUT'' then
        (case segments of
           [a, b, c, d, e] \<Rightarrow> if a = ''v1'' \<and> b = ''uploads'' \<and> d = ''chunks''
             then map_option (Put_chunk c) (parse_i64 e) else None
         | _ \<Rightarrow> None)
      else None)"

definition body_limit :: "request \<Rightarrow> int" where
  "body_limit req = (case req of Put_chunk _ _ \<Rightarrow> max_chunk_body_bytes | _ \<Rightarrow> max_json_body_bytes)"

text \<open>
  What comes with a request: its headers, body and clock, the target as sent, and the identifiers
  the handlers draw.
\<close>

record arrival_context =
  ctx_headers :: headers
  ctx_body :: bytes
  ctx_now :: instant
  ctx_target :: string
  ctx_upload_id :: string
  ctx_receipt_ids :: "string \<Rightarrow> string"

definition handle_request :: "app \<Rightarrow> request \<Rightarrow> arrival_context \<Rightarrow> response op" where
  "handle_request A req c =
     (let hs = ctx_headers c; body = ctx_body c; now = ctx_now c in
      case req of
        Get_health \<Rightarrow> health A now
      | Get_manifest \<Rightarrow> returnE (json_document (doc_manifest (docs A)))
      | Get_manifest_signature \<Rightarrow> returnE (signature_document (doc_manifest_signature (docs A)))
      | Get_profile \<Rightarrow> returnE (json_document (doc_profile (docs A)))
      | Get_terms file \<Rightarrow> terms_route A file
      | Post_entitlement \<Rightarrow> register A hs body now
      | Post_preflight \<Rightarrow> preflight A hs body now (ctx_upload_id c)
      | Put_chunk upload_id index \<Rightarrow> put_chunk A hs upload_id index body now
      | Post_commit upload_id \<Rightarrow> commit A hs upload_id body now
      | Get_snapshots \<Rightarrow> list_snapshots A hs now
      | Get_snapshot d \<Rightarrow> download A hs d now
      | Post_erasure \<Rightarrow> erase A hs body now (ctx_receipt_ids c)
      | Get_exports \<Rightarrow> export_manifest A hs now
      | Get_export_receipt i \<Rightarrow> export_receipt A hs i now
      | Get_export d \<Rightarrow> export_snapshot A hs d now
      | Get_operation i \<Rightarrow> query_operation A hs (ctx_target c) i now)"

text \<open>The answer on the wire; a panic ends the connection without one.\<close>

definition respond :: "app \<Rightarrow> request \<Rightarrow> arrival_context \<Rightarrow> world \<Rightarrow> response option \<times> world" where
  "respond A req c w =
     (if int (length (ctx_body c)) > body_limit req then (Some (REmpty 413), w)
      else (case handle_request A req c w of
         (Inr r, w') \<Rightarrow> (Some r, w')
       | (Inl (Err e), w') \<Rightarrow> (Some (into_response e), w')
       | (Inl Panic, w') \<Rightarrow> (None, w')))"

end
