(* ===== verification/Sweep.thy ===== *)
theory Sweep
  imports Routes
begin

text \<open>
  \<open>sweep.rs\<close>: the steps of \<open>reconcile\<close>, one definition per step and one per loop body, and
  the task of \<open>main.rs\<close> that computes the cutoffs and runs it.  A failure inside a step is
  logged and the step goes on; \<open>or_else\<close> is that.
\<close>

record swept =
  post_grace_snapshots :: int
  aged_entitlements :: int
  forgotten_lapse_state :: int
  expired_grants :: int
  orphan_incoming :: int
  orphan_snapshots :: int
  unavailable_snapshots :: int
  spent_nonces :: int
  aged_outcomes :: int
  aged_receipts :: int
  forgotten_references :: int

definition nothing_swept :: swept where
  "nothing_swept = \<lparr>post_grace_snapshots = 0, aged_entitlements = 0, forgotten_lapse_state = 0,
     expired_grants = 0, orphan_incoming = 0, orphan_snapshots = 0, unavailable_snapshots = 0,
     spent_nonces = 0, aged_outcomes = 0, aged_receipts = 0, forgotten_references = 0\<rparr>"

record cutoffs =
  cut_now :: string
  cut_nonce :: string
  cut_outcome :: string
  cut_receipt :: string
  cut_erased_reference :: string
  cut_entitlement :: string

definition or_else :: "'a \<Rightarrow> 'a op \<Rightarrow> 'a op" where
  "or_else fallback m = matchE m (\<lambda>_. returnE fallback) returnE"

text \<open>Run \<open>m\<close> and add what it counted.\<close>

definition counted :: "int \<Rightarrow> int op \<Rightarrow> int op" where
  "counted n m = matchE m (\<lambda>_. returnE n) (\<lambda>changed. returnE (n + changed))"

section \<open>(0) Snapshots whose grace closed\<close>

definition expire_due :: "string \<Rightarrow> string \<Rightarrow> string \<times> string \<Rightarrow> int \<Rightarrow> int op" where
  "expire_due handle now due n =
     (if snd due \<noteq> ''erase'' then returnE n
      else counted n (execute (mark_unavailable handle (fst due) now)))"

definition expire_holder ::
  "crates \<Rightarrow> string list \<Rightarrow> instant \<Rightarrow> string \<Rightarrow> string \<Rightarrow> int \<Rightarrow> int op" where
  "expire_holder X revoked now_at now handle n =
     matchE (query (post_grace_due X handle revoked now_at)) (\<lambda>_. returnE n)
       (\<lambda>due. foldE (expire_due handle now) due n)"

definition sweep_post_grace :: "crates \<Rightarrow> string list \<Rightarrow> instant \<Rightarrow> string \<Rightarrow> int op" where
  "sweep_post_grace X revoked now_at now =
     bindE (or_else [] (select holders_with_snapshots)) (\<lambda>holders.
       foldE (expire_holder X revoked now_at now) holders 0)"

section \<open>(1), (2) Grants and incoming directories\<close>

definition drop_expired :: "string \<Rightarrow> string \<Rightarrow> int \<Rightarrow> int op" where
  "drop_expired root upload_id n =
     matchE (discard_upload root upload_id) (\<lambda>_. returnE n) (\<lambda>_.
       matchE (statement (drop_upload upload_id)) (\<lambda>_. returnE n) (\<lambda>_. returnE (n + 1)))"

definition sweep_grants :: "crates \<Rightarrow> string \<Rightarrow> string \<Rightarrow> int op" where
  "sweep_grants X root now =
     bindE (or_else [] (select (expired_uploads X now))) (\<lambda>expired.
       foldE (drop_expired root) expired 0)"

definition drop_orphan_incoming :: "string \<Rightarrow> string \<Rightarrow> int \<Rightarrow> int op" where
  "drop_orphan_incoming root upload_id n =
     matchE (select (upload upload_id)) (\<lambda>_. returnE n) (\<lambda>found.
       if found \<noteq> None then returnE n
       else matchE (discard_upload root upload_id) (\<lambda>_. returnE n) (\<lambda>_. returnE (n + 1)))"

definition sweep_incoming :: "string \<Rightarrow> int op" where
  "sweep_incoming root =
     bindE (incoming_on_disk root) (\<lambda>found. foldE (drop_orphan_incoming root) found 0)"

section \<open>(3) Rows without their bytes\<close>

definition check_claimed :: "string \<Rightarrow> string \<Rightarrow> string \<times> snapshot_row \<Rightarrow> int \<Rightarrow> int op" where
  "check_claimed root now claim n =
     (let handle = fst claim; row = snd claim in
      matchE (select (snapshot_exists handle (snap_digest row))) (\<lambda>_. returnE n) (\<lambda>still_live.
        if \<not> still_live then returnE n
        else (case digest_hex (snap_digest row) of
            Inl _ \<Rightarrow> returnE n
          | Inr hex \<Rightarrow>
              matchE (inspect (chunk_paths root handle hex (snap_chunks row) (snap_size row)))
                (\<lambda>e. if e = Err RetentionExpired
                  then counted n (execute (mark_unavailable handle (snap_digest row) now))
                  else returnE n)
                (\<lambda>_. returnE n))))"

definition sweep_claimed :: "string \<Rightarrow> string \<Rightarrow> int op" where
  "sweep_claimed root now =
     bindE (or_else [] (select all_live_snapshots)) (\<lambda>claimed.
       foldE (check_claimed root now) claimed 0)"

section \<open>(3b) Entitlement records\<close>

text \<open>Whether the records may go: the state derived from them is stored, or there is none.\<close>

definition carry_over :: "crates \<Rightarrow> string list \<Rightarrow> string \<Rightarrow> bool op" where
  "carry_over X revoked handle =
     matchE (query (derive_lapse_state X handle revoked)) (\<lambda>_. returnE False) (\<lambda>derived.
       case derived of
         None \<Rightarrow> returnE True
       | Some state \<Rightarrow>
           matchE (statement (record_lapse_state handle state)) (\<lambda>_. returnE False) (\<lambda>_. returnE True))"

definition drop_records :: "crates \<Rightarrow> string list \<Rightarrow> string \<Rightarrow> string \<Rightarrow> int \<Rightarrow> int op" where
  "drop_records X revoked older_than handle n =
     matchE (select (holder_losing_entitlements X handle older_than)) (\<lambda>_. returnE n) (\<lambda>losing.
       if \<not> losing then returnE n
       else bindE (carry_over X revoked handle) (\<lambda>derived.
         if \<not> derived then returnE n
         else counted n (execute (sweep_entitlements X handle older_than))))"

definition sweep_records :: "crates \<Rightarrow> string list \<Rightarrow> string \<Rightarrow> int op" where
  "sweep_records X revoked older_than =
     bindE (or_else [] (select (holders_losing_entitlements X older_than))) (\<lambda>losing.
     bindE (foldE (drop_records X revoked older_than) losing 0) (\<lambda>n.
       counted n (execute (sweep_superseded_entitlements X older_than))))"

section \<open>(3c), (3d) Derived lapse state\<close>

definition adopt_holder :: "crates \<Rightarrow> instant \<Rightarrow> string \<Rightarrow> unit \<Rightarrow> unit op" where
  "adopt_holder X now_at handle u =
     matchE (query (lapse_state_at X handle now_at)) (\<lambda>_. returnE ()) (\<lambda>derived.
       case derived of
         None \<Rightarrow> returnE ()
       | Some state \<Rightarrow> or_else () (statement (record_lapse_state handle state)))"

definition adopt_unrecorded :: "crates \<Rightarrow> string list \<Rightarrow> bool \<Rightarrow> instant \<Rightarrow> unit op" where
  "adopt_unrecorded X revoked charges now_at =
     (if \<not> charges then returnE ()
      else bindE (or_else [] (query (unrecorded_lapsed_holders X revoked))) (\<lambda>unrecorded.
        foldE (adopt_holder X now_at) unrecorded ()))"

text \<open>The row's own horizon, restarted from now where it cannot be read.\<close>

definition row_horizon :: "crates \<Rightarrow> instant \<Rightarrow> lapse_state \<Rightarrow> instant" where
  "row_horizon X now_at state = (case rfc_parse X (ls_lapsed_at state) of Some at \<Rightarrow> at | None \<Rightarrow> now_at)"

definition window_closed :: "crates \<Rightarrow> instant \<Rightarrow> lapse_state \<Rightarrow> bool" where
  "window_closed X now_at state =
     (case rfc_parse X (ls_grace_expires_at state) of Some ends \<Rightarrow> now_at \<ge> ends | None \<Rightarrow> False)"

definition retire_row ::
  "crates \<Rightarrow> string list \<Rightarrow> instant \<Rightarrow> string \<Rightarrow> lapse_state \<Rightarrow> int \<Rightarrow> int op" where
  "retire_row X revoked now_at handle current n =
     (if \<not> window_closed X now_at current \<or> ls_post_grace_action current \<noteq> ''erase'' then returnE n
      else matchE (query (post_grace_due X handle revoked now_at)) (\<lambda>_. returnE n) (\<lambda>due.
        if due = [] then counted n (execute (forget_lapse_state handle)) else returnE n))"

definition refresh_row ::
  "crates \<Rightarrow> string list \<Rightarrow> instant \<Rightarrow> string \<times> lapse_state \<Rightarrow> int \<Rightarrow> int op" where
  "refresh_row X revoked now_at entry n =
     (let handle = fst entry; state = snd entry in
      matchE (query (lapse_state_at X handle (row_horizon X now_at state))) (\<lambda>_. returnE n) (\<lambda>current.
        case current of
          None \<Rightarrow> counted n (execute (forget_lapse_state handle))
        | Some c \<Rightarrow>
            if c \<noteq> state
            then matchE (statement (record_lapse_state handle c)) (\<lambda>_. returnE n)
              (\<lambda>_. retire_row X revoked now_at handle c n)
            else retire_row X revoked now_at handle c n))"

definition sweep_lapse_rows :: "crates \<Rightarrow> string list \<Rightarrow> instant \<Rightarrow> int op" where
  "sweep_lapse_rows X revoked now_at =
     bindE (or_else [] (select lapsed_holders)) (\<lambda>lapsed.
       foldE (refresh_row X revoked now_at) lapsed 0)"

section \<open>(4) Snapshot directories without a row\<close>

definition drop_orphan_snapshot :: "string \<Rightarrow> (string \<times> string) list \<Rightarrow> string \<times> string \<Rightarrow> int \<Rightarrow> int op" where
  "drop_orphan_snapshot root live_keys found n =
     (if found \<in> set live_keys then returnE n
      else matchE (select (snapshot_exists (fst found) (''sha256:'' @ snd found))) (\<lambda>_. returnE n) (\<lambda>held.
        if held then returnE n
        else matchE (erase_blob root (fst found) (snd found)) (\<lambda>_. returnE n) (\<lambda>_. returnE (n + 1))))"

definition sweep_orphans :: "string \<Rightarrow> (string \<times> string) list \<Rightarrow> int op" where
  "sweep_orphans root live_keys =
     bindE (retained_on_disk root) (\<lambda>found. foldE (drop_orphan_snapshot root live_keys) found 0)"

section \<open>(5) to (8) Bookkeeping past its window\<close>

definition sweep_metadata :: "crates \<Rightarrow> cutoffs \<Rightarrow> swept \<Rightarrow> swept op" where
  "sweep_metadata X limits counts =
     bindE (or_else 0 (execute (sweep_nonces X (cut_nonce limits)))) (\<lambda>nonces.
     bindE (or_else (0, 0) (execute (sweep_outcomes_and_receipts X (cut_outcome limits) (cut_receipt limits)))) (\<lambda>(old_outcomes, old_receipts).
     bindE (or_else 0 (execute (sweep_erased_references X (cut_erased_reference limits)))) (\<lambda>references.
       returnE (counts\<lparr>spent_nonces := nonces, aged_outcomes := old_outcomes, aged_receipts := old_receipts,
         forgotten_references := references\<rparr>))))"

section \<open>The whole pass\<close>

definition reconcile :: "crates \<Rightarrow> string \<Rightarrow> string list \<Rightarrow> bool \<Rightarrow> instant \<Rightarrow> cutoffs \<Rightarrow> swept op" where
  "reconcile X root revoked charges now_at limits =
     bindE (sweep_post_grace X revoked now_at (cut_now limits)) (\<lambda>c0.
     bindE (sweep_grants X root (cut_now limits)) (\<lambda>c1.
     bindE (sweep_incoming root) (\<lambda>c2.
     bindE (sweep_claimed root (cut_now limits)) (\<lambda>c3.
     bindE (sweep_records X revoked (cut_entitlement limits)) (\<lambda>c3b.
     bindE (adopt_unrecorded X revoked charges now_at) (\<lambda>_.
     bindE (sweep_lapse_rows X revoked now_at) (\<lambda>c3d.
     let counts = nothing_swept\<lparr>post_grace_snapshots := c0, expired_grants := c1, orphan_incoming := c2,
           unavailable_snapshots := c3, aged_entitlements := c3b, forgotten_lapse_state := c3d\<rparr> in
     matchE (select all_retained_keys) (\<lambda>_. returnE counts) (\<lambda>live_keys.
     bindE (sweep_orphans root live_keys) (\<lambda>c4.
       sweep_metadata X limits (counts\<lparr>orphan_snapshots := c4\<rparr>))))))))))"

section \<open>The task\<close>

text \<open>The cutoffs of one run, or nothing when one of them cannot be computed.\<close>

definition cutoffs_at :: "app \<Rightarrow> instant \<Rightarrow> cutoffs option" where
  "cutoffs_at A at =
     (let X = lib A; c = cfg A in
      (case record_floor X (wrap64 (revocation_poll_secs c)) at of
         Inl _ \<Rightarrow> None
       | Inr entitlement_floor \<Rightarrow>
           Option.bind (Option.bind (checked_mul64 (max_skew_secs c) 2) (time_sub X at)) (\<lambda>nonces.
           Option.bind (time_sub X at (outcome_retention_secs c)) (\<lambda>outcomes.
           Option.bind (time_sub X at (receipt_retention_secs c)) (\<lambda>receipt_floor.
           Option.bind (time_sub X at (erased_reference_retention_secs c)) (\<lambda>erased.
           Option.bind (rfc_format X at) (\<lambda>now_text.
           Option.bind (rfc_format X nonces) (\<lambda>nonce_text.
           Option.bind (rfc_format X outcomes) (\<lambda>outcome_text.
           Option.bind (rfc_format X receipt_floor) (\<lambda>receipt_text.
           Option.bind (rfc_format X erased) (\<lambda>erased_text.
           Option.bind (rfc_format X entitlement_floor) (\<lambda>entitlement_text.
             Some \<lparr>cut_now = now_text, cut_nonce = nonce_text, cut_outcome = outcome_text,
               cut_receipt = receipt_text, cut_erased_reference = erased_text,
               cut_entitlement = entitlement_text\<rparr>))))))))))))"

definition sweep_task :: "app \<Rightarrow> instant \<Rightarrow> swept option op" where
  "sweep_task A at =
     (case cutoffs_at A at of
        None \<Rightarrow> returnE None
      | Some limits \<Rightarrow>
          bindE (getE revoked_ids) (\<lambda>revoked.
          bindE (reconcile (lib A) (blob_root (cfg A)) revoked (requires_entitlement (cfg A)) at limits) (\<lambda>counts.
            returnE (Some counts))))"

end
