(* ===== verification/Disk_Facts.thy ===== *)
theory Disk_Facts
  imports Blobs
begin

text \<open>
  What the operations of \<open>blobs.rs\<close> do to the disk: reading a directory back, the gaps
  \<open>arrival\<close> reports, chunk writes under every fault schedule, and the directory a commit leaves.
\<close>

section \<open>The content of a chunk directory\<close>

definition chunk_at :: "files \<Rightarrow> int \<Rightarrow> bytes" where
  "chunk_at fs i = (case map_of fs i of Some b \<Rightarrow> b | None \<Rightarrow> [])"

definition content :: "files \<Rightarrow> int \<Rightarrow> bytes" where
  "content fs n = concat (map (chunk_at fs) [0..n - 1])"

text \<open>Exactly the chunks \<open>0\<close> to \<open>n - 1\<close>, each once.\<close>

definition whole :: "files \<Rightarrow> int \<Rightarrow> bool" where
  "whole fs n \<longleftrightarrow> distinct (map fst fs) \<and> fst ` set fs = {0..<n}"

lemma length_concat_sum: "int (length (concat (map f xs))) = sum_list (map (\<lambda>x. int (length (f x))) xs)"
  by (induction xs) auto

lemma length_content: "int (length (content fs n)) = sum_list (map (\<lambda>i. int (length (chunk_at fs i))) [0..n - 1])"
  by (simp add: content_def length_concat_sum)

lemma upto_upt: "0 \<le> n \<Longrightarrow> map int [0..<nat n] = [0..n - 1]"
  by (rule nth_equalityI) auto

lemma sorted_distinct_range:
  assumes "distinct xs" "set xs = {0..<n :: int}"
  shows "sort xs = [0..n - 1]"
proof -
  have "set (sort xs) = set [0..n - 1]" using assms(2) by (simp only: set_sort set_upto) force
  then show ?thesis
    using assms(1) sorted_distinct_set_unique [of "sort xs" "[0..n - 1]"] by simp
qed

lemma whole_sort: "whole fs n \<Longrightarrow> sort (map fst fs) = [0..n - 1]"
  by (rule sorted_distinct_range) (auto simp: whole_def)

lemma whole_length: "whole fs n \<Longrightarrow> 0 \<le> n \<Longrightarrow> int (length fs) = n"
  using arg_cong [OF whole_sort, of fs n length] by simp

lemma whole_map_of: "whole fs n \<Longrightarrow> 0 \<le> i \<Longrightarrow> i < n \<Longrightarrow> map_of fs i = Some (chunk_at fs i)"
  unfolding whole_def chunk_at_def
  by (metis atLeastLessThan_iff map_of_eq_None_iff not_Some_eq option.simps(5))

section \<open>Reading a snapshot directory\<close>

lemma read_file_simps: "dir_lookup d p = Some fs \<Longrightarrow> read_file d p i = map_of fs i"
  by (simp add: read_file_def)

lemma stream_content:
  assumes "dir_lookup d p = Some fs" "\<And>i. i \<in> set is \<Longrightarrow> map_of fs i \<noteq> None"
  shows "snapshot_stream d (map (Pair p) is) = Inr (concat (map (chunk_at fs) is))"
  using assms(2)
proof (induction "is")
  case (Cons i "is")
  then obtain b where "map_of fs i = Some b" by fastforce
  with Cons show ?case by (simp add: read_file_simps [OF assms(1)] chunk_at_def)
qed simp

lemma total_size_ok:
  assumes "dir_lookup d p = Some fs" "\<And>i. i \<in> set is \<Longrightarrow> map_of fs i \<noteq> None" "0 \<le> acc"
    and "acc + sum_list (map (\<lambda>i. int (length (chunk_at fs i))) is) \<le> i64_max"
  shows "total_size d (map (Pair p) is) acc =
    Inr (acc + sum_list (map (\<lambda>i. int (length (chunk_at fs i))) is))"
  using assms(2-4)
proof (induction "is" arbitrary: acc)
  case (Cons i "is")
  then obtain b where b: "map_of fs i = Some b" by fastforce
  have "0 \<le> sum_list (map (\<lambda>i. int (length (chunk_at fs i))) is)"
    by (intro sum_list_nonneg) auto
  with Cons.prems b have "in_i64 (acc + int (length b))"
    by (simp add: i64_defs chunk_at_def)
  with b Cons.prems Cons.IH [of "acc + int (length b)"] show ?case
    by (simp add: read_file_simps [OF assms(1)] chunk_at_def checked_add64_def algebra_simps)
qed simp

text \<open>What a row promises about the disk.\<close>

definition intact :: "crates \<Rightarrow> string \<Rightarrow> disk \<Rightarrow> string \<Rightarrow> string \<Rightarrow> int \<Rightarrow> int \<Rightarrow> bool" where
  "intact X root d handle hex n size_bytes \<longleftrightarrow>
     (\<exists>fs. dir_lookup d (snapshot_dir root handle hex) = Some fs \<and> whole fs n \<and> 0 \<le> n \<and>
        size_bytes = int (length (content fs n)) \<and> size_bytes \<le> i64_max \<and>
        digest X (content fs n) = ''sha256:'' @ hex)"

lemma chunk_paths_whole:
  assumes "dir_lookup d (snapshot_dir root handle hex) = Some fs" "whole fs n" "0 \<le> n"
    and "int (length (content fs n)) \<le> i64_max"
  shows "chunk_paths root handle hex n (int (length (content fs n))) d =
      Inr (map (Pair (snapshot_dir root handle hex)) [0..n - 1])"
    and "snapshot_stream d (map (Pair (snapshot_dir root handle hex)) [0..n - 1]) = Inr (content fs n)"
proof -
  have present: "\<And>i. i \<in> set [0..n - 1] \<Longrightarrow> map_of fs i \<noteq> None"
    using whole_map_of [OF assms(2)] by auto
  have "map int [0..<nat n] = [0..n - 1]" by (rule upto_upt [OF assms(3)])
  with whole_sort [OF assms(2)] total_size_ok [OF assms(1) present, of "[0..n - 1]" 0] assms
  show "chunk_paths root handle hex n (int (length (content fs n))) d =
      Inr (map (Pair (snapshot_dir root handle hex)) [0..n - 1])"
    by (simp add: chunk_paths_def chunk_paths_unchecked_def Let_def comp_def length_content)
  show "snapshot_stream d (map (Pair (snapshot_dir root handle hex)) [0..n - 1]) = Inr (content fs n)"
    using stream_content [OF assms(1) present, of "[0..n - 1]"] by (simp add: content_def)
qed

lemma chunk_paths_Inr:
  assumes "chunk_paths root handle hex n size_bytes d = Inr paths"
  obtains fs where "dir_lookup d (snapshot_dir root handle hex) = Some fs" "whole fs n" "0 \<le> n"
    "paths = map (Pair (snapshot_dir root handle hex)) [0..n - 1]"
    "total_size d paths 0 = Inr size_bytes"
proof -
  let ?p = "snapshot_dir root handle hex"
  obtain fs where fs: "dir_lookup d ?p = Some fs"
    and ps: "paths = map (Pair ?p) (sort (map fst fs))"
    and n: "int (length fs) = n"
    and c: "map snd paths = map int [0..<length (map snd paths)]"
    and t: "total_size d paths 0 = Inr size_bytes"
    using assms
    by (auto simp: chunk_paths_def chunk_paths_unchecked_def Let_def comp_def
        split: option.splits if_splits)
  from ps c have "sort (map fst fs) = map int [0..<length fs]" by (simp add: comp_def)
  then have s: "sort (map fst fs) = [0..n - 1]"
    using upto_upt [of n] n by auto
  have "distinct (sort (map fst fs))" "set (sort (map fst fs)) = {0..<n}" unfolding s by auto
  then have "whole fs n" by (simp add: whole_def)
  with fs ps t n s show ?thesis by (intro that) auto
qed

text \<open>The row is intact exactly when its paths are served and the bytes have its digest.\<close>

lemma total_size_sum:
  "dir_lookup d p = Some fs \<Longrightarrow> total_size d (map (Pair p) is) acc = Inr t \<Longrightarrow>
     t = acc + sum_list (map (\<lambda>i. int (length (chunk_at fs i))) is) \<and> (is \<noteq> [] \<longrightarrow> in_i64 t)"
proof (induction "is" arbitrary: acc)
  case (Cons i "is")
  then obtain b where b: "map_of fs i = Some b" "in_i64 (acc + int (length b))"
    "total_size d (map (Pair p) is) (acc + int (length b)) = Inr t"
    by (auto simp: read_file_simps checked_add64_def split: option.splits)
  from Cons.IH [OF Cons.prems(1) b(3)] b show ?case
    by (cases "is") (auto simp: chunk_at_def)
qed simp

lemma intact_iff:
  "intact X root d handle hex n size_bytes \<longleftrightarrow>
     (\<exists>paths. chunk_paths root handle hex n size_bytes d = Inr paths \<and>
        digest_paths X paths d = Inr (''sha256:'' @ hex))"
proof
  assume "intact X root d handle hex n size_bytes"
  then show "\<exists>paths. chunk_paths root handle hex n size_bytes d = Inr paths \<and>
        digest_paths X paths d = Inr (''sha256:'' @ hex)"
    unfolding intact_def digest_paths_def by (auto simp: chunk_paths_whole)
next
  assume "\<exists>paths. chunk_paths root handle hex n size_bytes d = Inr paths \<and>
        digest_paths X paths d = Inr (''sha256:'' @ hex)"
  then obtain paths where p: "chunk_paths root handle hex n size_bytes d = Inr paths"
    and g: "digest_paths X paths d = Inr (''sha256:'' @ hex)" by blast
  from p obtain fs where fs: "dir_lookup d (snapshot_dir root handle hex) = Some fs" "whole fs n" "0 \<le> n"
    "paths = map (Pair (snapshot_dir root handle hex)) [0..n - 1]" "total_size d paths 0 = Inr size_bytes"
    by (rule chunk_paths_Inr)
  then have s: "size_bytes = int (length (content fs n))" "[0..n - 1] \<noteq> [] \<longrightarrow> in_i64 size_bytes"
    using total_size_sum [of d _ fs "[0..n - 1]" 0 size_bytes] by (auto simp: length_content)
  have m: "size_bytes \<le> i64_max"
    using s by (cases "[0..n - 1] = []") (auto simp: content_def i64_defs)
  have "snapshot_stream d paths = Inr (content fs n)"
    using chunk_paths_whole(2) [OF fs(1-3)] s m fs(4) by simp
  with g fs s m show "intact X root d handle hex n size_bytes"
    by (auto simp: intact_def digest_paths_def)
qed

lemma intact_frame:
  "dir_lookup d' (snapshot_dir root handle hex) = dir_lookup d (snapshot_dir root handle hex) \<Longrightarrow>
     intact X root d' handle hex n b = intact X root d handle hex n b"
  by (simp add: intact_def)

section \<open>What arrived\<close>

lemma take_fault_same: "take_fault w = (f, w') \<Longrightarrow> same_data w w'"
  by (simp add: same_data_def)

text \<open>Reads under any schedule: the data stays, and what they report was on the disk.\<close>

lemma chunk_length_spec:
  assumes "chunk_length p i w = (r, w')"
  shows "same_data w w' \<and>
    (r = Inr None \<or> (\<exists>b. read_file (disk w) p i = Some b \<and> r = Inr (Some (int (length b)))))"
proof -
  obtain f w1 where f: "take_fault w = (f, w1)" by (cases "take_fault w")
  with assms show ?thesis
    by (auto simp: chunk_length_def take_fault_same split: option.splits)
qed

definition size_at :: "disk \<Rightarrow> path \<Rightarrow> int \<Rightarrow> int" where
  "size_at d p i = (case read_file d p i of Some b \<Rightarrow> int (length b) | None \<Rightarrow> 0)"

definition add_size :: "disk \<Rightarrow> path \<Rightarrow> int \<Rightarrow> int \<Rightarrow> int" where
  "add_size d p i t = wrap64 (t + size_at d p i)"

lemma extend_gap_nonempty [simp]: "extend_gap i m \<noteq> []"
  by (simp add: extend_gap_def)

lemma arrival_step_spec:
  assumes "arrival_step p i acc w = (r, w')"
  shows "same_data w w' \<and> (\<exists>t m. r = Inr (t, m) \<and>
    (m = [] \<longrightarrow> snd acc = [] \<and> read_file (disk w) p i \<noteq> None \<and> t = add_size (disk w) p i (fst acc)))"
proof -
  obtain q w1 where c: "chunk_length p i w = (q, w1)" by (cases "chunk_length p i w")
  from chunk_length_spec [OF c] c assms show ?thesis
    by (auto simp: arrival_step_def bindE_run returnE_run add_size_def size_at_def)
qed

lemma arrival_fold_spec:
  "foldE (arrival_step p) is acc w = (r, w') \<Longrightarrow>
     same_data w w' \<and> (\<exists>t m. r = Inr (t, m) \<and>
       (m = [] \<longrightarrow> snd acc = [] \<and> (\<forall>i \<in> set is. read_file (disk w) p i \<noteq> None) \<and>
          t = fold (add_size (disk w) p) is (fst acc)))"
proof (induction "is" arbitrary: acc w)
  case Nil
  then show ?case by (cases acc) (auto simp: returnE_run)
next
  case (Cons i "is")
  obtain q w1 where s: "arrival_step p i acc w = (q, w1)" by (cases "arrival_step p i acc w")
  from arrival_step_spec [OF s] obtain t1 m1 where q: "q = Inr (t1, m1)" "same_data w w1"
    "m1 = [] \<longrightarrow> snd acc = [] \<and> read_file (disk w) p i \<noteq> None \<and> t1 = add_size (disk w) p i (fst acc)"
    by blast
  from Cons.prems s q have "foldE (arrival_step p) is (t1, m1) w1 = (r, w')"
    by (simp add: bindE_run)
  from Cons.IH [OF this] q show ?case
    by (auto simp: same_data_def)
qed

lemma arrival_spec:
  assumes "arrival root uid n w = (r, w')"
  shows "same_data w w' \<and> (\<exists>t m. r = Inr (t, m) \<and>
    (m = [] \<longrightarrow> (\<forall>i \<in> {0..<n}. read_file (disk w) (incoming_dir root uid) i \<noteq> None) \<and>
       t = fold (add_size (disk w) (incoming_dir root uid)) [0..n - 1] 0))"
  using arrival_fold_spec [OF assms [unfolded arrival_def]] by auto

text \<open>The wrap-around does not occur while the sum stays below the maximum.\<close>

lemma fold_add_size:
  "0 \<le> t \<Longrightarrow> t + sum_list (map (size_at d p) is) \<le> i64_max \<Longrightarrow>
     fold (add_size d p) is t = t + sum_list (map (size_at d p) is)"
proof (induction "is" arbitrary: t)
  case (Cons i "is")
  have p: "0 \<le> size_at d p i" "0 \<le> sum_list (map (size_at d p) is)"
    by (auto simp: size_at_def intro!: sum_list_nonneg split: option.splits)
  with Cons.prems have "add_size d p i t = t + size_at d p i"
    by (simp add: add_size_def i64_defs)
  with Cons p show ?case by simp
qed simp

subsection \<open>The gaps, when no access fails\<close>

definition covered :: "(int \<times> int) list \<Rightarrow> int set" where
  "covered m = (\<Union>(a, b) \<in> set m. {a..b})"

text \<open>Inclusive ranges in order, none empty, no two of them adjacent or overlapping.\<close>

fun ranges_ok :: "(int \<times> int) list \<Rightarrow> bool" where
  "ranges_ok [] \<longleftrightarrow> True"
| "ranges_ok [(a, b)] \<longleftrightarrow> a \<le> b"
| "ranges_ok ((a, b) # (c, d) # m) \<longleftrightarrow> a \<le> b \<and> b + 1 < c \<and> ranges_ok ((c, d) # m)"

lemma covered_append [simp]: "covered (m @ m') = covered m \<union> covered m'"
  by (auto simp: covered_def)

lemma covered_Cons [simp]: "covered ((a, b) # m) = {a..b} \<union> covered m"
  and covered_Nil [simp]: "covered [] = {}"
  by (auto simp: covered_def)

lemma ranges_ok_snoc:
  "ranges_ok (m @ [(a, b)]) \<longleftrightarrow> ranges_ok m \<and> a \<le> b \<and> (m \<noteq> [] \<longrightarrow> snd (last m) + 1 < a)"
  by (induction m rule: ranges_ok.induct) auto

lemma extend_gap_ok:
  assumes "ranges_ok m" "\<And>x. x \<in> covered m \<Longrightarrow> x < i"
  shows "ranges_ok (extend_gap i m) \<and> covered (extend_gap i m) = insert i (covered m)"
proof (cases m rule: rev_cases)
  case (snoc m' r)
  obtain a b where r: "r = (a, b)" by (cases r)
  from assms(1) snoc r have ab: "a \<le> b" "ranges_ok m'" "m' \<noteq> [] \<longrightarrow> snd (last m') + 1 < a"
    by (simp_all add: ranges_ok_snoc)
  moreover have "b < i" using assms(2) [of b] snoc r ab by simp
  moreover have "ranges_ok ((m' @ [(a, b)]) @ [(i, i)]) \<longleftrightarrow> b + 1 < i"
    using assms(1) snoc r by (simp only: ranges_ok_snoc) simp
  ultimately show ?thesis
    using assms(1) snoc r by (auto simp: extend_gap_def ranges_ok_snoc)
qed (simp add: extend_gap_def)

lemma chunk_length_calm:
  "faults w = [] \<Longrightarrow> chunk_length p i w = (Inr (map_option (\<lambda>b. int (length b)) (read_file (disk w) p i)), w)"
  by (simp add: chunk_length_def run_simps)

lemma arrival_step_calm:
  "faults w = [] \<Longrightarrow> arrival_step p i acc w =
     (Inr (if read_file (disk w) p i = None then (fst acc, extend_gap i (snd acc))
       else (add_size (disk w) p i (fst acc), snd acc)), w)"
  by (auto simp: arrival_step_def bindE_run chunk_length_calm returnE_run add_size_def size_at_def
      split: option.splits)

lemma arrival_fold_calm:
  assumes "faults w = []" "sorted_wrt (<) is" "ranges_ok (snd acc)"
    "\<And>x i. x \<in> covered (snd acc) \<Longrightarrow> i \<in> set is \<Longrightarrow> x < i"
  shows "\<exists>t m. foldE (arrival_step p) is acc w = (Inr (t, m), w) \<and>
    t = fold (add_size (disk w) p) (filter (\<lambda>i. read_file (disk w) p i \<noteq> None) is) (fst acc) \<and>
    ranges_ok m \<and> covered m = covered (snd acc) \<union> {i \<in> set is. read_file (disk w) p i = None}"
  using assms(2-4)
proof (induction "is" arbitrary: acc)
  case Nil
  then show ?case by (cases acc) (simp add: returnE_run)
next
  case (Cons i "is")
  show ?case
  proof (cases "read_file (disk w) p i = None")
    case True
    let ?acc = "(fst acc, extend_gap i (snd acc))"
    have g: "ranges_ok (snd ?acc)" "covered (snd ?acc) = insert i (covered (snd acc))"
      using extend_gap_ok [of "snd acc" i] Cons.prems by auto
    have "\<And>x j. x \<in> covered (snd ?acc) \<Longrightarrow> j \<in> set is \<Longrightarrow> x < j"
      using Cons.prems g(2) by fastforce
    with Cons.IH [of ?acc] Cons.prems g True assms(1) show ?thesis
      by (auto simp: arrival_step_calm bindE_run)
  next
    case False
    let ?acc = "(add_size (disk w) p i (fst acc), snd acc)"
    from Cons.IH [of ?acc] Cons.prems False assms(1) show ?thesis
      by (auto simp: arrival_step_calm bindE_run)
  qed
qed

lemma sorted_upto_strict: "sorted_wrt (<) [a..b :: int]"
  by (induction a b rule: upto.induct) (subst upto.simps, auto)

lemma arrival_calm:
  assumes "faults w = []"
  obtains t m where "arrival root uid n w = (Inr (t, m), w)" "ranges_ok m"
    "covered m = {i. 0 \<le> i \<and> i < n \<and> read_file (disk w) (incoming_dir root uid) i = None}"
    "t = fold (add_size (disk w) (incoming_dir root uid))
       (filter (\<lambda>i. read_file (disk w) (incoming_dir root uid) i \<noteq> None) [0..n - 1]) 0"
proof -
  from arrival_fold_calm [OF assms sorted_upto_strict, of "(0, [])" 0 "n - 1" "incoming_dir root uid"]
  obtain t m where a: "arrival root uid n w = (Inr (t, m), w)"
    "t = fold (add_size (disk w) (incoming_dir root uid))
       (filter (\<lambda>i. read_file (disk w) (incoming_dir root uid) i \<noteq> None) [0..n - 1]) 0"
    "ranges_ok m" "covered m = {i \<in> set [0..n - 1]. read_file (disk w) (incoming_dir root uid) i = None}"
    unfolding arrival_def by auto
  from a(4) have "covered m = {i. 0 \<le> i \<and> i < n \<and> read_file (disk w) (incoming_dir root uid) i = None}"
    by auto
  with a(1-3) show ?thesis by (intro that)
qed

section \<open>The digest of what arrived\<close>

lemma digest_step_spec:
  assumes "digest_step p i acc w = (r, w')"
  shows "same_data w w' \<and> (\<forall>x. r = Inr x \<longrightarrow> (\<exists>b. read_file (disk w) p i = Some b \<and> x = acc @ b))"
proof -
  obtain q w1 where s: "io_step ''read chunk'' w = (q, w1)" by (cases "io_step ''read chunk'' w")
  from io_step_same [OF s] s assms show ?thesis
    by (auto simp: digest_step_def bindE_run getE_run returnE_run throwE_run same_data_def
        split: option.splits)
qed

lemma digest_fold_spec:
  "foldE (digest_step p) is acc w = (r, w') \<Longrightarrow>
     same_data w w' \<and> (\<forall>x. r = Inr x \<longrightarrow> (\<forall>i \<in> set is. read_file (disk w) p i \<noteq> None) \<and>
       x = acc @ concat (map (\<lambda>i. case read_file (disk w) p i of Some b \<Rightarrow> b | None \<Rightarrow> []) is))"
proof (induction "is" arbitrary: acc w)
  case Nil
  then show ?case by (auto simp: returnE_run)
next
  case (Cons i "is")
  obtain q w1 where s: "digest_step p i acc w = (q, w1)" by (cases "digest_step p i acc w")
  show ?case
  proof (cases q)
    case (Inl e)
    with Cons.prems s digest_step_spec [OF s] show ?thesis by (auto simp: bindE_run)
  next
    case (Inr x)
    with digest_step_spec [OF s] obtain b where b: "read_file (disk w) p i = Some b" "x = acc @ b"
      "same_data w w1" by auto
    from Cons.prems s Inr have "foldE (digest_step p) is x w1 = (r, w')" by (simp add: bindE_run)
    from Cons.IH [OF this] b show ?thesis by (auto simp: same_data_def)
  qed
qed

lemma digest_of_spec:
  assumes "digest_of X root uid n w = (r, w')"
  shows "same_data w w' \<and>
    (\<forall>x fs. r = Inr x \<longrightarrow> dir_lookup (disk w) (incoming_dir root uid) = Some fs \<longrightarrow> x = digest X (content fs n))"
proof -
  let ?p = "incoming_dir root uid"
  obtain q w1 where s: "foldE (digest_step ?p) [0..n - 1] [] w = (q, w1)"
    by (cases "foldE (digest_step ?p) [0..n - 1] [] w")
  from digest_fold_spec [OF s] s assms show ?thesis
    by (auto simp: digest_of_def bindE_run returnE_run content_def chunk_at_def[abs_def]
        read_file_simps split: sum.splits)
qed

section \<open>Changing the disk\<close>

text \<open>\<open>same_store\<close>: only the disk and the fault schedule moved.\<close>

definition same_store :: "world \<Rightarrow> world \<Rightarrow> bool" where
  "same_store w w' \<longleftrightarrow> store w' = store w \<and> epoch w' = epoch w"

text \<open>Only the directory \<open>p\<close> may differ.\<close>

definition only_at :: "path \<Rightarrow> disk \<Rightarrow> disk \<Rightarrow> bool" where
  "only_at p d d' \<longleftrightarrow> (\<forall>q. q \<noteq> p \<longrightarrow> dir_lookup d' q = dir_lookup d q)"

text \<open>The directory \<open>p\<close> lost entries, or is gone.\<close>

definition shrunk :: "path \<Rightarrow> disk \<Rightarrow> disk \<Rightarrow> bool" where
  "shrunk p d d' \<longleftrightarrow> only_at p d d' \<and>
     (dir_lookup d' p = None \<or>
      (\<exists>fs n. dir_lookup d p = Some fs \<and> dir_lookup d' p = Some (drop n fs)))"

lemma only_at_refl [simp]: "only_at p d d"
  by (simp add: only_at_def)

lemma only_atD: "only_at p d d' \<Longrightarrow> q \<noteq> p \<Longrightarrow> dir_lookup d' q = dir_lookup d q"
  by (simp add: only_at_def)

lemma shrunk_refl [simp]: "shrunk p d d"
  by (cases "dir_lookup d p") (auto simp: shrunk_def intro: exI [of _ 0])

lemma shrunk_only_at: "shrunk p d d' \<Longrightarrow> only_at p d d'"
  by (simp add: shrunk_def)

lemma same_data_store: "same_data w w' \<Longrightarrow> same_store w w' \<and> disk w' = disk w"
  by (simp add: same_data_def same_store_def)

lemma same_store_refl [simp]: "same_store w w"
  by (simp add: same_store_def)

lemma same_store_trans: "same_store w w1 \<Longrightarrow> same_store w1 w2 \<Longrightarrow> same_store w w2"
  by (simp add: same_store_def)

lemma remove_dir_all_spec:
  assumes "remove_dir_all what p w = (r, w')"
  shows "same_store w w' \<and> shrunk p (disk w) (disk w') \<and>
    (\<forall>b. r = Inr b \<longrightarrow> dir_lookup (disk w') p = None)"
proof -
  obtain f w1 where f: "take_fault w = (f, w1)" by (cases "take_fault w")
  have w1: "store w1 = store w" "disk w1 = disk w" "epoch w1 = epoch w" using f by simp_all
  show ?thesis
  proof (cases f)
    case None
    with f w1 assms show ?thesis
      by (auto simp: remove_dir_all_def same_store_def shrunk_def only_at_def dirs.lookup_remove)
  next
    case (Some n)
    with f w1 assms show ?thesis
      by (cases "dir_lookup (disk w) p")
        (auto simp: remove_dir_all_def same_store_def shrunk_def only_at_def dirs.lookup_put)
  qed
qed

lemma sync_dir_spec: "sync_dir w = (r, w') \<Longrightarrow> same_data w w'"
  unfolding sync_dir_def using io_step_same by blast

lemma shrunk_data: "shrunk p d (disk w) \<Longrightarrow> same_data w w' \<Longrightarrow> shrunk p d (disk w')"
  by (simp add: same_data_def)

lemma removal_spec:
  assumes "bindE (remove_dir_all what p) (\<lambda>found. if found then sync_dir else returnE ()) w = (r, w')"
  shows "same_store w w' \<and> shrunk p (disk w) (disk w') \<and>
    (r = Inr () \<longrightarrow> dir_lookup (disk w') p = None)"
proof -
  obtain q w1 where m: "remove_dir_all what p w = (q, w1)" by (cases "remove_dir_all what p w")
  note s = remove_dir_all_spec [OF m]
  show ?thesis
  proof (cases q)
    case (Inl e)
    with m assms s show ?thesis by (auto simp: bindE_run)
  next
    case (Inr found)
    with m assms have "(if found then sync_dir else returnE ()) w1 = (r, w')" by (simp add: bindE_run)
    then have "same_data w1 w'"
      by (cases found) (auto simp: returnE_run dest: sync_dir_spec)
    with s Inr show ?thesis by (auto simp: same_data_def same_store_def)
  qed
qed

lemma discard_upload_spec:
  "discard_upload root uid w = (r, w') \<Longrightarrow>
     same_store w w' \<and> shrunk (incoming_dir root uid) (disk w) (disk w') \<and>
     (r = Inr () \<longrightarrow> dir_lookup (disk w') (incoming_dir root uid) = None)"
  unfolding discard_upload_def by (rule removal_spec)

lemma erase_blob_spec:
  "erase_blob root handle hex w = (r, w') \<Longrightarrow>
     same_store w w' \<and> shrunk (snapshot_dir root handle hex) (disk w) (disk w') \<and>
     (r = Inr () \<longrightarrow> dir_lookup (disk w') (snapshot_dir root handle hex) = None)"
  unfolding erase_blob_def by (rule removal_spec)

text \<open>The chain of accesses after a change: whatever they answer, the data stays.\<close>

definition quiet :: "'a op \<Rightarrow> bool" where
  "quiet m \<longleftrightarrow> (\<forall>w r w'. m w = (r, w') \<longrightarrow> same_data w w')"

lemma quietD: "quiet m \<Longrightarrow> m w = (r, w') \<Longrightarrow> same_data w w'"
  by (simp add: quiet_def)

lemma data_quiet:
  assumes "data_pred I" "quiet m" shows "keeps I m"
  unfolding keeps_def
proof (intro allI impI)
  fix w assume "I w"
  moreover have "same_data w (snd (m w))" using assms(2) prod.collapse [of "m w"] quietD by metis
  ultimately show "I (snd (m w))" using data_predD [OF assms(1)] by blast
qed

lemma quiet_io [simp]: "quiet (io_step t)" "quiet sync_dir"
  unfolding quiet_def using io_step_same sync_dir_spec by blast+

lemma quiet_query [simp]: "quiet (query f)" "quiet (select g)"
  unfolding quiet_def using query_same select_same by blast+

lemma quiet_pure [simp]: "quiet (returnE x)" "quiet (throwE e)" "quiet (liftE v)" "quiet (getE h)"
  by (auto simp: quiet_def run_simps)

lemma quiet_bind: "quiet m \<Longrightarrow> (\<And>x. quiet (f x)) \<Longrightarrow> quiet (bindE m f)"
  unfolding quiet_def by (fastforce simp: bindE_run same_data_def split: prod.splits sum.splits)

lemma quiet_if: "quiet m \<Longrightarrow> quiet m' \<Longrightarrow> quiet (if b then m else m')"
  by simp

lemma quiet_match: "quiet m \<Longrightarrow> (\<And>e. quiet (h e)) \<Longrightarrow> (\<And>x. quiet (f x)) \<Longrightarrow> quiet (matchE m h f)"
  unfolding quiet_def by (fastforce simp: matchE_run same_data_def split: prod.splits sum.splits)

lemma quiet_fold: "(\<And>x acc. quiet (f x acc)) \<Longrightarrow> quiet (foldE f xs acc)"
  by (induction xs arbitrary: acc) (auto intro: quiet_bind)

lemma quiet_inspect [simp]: "quiet (inspect f)"
  unfolding inspect_def by (rule quiet_bind) (auto simp: quiet_def dest: io_step_same)

lemma inspect_Inr: "inspect f w = (Inr x, w') \<Longrightarrow> f (disk w) = Inr x"
  unfolding inspect_def by (cases rule: io_step_cases [of "''read snapshot directory''" w]) (auto simp: bindE_run)

lemmas quiet_rules = quiet_bind quiet_match quiet_fold quiet_if

section \<open>A chunk write\<close>

text \<open>
  Nothing that is there changes; what may appear is the chunk itself, up to the byte a fault
  stopped it at.
\<close>

definition chunk_added :: "path \<Rightarrow> int \<Rightarrow> bytes \<Rightarrow> disk \<Rightarrow> disk \<Rightarrow> bool" where
  "chunk_added p i bytes d d' \<longleftrightarrow> only_at p d d' \<and>
     (dir_lookup d' p = dir_lookup d p \<or>
      (\<exists>fs k. dir_lookup d p = Some fs \<and> map_of fs i = None \<and>
         dir_lookup d' p = Some (AList.update i (take k bytes) fs)))"

lemma create_chunk_spec:
  assumes "create_chunk p i w = (r, w')"
  shows "same_store w w' \<and>
    (disk w' = disk w \<and> r \<noteq> Inr () \<or>
     (\<exists>fs. dir_lookup (disk w) p = Some fs \<and> disk w' = dir_put p (AList.update i [] fs) (disk w)))"
proof -
  obtain q w1 where s: "io_step ''create chunk'' w = (q, w1)" by (cases "io_step ''create chunk'' w")
  from io_step_same [OF s] s assms show ?thesis
    by (auto simp: create_chunk_def bindE_run getE_run throwE_run set_disk_def modifyE_run
        same_data_def same_store_def split: option.splits)
qed

lemma write_bytes_spec:
  assumes "write_bytes p i bytes w = (r, w')"
  shows "same_store w w' \<and>
    (dir_lookup (disk w) p = None \<and> r \<noteq> Inr () \<and> disk w' = disk w \<or>
     (\<exists>fs k. dir_lookup (disk w) p = Some fs \<and>
        disk w' = dir_put p (AList.update i (take k bytes) fs) (disk w) \<and>
        (r = Inr () \<longrightarrow> take k bytes = bytes)))"
proof -
  obtain f w1 where f: "take_fault w = (f, w1)" by (cases "take_fault w")
  have w1: "store w1 = store w" "disk w1 = disk w" "epoch w1 = epoch w" using f by simp_all
  show ?thesis
  proof (cases f)
    case None
    with f w1 assms show ?thesis
      by (auto simp: write_bytes_def same_store_def Let_def intro!: exI [of _ "length bytes"]
          split: option.splits)
  next
    case (Some n)
    with f w1 assms show ?thesis
      by (auto simp: write_bytes_def same_store_def Let_def intro!: exI [of _ n] split: option.splits)
  qed
qed

lemma update_twice: "AList.update i x (AList.update i y fs) = AList.update i x fs"
  by (induction fs) auto

lemma write_chunk_spec:
  assumes "write_chunk root uid i bytes w = (r, w')"
  shows "same_store w w' \<and> chunk_added (incoming_dir root uid) i bytes (disk w) (disk w') \<and>
    (r = Inr () \<longrightarrow> read_file (disk w') (incoming_dir root uid) i = Some bytes)"
proof -
  let ?p = "incoming_dir root uid"
  let ?rest = "bindE (create_chunk ?p i) (\<lambda>_. bindE (write_bytes ?p i bytes)
    (\<lambda>_. bindE (io_step ''sync chunk'') (\<lambda>_. sync_dir)))"
  obtain q w1 where s: "io_step ''read existing chunk'' w = (q, w1)" by (cases "io_step ''read existing chunk'' w")
  note d1 = io_step_same [OF s]
  show ?thesis
  proof (cases "q = Inr () \<and> read_file (disk w) ?p i = None")
    case False
    with d1 s assms show ?thesis
      by (auto simp: write_chunk_def Let_def bindE_run getE_run returnE_run throwE_run
          same_data_def same_store_def chunk_added_def split: option.splits if_splits)
  next
    case True
    with s assms d1 have run: "?rest w1 = (r, w')"
      by (auto simp: write_chunk_def Let_def bindE_run getE_run same_data_def)
    obtain qc wc where c: "create_chunk ?p i w1 = (qc, wc)" by (cases "create_chunk ?p i w1")
    note cs = create_chunk_spec [OF c]
    show ?thesis
    proof (cases qc)
      case (Inl e)
      with run c cs d1 True show ?thesis
        by (auto simp: bindE_run same_data_def same_store_def chunk_added_def only_at_def read_file_def
            dirs.lookup_put intro!: exI [of _ 0])
    next
      case (Inr u)
      with cs d1 obtain fs where fs: "dir_lookup (disk w) ?p = Some fs"
        "disk wc = dir_put ?p (AList.update i [] fs) (disk w)" "same_store w wc"
        by (auto simp: same_data_def same_store_def)
      have none: "map_of fs i = None" using True fs(1) by (simp add: read_file_def)
      obtain qb wb where b: "write_bytes ?p i bytes wc = (qb, wb)" by (cases "write_bytes ?p i bytes wc")
      have look: "dir_lookup (disk wc) ?p = Some (AList.update i [] fs)" using fs(2) by simp
      have "\<exists>k. disk wb = dir_put ?p (AList.update i (take k bytes) (AList.update i [] fs)) (disk wc) \<and>
          (qb = Inr () \<longrightarrow> take k bytes = bytes) \<and> same_store wc wb"
        using write_bytes_spec [OF b] unfolding look by blast
      then obtain k where raw: "disk wb = dir_put ?p (AList.update i (take k bytes) (AList.update i [] fs)) (disk wc)"
        "qb = Inr () \<longrightarrow> take k bytes = bytes" "same_store wc wb" by blast
      then have k: "dir_lookup (disk wb) ?p = Some (AList.update i (take k bytes) fs)"
        "only_at ?p (disk w) (disk wb)" "same_store w wb"
        using fs by (simp_all add: update_twice only_at_def dirs.lookup_put same_store_def)
      have tail: "bindE (io_step ''sync chunk'') (\<lambda>_. sync_dir) wb = (r, w') \<and> qb = Inr () \<or>
          (\<exists>e. qb = Inl e \<and> r = Inl e \<and> w' = wb)"
        using run c Inr b by (cases qb) (auto simp: bindE_run)
      have "same_data wb w'"
        using tail quietD [OF quiet_bind [OF quiet_io(1), of "\<lambda>_. sync_dir"]] by auto
      with k raw(2) fs none tail show ?thesis
        by (auto simp: same_data_def same_store_def chunk_added_def only_at_def read_file_def
            update_conv')
    qed
  qed
qed

section \<open>Placing an upload\<close>

definition moved :: "path \<Rightarrow> path \<Rightarrow> disk \<Rightarrow> disk \<Rightarrow> bool" where
  "moved p q d d' \<longleftrightarrow> (\<exists>fs. dir_lookup d p = Some fs \<and> dir_lookup d q = None \<and>
     dir_lookup d' q = Some fs \<and> dir_lookup d' p = None \<and>
     (\<forall>s. s \<noteq> p \<longrightarrow> s \<noteq> q \<longrightarrow> dir_lookup d' s = dir_lookup d s))"

lemma dir_move_moved:
  "dir_lookup d p = Some fs \<Longrightarrow> dir_lookup d q = None \<Longrightarrow> p \<noteq> q \<Longrightarrow> moved p q d (dir_move p q d)"
  by (auto simp: moved_def dirs.move_target dirs.move_source dirs.move_frame)

text \<open>The branch that finds the destination in place.\<close>

definition adopt_existing ::
  "crates \<Rightarrow> string \<Rightarrow> string \<Rightarrow> string \<Rightarrow> string \<Rightarrow> int \<Rightarrow> int \<Rightarrow> unit op" where
  "adopt_existing X root uid handle hex n b =
     bindE (matchE (inspect (chunk_paths root handle hex n b))
        (\<lambda>e. throwE (if e = Err RetentionExpired
           then internal ''existing snapshot destination is incomplete'' else e)) returnE) (\<lambda>paths.
     bindE (inspect (digest_paths X paths)) (\<lambda>actual.
       if actual \<noteq> ''sha256:'' @ hex then throwE (internal ''existing snapshot bytes do not match their digest'')
       else discard_upload root uid))"

lemma adopt_existing_spec:
  assumes "adopt_existing X root uid handle hex n b w = (r, w')"
  shows "same_store w w' \<and> shrunk (incoming_dir root uid) (disk w) (disk w') \<and>
    (r = Inr () \<longrightarrow> intact X root (disk w) handle hex n b)"
proof -
  let ?first = "matchE (inspect (chunk_paths root handle hex n b))
        (\<lambda>e. throwE (if e = Err RetentionExpired
           then internal ''existing snapshot destination is incomplete'' else e)) returnE"
  obtain q w1 where 1: "?first w = (q, w1)" by (cases "?first w")
  have d1: "same_data w w1" using quietD [of ?first w q w1] 1 by (simp add: quiet_match)
  show ?thesis
  proof (cases q)
    case (Inl e)
    with assms 1 d1 show ?thesis
      by (auto simp: adopt_existing_def bindE_run same_data_def same_store_def)
  next
    case (Inr paths)
    obtain q2 w2 where 2: "inspect (digest_paths X paths) w1 = (q2, w2)"
      by (cases "inspect (digest_paths X paths) w1")
    have d2: "same_data w1 w2" using quietD [of _ w1 q2 w2, OF quiet_inspect] 2 by simp
    have paths: "chunk_paths root handle hex n b (disk w) = Inr paths"
      using 1 Inr by (auto simp: matchE_run returnE_run throwE_run inspect_Inr split: prod.splits sum.splits)
    show ?thesis
    proof (cases "q2 = Inr (''sha256:'' @ hex)")
      case True
      with 1 2 Inr assms have "discard_upload root uid w2 = (r, w')"
        by (simp add: adopt_existing_def bindE_run)
      moreover have "digest_paths X paths (disk w) = Inr (''sha256:'' @ hex)"
        using inspect_Inr [of "digest_paths X paths" w1] 2 True d1 by (simp add: same_data_def)
      then have "intact X root (disk w) handle hex n b" using paths by (auto simp: intact_iff)
      ultimately show ?thesis
        using discard_upload_spec [of root uid w2 r w'] d1 d2 by (auto simp: same_data_def same_store_def)
    next
      case False
      with 1 2 Inr assms d1 d2 show ?thesis
        by (auto simp: adopt_existing_def bindE_run throwE_run same_data_def same_store_def
            split: sum.splits)
    qed
  qed
qed

text \<open>The branch that renames.\<close>

definition rename_incoming :: "path \<Rightarrow> path \<Rightarrow> unit op" where
  "rename_incoming p q =
     bindE (sync_existing_dir p) (\<lambda>_. bindE (io_step ''commit upload'') (\<lambda>_.
     bindE (set_disk (dir_move p q)) (\<lambda>_. bindE sync_dir (\<lambda>_. bindE sync_dir (\<lambda>_. sync_dir)))))"

lemma rename_incoming_spec:
  assumes "rename_incoming p q w = (r, w')" "p \<noteq> q" "dir_lookup (disk w) q = None"
  shows "same_store w w' \<and> (disk w' = disk w \<and> r \<noteq> Inr () \<or> moved p q (disk w) (disk w'))"
proof -
  let ?before = "bindE (sync_existing_dir p) (\<lambda>_. io_step ''commit upload'')"
  let ?after = "bindE sync_dir (\<lambda>_. bindE sync_dir (\<lambda>_. sync_dir))"
  have split: "rename_incoming p q w = bindE ?before (\<lambda>_. bindE (set_disk (dir_move p q)) (\<lambda>_. ?after)) w"
    by (simp add: rename_incoming_def bindE_run split: prod.splits sum.splits)
  obtain rb wb where b: "?before w = (rb, wb)" by (cases "?before w")
  have "quiet ?before"
    unfolding sync_existing_dir_def by (intro quiet_rules) auto
  then have db: "same_data w wb" using b by (rule quietD)
  show ?thesis
  proof (cases rb)
    case (Inl e)
    with split b assms db show ?thesis by (auto simp: bindE_run same_data_def same_store_def)
  next
    case (Inr u)
    have found: "dir_lookup (disk w) p \<noteq> None"
    proof -
      obtain q1 w1 where 1: "sync_dir w = (q1, w1)" by (cases "sync_dir w")
      from sync_dir_spec [OF this] 1 b Inr show ?thesis
        by (auto simp: sync_existing_dir_def bindE_run getE_run throwE_run same_data_def
            split: sum.splits if_splits)
    qed
    let ?w = "wb\<lparr>disk := dir_move p q (disk wb)\<rparr>"
    have "?after ?w = (r, w')"
      using split b assms(1) Inr by (simp add: bindE_run set_disk_def modifyE_run)
    moreover have "quiet ?after" by (intro quiet_rules) auto
    ultimately have "same_data ?w w'" by (rule quietD [rotated])
    moreover have "moved p q (disk w) (dir_move p q (disk w))"
      using found assms(2,3) by (auto intro: dir_move_moved)
    ultimately show ?thesis using db by (auto simp: same_data_def same_store_def)
  qed
qed

lemma commit_blob_split:
  "commit_blob X root uid handle hex n b =
     bindE (io_step ''create holder dir'') (\<lambda>_.
     bindE (getE (\<lambda>w. dir_lookup (disk w) (snapshot_dir root handle hex))) (\<lambda>existing.
       if existing \<noteq> None then adopt_existing X root uid handle hex n b
       else rename_incoming (incoming_dir root uid) (snapshot_dir root handle hex)))"
  unfolding commit_blob_def adopt_existing_def rename_incoming_def Let_def by (rule refl)

lemma commit_blob_spec:
  assumes "commit_blob X root uid handle hex n b w = (r, w')"
  shows "same_store w w' \<and>
    (shrunk (incoming_dir root uid) (disk w) (disk w') \<and> (r = Inr () \<longrightarrow> intact X root (disk w) handle hex n b)
     \<or> moved (incoming_dir root uid) (snapshot_dir root handle hex) (disk w) (disk w'))"
proof -
  obtain q w1 where s: "io_step ''create holder dir'' w = (q, w1)" by (cases "io_step ''create holder dir'' w")
  note d1 = io_step_same [OF s]
  show ?thesis
  proof (cases q)
    case (Inl e)
    with s d1 assms show ?thesis
      by (auto simp: commit_blob_split bindE_run same_data_def same_store_def)
  next
    case (Inr u)
    show ?thesis
    proof (cases "dir_lookup (disk w) (snapshot_dir root handle hex) = None")
      case True
      with Inr s d1 assms have "rename_incoming (incoming_dir root uid) (snapshot_dir root handle hex) w1 = (r, w')"
        by (auto simp: commit_blob_split bindE_run getE_run same_data_def)
      from rename_incoming_spec [OF this] True d1 show ?thesis
        by (auto simp: same_data_def same_store_def)
    next
      case False
      with Inr s d1 assms have "adopt_existing X root uid handle hex n b w1 = (r, w')"
        by (auto simp: commit_blob_split bindE_run getE_run same_data_def)
      from adopt_existing_spec [OF this] d1 show ?thesis
        by (auto simp: same_data_def same_store_def)
    qed
  qed
qed

lemma begin_incoming_spec:
  assumes "begin_incoming root uid w = (r, w')" "dir_lookup (disk w) (incoming_dir root uid) = None"
  shows "same_store w w' \<and> only_at (incoming_dir root uid) (disk w) (disk w') \<and>
    (dir_lookup (disk w') (incoming_dir root uid) = Some [] \<or>
     dir_lookup (disk w') (incoming_dir root uid) = None \<and> r \<noteq> Inr ())"
proof -
  let ?p = "incoming_dir root uid"
  let ?after = "bindE sync_dir (\<lambda>_. bindE sync_dir (\<lambda>_. sync_dir))"
  obtain q w1 where s: "io_step ''create incoming dir'' w = (q, w1)" by (cases "io_step ''create incoming dir'' w")
  note d1 = io_step_same [OF s]
  show ?thesis
  proof (cases q)
    case (Inl e)
    with s d1 assms show ?thesis
      by (auto simp: begin_incoming_def bindE_run same_data_def same_store_def)
  next
    case (Inr u)
    let ?w = "w1\<lparr>disk := create_dir_all ?p (disk w1)\<rparr>"
    have "?after ?w = (r, w')"
      using Inr s assms(1) by (simp add: begin_incoming_def bindE_run set_disk_def modifyE_run)
    moreover have "quiet ?after" by (intro quiet_rules) auto
    ultimately have "same_data ?w w'" by (rule quietD [rotated])
    with d1 assms(2) show ?thesis
      by (auto simp: same_data_def same_store_def create_dir_all_def only_at_def dirs.lookup_put)
  qed
qed

end
