(* ===== verification/Operator.thy ===== *)
theory Operator
  imports Sweep Disk_Facts
begin

text \<open>
  The operator as a whole: booting (\<open>main.rs\<close>), the step relation over requests, polls and
  sweeps under every fault schedule, and the interface \<open>request_invariant\<close> of a state
  predicate that every elementary change keeps.  The handlers, the poll and the sweep are proved
  once, against the interface, to keep any such predicate.

  A step is a whole handler.  A process that stops inside a handler is a schedule whose remaining
  accesses fail, except that a handler which continues after a failure (the removal of bytes
  after an erasure, the sweep) then also finds its later accesses failing.
\<close>

section \<open>Booting\<close>

definition boot_app :: "crates \<Rightarrow> instant \<Rightarrow> env \<Rightarrow> string + app" where
  "boot_app X now env =
     and_then (from_env X now env) (\<lambda>c.
     and_then (with_error ''could not build published documents'' (build_documents X c (signing_seed c))) (\<lambda>d.
       Inr \<lparr>lib = X, cfg = c, docs = d\<rparr>))"

definition boot :: "app \<Rightarrow> instant \<Rightarrow> unit op" where
  "boot A now =
     bindE (liftE (stamp (lib A) now)) (\<lambda>now_text.
     bindE (modifyE (\<lambda>w. w\<lparr>epoch := None\<rparr>)) (\<lambda>_.
     bindE (remember_boot_terms A now_text) (\<lambda>_.
       if revocation_url (cfg A) = None then returnE () else restore_epoch A)))"

section \<open>Steps and reachable states\<close>

definition blank :: world where
  "blank = \<lparr>store = empty_store, disk = [], epoch = None, faults = []\<rparr>"

definition with_faults :: "nat option list \<Rightarrow> world \<Rightarrow> world" where
  "with_faults fs w = w\<lparr>faults := fs\<rparr>"

text \<open>The identifiers a request draws are new.\<close>

definition fresh_ids :: "app \<Rightarrow> arrival_context \<Rightarrow> world \<Rightarrow> bool" where
  "fresh_ids A c w \<longleftrightarrow>
     (\<forall>u \<in> set (t_uploads (store w)). up_id u \<noteq> ctx_upload_id c) \<and>
     dir_lookup (disk w) (incoming_dir (blob_root (cfg A)) (ctx_upload_id c)) = None \<and>
     inj (ctx_receipt_ids c) \<and> (\<forall>r \<in> set (t_receipts (store w)). rc_id r \<notin> range (ctx_receipt_ids c))"

inductive operates :: "crates \<Rightarrow> string \<Rightarrow> app \<Rightarrow> world \<Rightarrow> bool" for X root where
  Start: "boot_app X t env = Inr A \<Longrightarrow> blob_root (cfg A) = root \<Longrightarrow>
    boot A now (with_faults fs blank) = (Inr (), w) \<Longrightarrow> operates X root A w"
| Restart: "operates X root A w \<Longrightarrow> boot_app X t env = Inr B \<Longrightarrow> blob_root (cfg B) = root \<Longrightarrow>
    boot B now (with_faults fs w) = (Inr (), w') \<Longrightarrow> operates X root B w'"
| Serve: "operates X root A w \<Longrightarrow> fresh_ids A c w \<Longrightarrow>
    respond A req c (with_faults fs w) = (answer, w') \<Longrightarrow> operates X root A w'"
| Poll: "operates X root A w \<Longrightarrow> poll_epoch A fetched now (with_faults fs w) = (r, w') \<Longrightarrow>
    operates X root A w'"
| Tidy: "operates X root A w \<Longrightarrow> sweep_task A now (with_faults fs w) = (s, w') \<Longrightarrow>
    operates X root A w'"

inductive_cases operates_cases: "operates X root A w"

lemma boot_app_Inr: "boot_app X t env = Inr A \<Longrightarrow>
    lib A = X \<and> from_env X t env = Inr (cfg A) \<and> build_documents X (cfg A) (signing_seed (cfg A)) = Inr (docs A)"
  by (auto simp: boot_app_def)

lemma operates_lib: "operates X root A w \<Longrightarrow> lib A = X \<and> blob_root (cfg A) = root"
  by (induction rule: operates.induct) (auto dest: boot_app_Inr)

text \<open>
  A stretch of one process: no restart, and sweeps only at instants \<open>tidy\<close> allows.
\<close>

inductive runs :: "app \<Rightarrow> (instant \<Rightarrow> bool) \<Rightarrow> world \<Rightarrow> world \<Rightarrow> bool" for A tidy where
  Stays: "runs A tidy w w"
| Serves: "runs A tidy w w1 \<Longrightarrow> fresh_ids A c w1 \<Longrightarrow>
    respond A req c (with_faults fs w1) = (answer, w') \<Longrightarrow> runs A tidy w w'"
| Polls: "runs A tidy w w1 \<Longrightarrow> poll_epoch A fetched now (with_faults fs w1) = (r, w') \<Longrightarrow> runs A tidy w w'"
| Tidies: "runs A tidy w w1 \<Longrightarrow> tidy now \<Longrightarrow> sweep_task A now (with_faults fs w1) = (s, w') \<Longrightarrow>
    runs A tidy w w'"

lemma operates_runs: "runs A tidy w w' \<Longrightarrow> operates X root A w \<Longrightarrow> operates X root A w'"
  by (induction rule: runs.induct) (auto intro: operates.intros)

lemma with_faults_simps [simp]:
  "store (with_faults fs w) = store w" "disk (with_faults fs w) = disk w" "epoch (with_faults fs w) = epoch w"
  "faults (with_faults fs w) = fs"
  by (simp_all add: with_faults_def)

section \<open>Grants\<close>

text \<open>What preflight establishes of a grant, and what is on the disk for it.\<close>

definition grant_ok :: "upload_row \<Rightarrow> bool" where
  "grant_ok u \<longleftrightarrow>
     0 < up_size u \<and> in_i64 (up_size u) \<and> 0 < up_chunk_bytes u \<and> up_chunk_bytes u \<le> max_chunk_body_bytes \<and>
     up_chunk_count u = quot64 (wrap64 (up_size u + up_chunk_bytes u - 1)) (up_chunk_bytes u) \<and>
     (\<exists>hex. digest_hex (up_digest u) = Inr hex)"

definition incoming_ok :: "string \<Rightarrow> disk \<Rightarrow> upload_row \<Rightarrow> bool" where
  "incoming_ok root d u \<longleftrightarrow>
     (\<forall>fs. dir_lookup d (incoming_dir root (up_id u)) = Some fs \<longrightarrow>
        distinct (map fst fs) \<and>
        (\<forall>(i, b) \<in> set fs. 0 \<le> i \<and> i < up_chunk_count u \<and> int (length b) \<le> expected_chunk u i))"

definition grants_ok :: "string \<Rightarrow> world \<Rightarrow> bool" where
  "grants_ok root w \<longleftrightarrow>
     keyed up_id (t_uploads (store w)) \<and>
     (\<forall>u \<in> set (t_uploads (store w)). grant_ok u \<and> incoming_ok root (disk w) u)"

text \<open>The chunks a grant asks for: every size is positive, and they add up to the sealed size.\<close>

lemma quot64_pos: "0 < b \<Longrightarrow> 0 \<le> a \<Longrightarrow> quot64 a b = a div b"
  by (cases "a = 0") (auto simp: quot64_def)

lemma wrap64_overflow:
  assumes "i64_max < a" "a < i64_max + i64_max"
  shows "wrap64 a < 0"
proof -
  have "(a - i64_min) mod 18446744073709551616 = (a - i64_min - 18446744073709551616) mod 18446744073709551616"
    by (rule minus_mod_self2 [symmetric])
  also have "\<dots> = a - i64_min - 18446744073709551616"
    using assms by (intro mod_pos_pos_trivial) (simp_all add: i64_defs)
  finally show ?thesis using assms by (simp add: wrap64_def i64_defs)
qed

lemma quot64_neg: "a < 0 \<Longrightarrow> 0 < b \<Longrightarrow> quot64 a b \<le> 0"
  by (simp add: quot64_def pos_imp_zdiv_nonneg_iff)

lemma grant_count:
  assumes "grant_ok u" "0 < up_chunk_count u"
  shows "up_chunk_count u = (up_size u + up_chunk_bytes u - 1) div up_chunk_bytes u"
proof (cases "up_size u + up_chunk_bytes u - 1 \<le> i64_max")
  case True
  with assms have "wrap64 (up_size u + up_chunk_bytes u - 1) = up_size u + up_chunk_bytes u - 1"
    by (simp add: grant_ok_def i64_defs)
  with assms show ?thesis by (simp add: grant_ok_def quot64_pos)
next
  case False
  with assms(1) have "wrap64 (up_size u + up_chunk_bytes u - 1) < 0"
    by (intro wrap64_overflow) (auto simp: grant_ok_def i64_defs max_chunk_body_bytes_def)
  with assms show ?thesis by (auto simp: grant_ok_def dest: quot64_neg)
qed

lemma grant_span:
  assumes "grant_ok u" "0 < up_chunk_count u"
  shows "up_chunk_bytes u * (up_chunk_count u - 1) < up_size u"
    "up_size u \<le> up_chunk_bytes u * up_chunk_count u"
proof -
  let ?b = "up_chunk_bytes u" and ?a = "up_size u + up_chunk_bytes u - 1"
  have b: "0 < ?b" using assms(1) by (simp add: grant_ok_def)
  define q r where "q = ?a div ?b" and "r = ?a mod ?b"
  then have q: "up_chunk_count u = q" "?a = ?b * q + r" "0 \<le> r" "r < ?b"
    using b grant_count [OF assms] by simp_all
  then show "?b * (up_chunk_count u - 1) < up_size u" "up_size u \<le> ?b * up_chunk_count u"
    by (simp_all add: algebra_simps)
qed

lemma expected_chunk_grant:
  assumes "grant_ok u" "0 \<le> i" "i < up_chunk_count u"
  shows "expected_chunk u i =
      (if i = up_chunk_count u - 1 then up_size u - up_chunk_bytes u * (up_chunk_count u - 1)
       else up_chunk_bytes u)"
    "0 < expected_chunk u i" "expected_chunk u i \<le> up_chunk_bytes u"
proof -
  have c: "0 < up_chunk_count u" using assms by simp
  note s = grant_span [OF assms(1) c]
  have b: "0 < up_chunk_bytes u" "in_i64 (up_size u)" "0 < up_size u"
    using assms(1) by (auto simp: grant_ok_def)
  have "0 \<le> up_chunk_bytes u * (up_chunk_count u - 1)" using b c by simp
  then have "in_i64 (up_chunk_bytes u * (up_chunk_count u - 1))"
    "in_i64 (up_size u - up_chunk_bytes u * (up_chunk_count u - 1))"
    using s b by (auto simp: i64_defs)
  then show e: "expected_chunk u i =
      (if i = up_chunk_count u - 1 then up_size u - up_chunk_bytes u * (up_chunk_count u - 1)
       else up_chunk_bytes u)"
    by (simp add: expected_chunk_def)
  show "0 < expected_chunk u i" "expected_chunk u i \<le> up_chunk_bytes u"
    unfolding e using s b by (auto simp: algebra_simps)
qed

lemma sum_list_const: "sum_list (map (\<lambda>_. c) xs) = c * int (length xs)"
  by (induction xs) (auto simp: algebra_simps)

lemma expected_chunks_sum:
  assumes "grant_ok u" "0 < up_chunk_count u"
  shows "sum_list (map (expected_chunk u) [0..up_chunk_count u - 1]) = up_size u"
proof -
  let ?n = "up_chunk_count u"
  have "[0..?n - 1] = [0..?n - 2] @ [?n - 1]"
    using upto_rec2 [of 0 "?n - 1"] assms(2) by (simp add: algebra_simps)
  moreover have "map (expected_chunk u) [0..?n - 2] = map (\<lambda>_. up_chunk_bytes u) [0..?n - 2]"
    using expected_chunk_grant(1) [OF assms(1)] by (intro map_cong) auto
  ultimately have "sum_list (map (expected_chunk u) [0..?n - 1]) =
      sum_list (map (\<lambda>_. up_chunk_bytes u) [0..?n - 2]) + expected_chunk u (?n - 1)"
    by (simp only: map_append sum_list_append) simp
  also have "\<dots> = up_chunk_bytes u * (?n - 1) + expected_chunk u (?n - 1)"
    using assms(2) by (simp add: sum_list_const)
  also have "\<dots> = up_size u"
    using expected_chunk_grant(1) [OF assms(1), of "?n - 1"] assms(2) by (simp add: algebra_simps)
  finally show ?thesis .
qed

text \<open>So a complete incoming directory cannot overflow, and its size is the sum of its files.\<close>

lemma incoming_sizes:
  assumes "grant_ok u" "incoming_ok root d u" "dir_lookup d (incoming_dir root (up_id u)) = Some fs"
  shows "sum_list (map (size_at d (incoming_dir root (up_id u))) [0..up_chunk_count u - 1]) \<le> up_size u"
proof (cases "0 < up_chunk_count u")
  case True
  have "size_at d (incoming_dir root (up_id u)) i \<le> expected_chunk u i" if "i \<in> set [0..up_chunk_count u - 1]" for i
  proof (cases "map_of fs i")
    case None
    then show ?thesis
      using that expected_chunk_grant(2) [OF assms(1), of i] assms(3)
      by (simp add: size_at_def read_file_simps)
  next
    case (Some b)
    then have "(i, b) \<in> set fs" by (rule map_of_SomeD)
    with assms Some show ?thesis by (auto simp: incoming_ok_def size_at_def read_file_simps)
  qed
  then have "sum_list (map (size_at d (incoming_dir root (up_id u))) [0..up_chunk_count u - 1])
      \<le> sum_list (map (expected_chunk u) [0..up_chunk_count u - 1])"
    by (intro sum_list_mono)
  then show ?thesis using expected_chunks_sum [OF assms(1) True] by simp
qed (use assms(1) in \<open>simp add: grant_ok_def\<close>)

end
