(* ===== verification/Invariants.thy ===== *)
theory Invariants
  imports Operator
begin

text \<open>
  The interface \<open>request_invariant\<close>: a state predicate that every elementary change of the
  store and of the disk keeps, where \<open>ok\<close> bounds the holders whose rows may change.  Inside
  it every handler is shown to keep the predicate; \<open>operator_invariant\<close> adds the changes only
  the sweep makes.  The interpretations are in \<open>Soundness\<close>.
\<close>

section \<open>Changes outside the core tables\<close>

definition core_same :: "store \<Rightarrow> store \<Rightarrow> bool" where
  "core_same s s' \<longleftrightarrow> t_snapshots s' = t_snapshots s \<and> t_uploads s' = t_uploads s \<and>
     t_outcomes s' = t_outcomes s \<and> t_terms s' = t_terms s \<and> t_receipts s' = t_receipts s"

definition framed :: "(world \<Rightarrow> bool) \<Rightarrow> bool" where
  "framed J \<longleftrightarrow> (\<forall>w w'. J w \<longrightarrow> core_same (store w) (store w') \<longrightarrow> disk w' = disk w \<longrightarrow> J w')"

lemma framedD: "framed J \<Longrightarrow> J w \<Longrightarrow> core_same (store w) (store w') \<Longrightarrow> disk w' = disk w \<Longrightarrow> J w'"
  by (auto simp: framed_def)

lemma core_same_refl [simp]: "core_same s s"
  by (simp add: core_same_def)

lemma core_same_minor [simp]:
  "core_same s (snd (record_nonce h n t s))"
  "core_same s (snd (sweep_nonces X t s))"
  "core_same s (insert_entitlement h v a b c s)"
  "core_same s (snd (forget_lapse_state h s))"
  "core_same s (record_lapse_state h st s)"
  "core_same s (snd (sweep_entitlements X h t s))"
  "core_same s (snd (sweep_superseded_entitlements X t s))"
  "core_same s (insert_epoch number t doc s)"
  "core_same s (s\<lparr>t_epochs := es\<rparr>)"
  by (simp_all add: core_same_def record_nonce_def sweep_nonces_def insert_entitlement_def
      forget_lapse_state_def record_lapse_state_def sweep_entitlements_def
      sweep_superseded_entitlements_def insert_epoch_def Let_def)

lemma framed_data: "framed J \<Longrightarrow> data_pred J"
  unfolding data_pred_def same_data_def framed_def by (metis core_same_refl)

lemma framed_conj [intro]: "framed J \<Longrightarrow> framed K \<Longrightarrow> framed (\<lambda>w. J w \<and> K w)"
  by (auto simp: framed_def)

lemma framed_execute: "framed J \<Longrightarrow> (\<And>s. core_same s (snd (f s))) \<Longrightarrow> keeps J (execute f)"
  by (rule keeps_execute) (auto intro: framed_data framedD)

lemma framed_statement: "framed J \<Longrightarrow> (\<And>s. core_same s (f s)) \<Longrightarrow> keeps J (statement f)"
  unfolding statement_def by (rule framed_execute) auto

lemma framed_io: "framed J \<Longrightarrow> keeps J (io_step t)"
  and framed_query: "framed J \<Longrightarrow> keeps J (query f)"
  and framed_select: "framed J \<Longrightarrow> keeps J (select g)"
  by (auto intro: keeps_io_step keeps_query keeps_select framed_data)

lemma framed_register_entitlement: "framed J \<Longrightarrow> keeps J (register_entitlement X h v t)"
  unfolding register_entitlement_def
  by (intro valid_rules framed_statement framed_execute) auto

lemma framed_evaluate: "framed J \<Longrightarrow> keeps J (evaluate A who hs now)"
  unfolding evaluate_def by (intro valid_rules framed_register_entitlement framed_query)

lemma framed_require: "framed J \<Longrightarrow> keeps J (require A who hs operation now)"
  unfolding require_def by (intro valid_rules framed_evaluate)

lemma keeps_case_prod: "(\<And>x y. keeps I (g x y)) \<Longrightarrow> keeps I ((\<lambda>(x, y). g x y) q)"
  by (cases q) simp

lemma framed_authenticate: "framed J \<Longrightarrow> keeps J (authenticate A hs verb path body now)"
  unfolding authenticate_def
  by (intro valid_rules keeps_case_prod framed_execute) auto

lemma framed_inspect: "framed J \<Longrightarrow> keeps J (inspect f)"
  by (simp add: data_quiet framed_data)

lemma framed_quiet: "framed J \<Longrightarrow> quiet m \<Longrightarrow> keeps J m"
  by (simp add: data_quiet framed_data)

lemma quiet_arrival [simp]: "quiet (arrival root uid n)"
  unfolding quiet_def using arrival_spec by blast

lemma quiet_digest_of [simp]: "quiet (digest_of X root uid n)"
  unfolding quiet_def using digest_of_spec by blast

section \<open>Who a request acts for\<close>

definition claimed :: "app \<Rightarrow> headers \<Rightarrow> string option" where
  "claimed A hs =
     (case hs holder_header of
        None \<Rightarrow> None
      | Some reference \<Rightarrow>
          (case holder_key (lib A) reference of
             Inl _ \<Rightarrow> None | Inr key \<Rightarrow> Some (holder_handle (lib A) key)))"

lemma authenticate_claimed:
  assumes "authenticate A hs verb path body now w = (Inr who, w')"
  shows "claimed A hs = Some (h_handle who)"
  using assms by (rule authenticate_Inr) (auto dest!: request_proof_Inr simp: claimed_def)

text \<open>\<open>preserves P I m\<close>: \<open>I\<close> survives a run that starts with \<open>P\<close>.\<close>

definition preserves :: "('w \<Rightarrow> bool) \<Rightarrow> ('w \<Rightarrow> bool) \<Rightarrow> ('w, 'e, 'a) eff \<Rightarrow> bool" where
  "preserves P I m \<longleftrightarrow> (\<forall>w. I w \<longrightarrow> P w \<longrightarrow> I (snd (m w)))"

lemma keeps_preserves: "keeps I m \<Longrightarrow> preserves P I m"
  by (simp add: keeps_def preserves_def)

lemma preserves_True [simp]: "preserves (\<lambda>_. True) I m = keeps I m"
  by (simp add: keeps_def preserves_def)

lemma preservesD: "preserves P I m \<Longrightarrow> I w \<Longrightarrow> P w \<Longrightarrow> m w = (r, w') \<Longrightarrow> I w'"
  by (force simp: preserves_def)

lemma preserves_bind:
  assumes "preserves P I m"
    "\<And>w x w'. I w \<Longrightarrow> P w \<Longrightarrow> m w = (Inr x, w') \<Longrightarrow> Q x w'"
    "\<And>x. preserves (Q x) I (f x)"
  shows "preserves P I (bindE m f)"
  unfolding preserves_def
proof (intro allI impI)
  fix w assume w: "I w" "P w"
  obtain r w' where r: "m w = (r, w')" by (cases "m w")
  have I: "I w'" using assms(1) w r by (rule preservesD)
  show "I (snd (bindE m f w))"
  proof (cases r)
    case (Inr x)
    then have "Q x w'" using assms(2) w r by blast
    then show ?thesis using assms(3) I r Inr by (auto simp: bindE_run preserves_def)
  qed (use r I in \<open>simp add: bindE_run\<close>)
qed

lemma preserves_imp: "(\<And>w. P w \<Longrightarrow> R) \<Longrightarrow> (R \<Longrightarrow> preserves P I m) \<Longrightarrow> preserves P I m"
  by (auto simp: preserves_def)

lemma preserves_weaken: "preserves Q I m \<Longrightarrow> (\<And>w. P w \<Longrightarrow> Q w) \<Longrightarrow> preserves P I m"
  by (auto simp: preserves_def)

lemma preserves_kept_bind:
  assumes "keeps (\<lambda>w. I w \<and> P w) m" "\<And>x. preserves P I (f x)"
  shows "preserves P I (bindE m f)"
  using assms unfolding preserves_def keeps_def
  by (fastforce simp: bindE_run split: prod.splits sum.splits)

lemma preserves_lift_bind: "(\<And>x. v = Inr x \<Longrightarrow> preserves P I (f x)) \<Longrightarrow> preserves P I (bindE (liftE v) f)"
  by (auto simp: preserves_def bindE_run liftE_run split: sum.splits)

lemma preserves_option:
  "preserves P I n \<Longrightarrow> (\<And>x. preserves P I (f x)) \<Longrightarrow> preserves P I (case q of None \<Rightarrow> n | Some x \<Rightarrow> f x)"
  by (cases q) auto

lemma preserves_if: "preserves P I m \<Longrightarrow> preserves P I m' \<Longrightarrow> preserves P I (if b then m else m')"
  and preserves_throw: "preserves P I (throwE e)"
  and preserves_return: "preserves P I (returnE x)"
  by (simp_all add: preserves_def run_simps)

text \<open>After authentication the holder is the claimed one.\<close>

lemma keeps_authenticated:
  assumes "framed J" "\<And>who. claimed A hs = Some (h_handle who) \<Longrightarrow> keeps J (f who)"
  shows "keeps J (bindE (authenticate A hs verb path body now) f)"
proof -
  have "preserves (\<lambda>_. True) J (bindE (authenticate A hs verb path body now) f)"
  proof (rule preserves_bind [where Q = "\<lambda>who _. claimed A hs = Some (h_handle who)"])
    show "preserves (\<lambda>_. True) J (authenticate A hs verb path body now)"
      by (simp add: framed_authenticate assms(1))
    show "preserves (\<lambda>_. claimed A hs = Some (h_handle who)) J (f who)" for who
      using assms(2) by (auto simp: preserves_def keeps_def)
  qed (auto dest: authenticate_claimed)
  then show ?thesis by simp
qed

lemma preserves_authenticated:
  assumes "framed (\<lambda>w. I w \<and> P w)" "framed I"
    "\<And>who. claimed A hs = Some (h_handle who) \<Longrightarrow> preserves P I (f who)"
  shows "preserves P I (bindE (authenticate A hs verb path body now) f)"
proof (rule preserves_bind [where Q = "\<lambda>who w. claimed A hs = Some (h_handle who) \<and> P w"])
  let ?auth = "authenticate A hs verb path body now"
  show "preserves P I ?auth" by (intro keeps_preserves framed_authenticate assms)
  show "claimed A hs = Some (h_handle who) \<and> P w'" if "I w" "P w" "?auth w = (Inr who, w')" for w who w'
    using authenticate_claimed [OF that(3)] keepsD [OF framed_authenticate [OF assms(1)] _ that(3)] that by blast
  show "preserves (\<lambda>w. claimed A hs = Some (h_handle who) \<and> P w) I (f who)" for who
    using assms(3) by (auto simp: preserves_def)
qed

lemma upload_Some: "upload uid s = Some u \<Longrightarrow> u \<in> set (t_uploads s) \<and> up_id u = uid"
  by (auto simp: upload_def find_Some_iff)

lemma granted_upload_spec:
  assumes "granted_upload A hs verb path body now uid w = (Inr u, w')"
  shows "u \<in> set (t_uploads (store w')) \<and> up_id u = uid \<and> claimed A hs = Some (up_holder u) \<and>
    core_same (store w) (store w') \<and> disk w' = disk w"
proof -
  from assms obtain who w1 found w2 where
    a: "authenticate A hs verb path body now w = (Inr who, w1)"
    and s: "select (upload uid) w1 = (Inr found, w2)"
    and u: "found = Some u" "up_holder u = h_handle who" "w' = w2"
    unfolding granted_upload_def
    by (auto simp: bindE_Inr_iff liftE_def returnE_def throwE_def split: if_splits)
  from authenticate_claimed [OF a] select_same [OF s] u have
    "u \<in> set (t_uploads (store w'))" "up_id u = uid" "claimed A hs = Some (up_holder u)" "same_data w1 w'"
    by (auto simp: same_data_def dest: upload_Some [OF sym])
  moreover have "core_same (store w) (store w1)" "disk w1 = disk w"
    using a by (auto elim: authenticate_Inr)
  ultimately show ?thesis by (auto simp: same_data_def)
qed

lemma framed_granted_upload: "framed J \<Longrightarrow> keeps J (granted_upload A hs verb path body now uid)"
  unfolding granted_upload_def
  by (intro keeps_authenticated valid_rules framed_select)

text \<open>Responses that only read.\<close>

lemma framed_resume: "framed J \<Longrightarrow> keeps J (resume_grant A u n)"
  unfolding resume_grant_def by (intro valid_rules keeps_case_prod framed_quiet) auto

section \<open>Statements\<close>

lemma preserves_statement:
  assumes "framed I" "\<And>w w'. I w \<Longrightarrow> P w \<Longrightarrow> store w' = f (store w) \<Longrightarrow> disk w' = disk w \<Longrightarrow> I w'"
  shows "preserves P I (statement f)"
  unfolding preserves_def statement_def
proof (intro allI impI)
  fix w assume w: "I w" "P w"
  have "I w'" if "execute (\<lambda>s. ((), f s)) w = (r, w')" for r w'
    using execute_same [OF that] w assms by (auto dest: data_predD [OF framed_data])
  then show "I (snd (execute (\<lambda>s. ((), f s)) w))" by (metis prod.collapse)
qed

lemma preserves_execute:
  assumes "framed I" "\<And>w w'. I w \<Longrightarrow> P w \<Longrightarrow> store w' = snd (f (store w)) \<Longrightarrow> disk w' = disk w \<Longrightarrow> I w'"
  shows "preserves P I (execute f)"
  unfolding preserves_def
proof (intro allI impI)
  fix w assume w: "I w" "P w"
  have "I w'" if "execute f w = (r, w')" for r w'
    using execute_same [OF that] w assms by (auto dest: data_predD [OF framed_data])
  then show "I (snd (execute f w))" by (metis prod.collapse)
qed

lemma statement_Inr:
  "statement f w = (Inr u, w') \<Longrightarrow> store w' = f (store w) \<and> disk w' = disk w"
  unfolding statement_def by (drule execute_same) auto

section \<open>Verified uploads\<close>

definition complete_incoming :: "crates \<Rightarrow> string \<Rightarrow> disk \<Rightarrow> upload_row \<Rightarrow> bool" where
  "complete_incoming X root d u \<longleftrightarrow>
     (\<exists>fs. dir_lookup d (incoming_dir root (up_id u)) = Some fs \<and> whole fs (up_chunk_count u) \<and>
        0 \<le> up_chunk_count u \<and> int (length (content fs (up_chunk_count u))) = up_size u \<and>
        digest X (content fs (up_chunk_count u)) = up_digest u)"

lemma arrived_whole:
  assumes g: "grant_ok u" "incoming_ok root d u"
    and present: "\<forall>i \<in> {0..<up_chunk_count u}. read_file d (incoming_dir root (up_id u)) i \<noteq> None"
    and total: "fold (add_size d (incoming_dir root (up_id u))) [0..up_chunk_count u - 1] 0 = up_size u"
  obtains fs where "dir_lookup d (incoming_dir root (up_id u)) = Some fs" "whole fs (up_chunk_count u)"
    "0 < up_chunk_count u" "int (length (content fs (up_chunk_count u))) = up_size u"
proof -
  let ?p = "incoming_dir root (up_id u)" and ?n = "up_chunk_count u"
  have "[0..?n - 1] \<noteq> []" using total g(1) by (auto simp: grant_ok_def)
  then have n: "0 < ?n" by (simp add: upto_Nil2)
  then have "read_file d ?p 0 \<noteq> None" using present by simp
  then obtain fs where fs: "dir_lookup d ?p = Some fs"
    by (cases "dir_lookup d ?p") (auto simp: read_file_def)
  have "sum_list (map (size_at d ?p) [0..?n - 1]) \<le> up_size u" by (rule incoming_sizes [OF g fs])
  then have "0 + sum_list (map (size_at d ?p) [0..?n - 1]) \<le> i64_max"
    using g(1) by (simp add: grant_ok_def i64_defs)
  from total [unfolded fold_add_size [OF order.refl this]]
  have "up_size u = sum_list (map (size_at d ?p) [0..?n - 1])" by linarith
  also have "map (size_at d ?p) [0..?n - 1] = map (\<lambda>i. int (length (chunk_at fs i))) [0..?n - 1]"
    by (simp add: size_at_def chunk_at_def read_file_simps [OF fs] split: option.splits)
  finally have len: "int (length (content fs ?n)) = up_size u" by (simp add: length_content)
  have "fst ` set fs = {0..<?n}"
  proof
    show "fst ` set fs \<subseteq> {0..<?n}" using g(2) fs by (fastforce simp: incoming_ok_def)
    show "{0..<?n} \<subseteq> fst ` set fs"
      using present unfolding read_file_simps [OF fs] map_of_eq_None_iff by auto
  qed
  moreover have "distinct (map fst fs)" using g(2) fs by (auto simp: incoming_ok_def)
  ultimately show ?thesis using that fs n len by (auto simp: whole_def)
qed

lemma commit_verify_Inr:
  assumes "commit_verify A u w = (Inr hex, w')" "grant_ok u" "incoming_ok (blob_root (cfg A)) (disk w) u"
  shows "same_data w w' \<and> digest_hex (up_digest u) = Inr hex \<and>
    complete_incoming (lib A) (blob_root (cfg A)) (disk w) u"
proof -
  let ?root = "blob_root (cfg A)"
  obtain t m w1 where 1: "arrival ?root (up_id u) (up_chunk_count u) w = (Inr (t, m), w1)" and
    rest: "(if m \<noteq> [] then throwE (Err (UploadIncomplete m (up_chunk_count u)))
        else if t \<noteq> up_size u
        then bindE (abandon A (up_id u)) (\<lambda>_. throwE (Err DigestMismatch))
        else bindE (digest_of (lib A) ?root (up_id u) (up_chunk_count u)) (\<lambda>actual.
            if actual \<noteq> up_digest u
            then bindE (abandon A (up_id u)) (\<lambda>_. throwE (Err DigestMismatch))
            else liftE (digest_hex actual))) w1 = (Inr hex, w')"
    using assms(1) unfolding commit_verify_def Let_def by (auto elim!: bindE_Inr_E)
  then have m: "m = []" "t = up_size u"
    by (auto simp: bindE_Inr_iff throwE_def split: if_splits)
  with rest obtain w2 where 2: "digest_of (lib A) ?root (up_id u) (up_chunk_count u) w1 = (Inr (up_digest u), w2)"
    and h: "digest_hex (up_digest u) = Inr hex" "w' = w2"
    by (auto simp: bindE_Inr_iff throwE_def liftE_def split: if_splits)
  from arrival_spec [OF 1] m have a: "same_data w w1"
    "\<forall>i \<in> {0..<up_chunk_count u}. read_file (disk w) (incoming_dir ?root (up_id u)) i \<noteq> None"
    "fold (add_size (disk w) (incoming_dir ?root (up_id u))) [0..up_chunk_count u - 1] 0 = up_size u"
    by auto
  obtain fs where fs: "dir_lookup (disk w) (incoming_dir ?root (up_id u)) = Some fs"
    "whole fs (up_chunk_count u)" "0 < up_chunk_count u" "int (length (content fs (up_chunk_count u))) = up_size u"
    using arrived_whole [OF assms(2,3) a(2,3)] .
  with digest_of_spec [OF 2] a(1) h show ?thesis
    by (auto simp: complete_incoming_def same_data_def)
qed

lemma complete_moved_intact:
  assumes "complete_incoming X root d u" "grant_ok u" "digest_hex (up_digest u) = Inr hex"
    "moved (incoming_dir root (up_id u)) (snapshot_dir root h hex) d d'"
  shows "intact X root d' h hex (up_chunk_count u) (up_size u)"
  using assms by (auto simp: complete_incoming_def moved_def intact_def grant_ok_def i64_defs
      dest!: digest_hex_Inr)

text \<open>The quota admits a snapshot that is held already, or one more below the maximum.\<close>

definition admitted :: "app \<Rightarrow> upload_row \<Rightarrow> store \<Rightarrow> bool" where
  "admitted A u s \<longleftrightarrow> snapshot_exists (up_holder u) (up_digest u) s \<or>
     (\<exists>n b. usage (up_holder u) s = Inr (n, b) \<and> n < maximum_retained_snapshots (cfg A))"

lemma commit_quota_Inr: "commit_quota A u now w = (Inr (), w') \<Longrightarrow> same_data w w' \<and> admitted A u (store w)"
  unfolding commit_quota_def
  by (auto simp: bindE_Inr_iff returnE_def throwE_def liftE_def same_data_def admitted_def not_le split: if_splits
      dest!: select_same query_same dest: sym [of "Inr _" "usage h s" for h s])

text \<open>After the bytes were placed, they are what the grant promised.\<close>

lemma commit_blob_intact:
  assumes "commit_blob X root (up_id u) (up_holder u) hex (up_chunk_count u) (up_size u) w = (Inr (), w')"
    "complete_incoming X root (disk w) u" "grant_ok u" "digest_hex (up_digest u) = Inr hex"
  shows "store w' = store w \<and> intact X root (disk w') (up_holder u) hex (up_chunk_count u) (up_size u)"
  using commit_blob_spec [OF assms(1)] complete_moved_intact [OF assms(2-4)]
  by (auto simp: same_store_def shrunk_def only_at_def
      intact_frame [of "disk w'" root "up_holder u" hex "disk w"])

section \<open>Rows after an erasure\<close>

lemma fold_insert_receipt_tables [simp]:
  "t_snapshots (fold (insert_receipt h scope at) ms s) = t_snapshots s"
  "t_uploads (fold (insert_receipt h scope at) ms s) = t_uploads s"
  "t_terms (fold (insert_receipt h scope at) ms s) = t_terms s"
  "t_outcomes (fold (insert_receipt h scope at) ms s) = t_outcomes s"
  by (induction ms arbitrary: s) (simp_all add: insert_receipt_def)

lemma fold_mark_erased_tables [simp]:
  "t_uploads (fold (mark_erased h at) ds s) = t_uploads s"
  "t_terms (fold (mark_erased h at) ds s) = t_terms s"
  "t_receipts (fold (mark_erased h at) ds s) = t_receipts s"
  "t_outcomes (fold (mark_erased h at) ds s) = t_outcomes s"
  "t_coverage (fold (mark_erased h at) ds s) = t_coverage s"
  by (induction ds arbitrary: s) (simp_all add: mark_erased_def)

definition erased_row :: "string \<Rightarrow> string \<Rightarrow> string list \<Rightarrow> snapshot_row \<Rightarrow> snapshot_row" where
  "erased_row h at ds r =
     (if snap_holder r = h \<and> snap_digest r \<in> set ds \<and> snap_erased_at r = None
      then r\<lparr>snap_erased_at := Some at\<rparr> else r)"

lemma erased_row_key [simp]:
  "snap_holder (erased_row h at ds r) = snap_holder r"
  "snap_digest (erased_row h at ds r) = snap_digest r"
  "snap_terms (erased_row h at ds r) = snap_terms r"
  "snap_chunks (erased_row h at ds r) = snap_chunks r"
  "snap_size (erased_row h at ds r) = snap_size r"
  "snap_key (erased_row h at ds r) = snap_key r"
  by (simp_all add: erased_row_def snap_key_def)

lemma live_erased_row [simp]:
  "live (erased_row h at ds r) \<longleftrightarrow> live r \<and> \<not> (snap_holder r = h \<and> snap_digest r \<in> set ds)"
  by (auto simp: erased_row_def live_def)

lemma fold_mark_erased_snapshots:
  "t_snapshots (fold (mark_erased h at) ds s) = map (erased_row h at ds) (t_snapshots s)"
proof (induction ds arbitrary: s)
  case Nil
  then show ?case by (simp add: erased_row_def map_idI)
next
  case (Cons d ds)
  have "t_snapshots (fold (mark_erased h at) (d # ds) s) =
      map (erased_row h at ds) (t_snapshots (mark_erased h at d s))"
    using Cons by simp
  then show ?case by (simp add: mark_erased_def [of h at d s] update_where_def) (auto simp: erased_row_def)
qed

lemma commit_erasure_tables [simp]:
  "t_snapshots (commit_erasure X h scope ds ms op at s) = map (erased_row h at ds) (t_snapshots s)"
  "t_uploads (commit_erasure X h scope ds ms op at s) = t_uploads s"
  "t_terms (commit_erasure X h scope ds ms op at s) = t_terms s"
  by (simp_all add: commit_erasure_def record_outcome_def fold_mark_erased_snapshots)

lemma count_pos: "0 < count_where p t \<longleftrightarrow> (\<exists>r \<in> set t. p r)"
  by (auto simp: count_where_def filter_empty_conv)

lemma snapshot_exists_iff:
  "snapshot_exists h d s \<longleftrightarrow> (\<exists>r \<in> set (t_snapshots s). snap_holder r = h \<and> snap_digest r = d \<and> live r)"
  by (simp add: snapshot_exists_def count_pos)

lemma commit_erasure_not_live: "d \<in> set ds \<Longrightarrow> \<not> snapshot_exists h d (commit_erasure X h scope ds ms op at s)"
  by (auto simp: snapshot_exists_iff)

lemma bindE_assoc: "bindE (bindE m f) g = bindE m (\<lambda>x. bindE (f x) g)"
  by (rule ext) (simp add: bindE_run split: prod.splits sum.splits)

definition with_store :: "(store \<Rightarrow> store) \<Rightarrow> world \<Rightarrow> world" where
  "with_store f w = w\<lparr>store := f (store w)\<rparr>"

lemma mint_receipt_terms:
  "mint_receipt A scope targets at ids tid s = Inr (d, m) \<Longrightarrow>
     mint_terms m = tid \<and> mint_id m = ids tid \<and> (\<exists>r \<in> set (t_terms s). td_id r = tid)"
  by (auto simp: mint_receipt_def compose_def jindex_def Let_def terms_document_def find_Some_iff split: prod.splits)

lemma mint_receipts_terms:
  assumes "mint_receipts A scope targets at ids s = Inr made"
  shows "\<forall>m \<in> set (map snd made). mint_id m = ids (mint_terms m) \<and> (\<exists>r \<in> set (t_terms s). td_id r = mint_terms m)"
proof
  fix m assume "m \<in> set (map snd made)"
  then obtain d where "(d, m) \<in> set made" by auto
  then obtain i where i: "i < length made" "made ! i = (d, m)" by (metis in_set_conv_nth)
  then have "mint_receipt A scope targets at ids (pinned_terms targets ! i) s = Inr (d, m)"
    using assms by (auto simp: mint_receipts_def collect_results_Inr list_all2_conv_all_nth)
  from mint_receipt_terms [OF this] show "mint_id m = ids (mint_terms m) \<and> (\<exists>r \<in> set (t_terms s). td_id r = mint_terms m)" by simp
qed

lemma mint_receipts_pinned:
  "mint_receipts A scope targets at ids s = Inr made \<Longrightarrow>
     \<forall>m \<in> set (map snd made). \<exists>r \<in> set (t_terms s). td_id r = mint_terms m"
  using mint_receipts_terms by blast

lemma mint_receipts_fresh:
  assumes "fresh_ids A c w" "mint_receipts A scope targets at (ctx_receipt_ids c) s = Inr made"
  shows "\<forall>m \<in> set (map snd made). \<forall>r \<in> set (t_receipts (store w)). rc_id r \<noteq> mint_id m"
  using assms(1) mint_receipts_terms [OF assms(2)] unfolding fresh_ids_def by (metis rangeI)

section \<open>The interface\<close>

text \<open>
  \<open>serde\<close> reads \<open>sealed_byte_size\<close> as an \<open>i64\<close>, and the configuration bounds a chunk.
\<close>

definition decodes_i64 :: "crates \<Rightarrow> bool" where
  "decodes_i64 X \<longleftrightarrow> (\<forall>body req. decode_preflight X body = Some req \<longrightarrow>
     in_i64 (ref_sealed_byte_size (req_snapshot_reference req)))"

definition app_ok :: "app \<Rightarrow> bool" where
  "app_ok A \<longleftrightarrow> 0 < chunk_bytes (cfg A) \<and> chunk_bytes (cfg A) \<le> max_chunk_body_bytes \<and> decodes_i64 (lib A)"

locale request_invariant =
  fixes A :: app and ok :: "string \<Rightarrow> bool" and I :: "world \<Rightarrow> bool"
  assumes grants: "I w \<Longrightarrow> grants_ok (blob_root (cfg A)) w"
    and sane: "I w \<Longrightarrow> app_ok A"
    and frame: "framed I"
    and noted: "I w \<Longrightarrow> ok h \<Longrightarrow> store w' = record_outcome op h subj st ids t (store w) \<Longrightarrow>
      disk w' = disk w \<Longrightarrow> I w'"
    and minted: "I w \<Longrightarrow> store w' = (store w)\<lparr>t_uploads := t_uploads (store w) @ [row]\<rparr> \<Longrightarrow>
      disk w' = disk w \<Longrightarrow> grant_ok row \<Longrightarrow> ok (up_holder row) \<Longrightarrow>
      up_terms row = doc_terms_id (docs A) \<Longrightarrow> \<forall>r \<in> set (t_uploads (store w)). up_id r \<noteq> up_id row \<Longrightarrow>
      dir_lookup (disk w) (incoming_dir (blob_root (cfg A)) (up_id row)) = Some [] \<Longrightarrow> I w'"
    and dropped: "I w \<Longrightarrow> \<forall>u \<in> set (t_uploads (store w)). up_id u = uid \<longrightarrow> ok (up_holder u) \<Longrightarrow>
      store w' = drop_upload uid (store w) \<Longrightarrow> disk w' = disk w \<Longrightarrow> I w'"
    and expired: "I w \<Longrightarrow> ok h \<Longrightarrow> store w' = snd (mark_unavailable h d t (store w)) \<Longrightarrow>
      disk w' = disk w \<Longrightarrow> I w'"
    and erased: "I w \<Longrightarrow> ok h \<Longrightarrow> store w' = commit_erasure (lib A) h scope ds ms op t (store w) \<Longrightarrow>
      disk w' = disk w \<Longrightarrow> \<forall>m \<in> set ms. \<exists>r \<in> set (t_terms (store w)). td_id r = mint_terms m \<Longrightarrow>
      \<forall>m \<in> set ms. \<forall>r \<in> set (t_receipts (store w)). rc_id r \<noteq> mint_id m \<Longrightarrow> I w'"
    and retained: "I w \<Longrightarrow> u \<in> set (t_uploads (store w)) \<Longrightarrow> ok (up_holder u) \<Longrightarrow>
      digest_hex (up_digest u) = Inr hex \<Longrightarrow>
      intact (lib A) (blob_root (cfg A)) (disk w) (up_holder u) hex (up_chunk_count u) (up_size u) \<Longrightarrow>
      admitted A u (store w) \<Longrightarrow> store w' = retain u t (store w) \<Longrightarrow> disk w' = disk w \<Longrightarrow> I w'"
    and opened: "I w \<Longrightarrow> store w' = store w \<Longrightarrow>
      \<forall>u \<in> set (t_uploads (store w)). up_id u \<noteq> uid \<Longrightarrow>
      dir_lookup (disk w) (incoming_dir (blob_root (cfg A)) uid) = None \<Longrightarrow>
      only_at (incoming_dir (blob_root (cfg A)) uid) (disk w) (disk w') \<Longrightarrow>
      dir_lookup (disk w') (incoming_dir (blob_root (cfg A)) uid) \<in> {None, Some []} \<Longrightarrow> I w'"
    and written: "I w \<Longrightarrow> u \<in> set (t_uploads (store w)) \<Longrightarrow> ok (up_holder u) \<Longrightarrow> 0 \<le> i \<Longrightarrow>
      i < up_chunk_count u \<Longrightarrow> int (length bytes) = expected_chunk u i \<Longrightarrow> store w' = store w \<Longrightarrow>
      chunk_added (incoming_dir (blob_root (cfg A)) (up_id u)) i bytes (disk w) (disk w') \<Longrightarrow> I w'"
    and discarded: "I w \<Longrightarrow> \<forall>u \<in> set (t_uploads (store w)). up_id u = uid \<longrightarrow> ok (up_holder u) \<Longrightarrow>
      store w' = store w \<Longrightarrow> shrunk (incoming_dir (blob_root (cfg A)) uid) (disk w) (disk w') \<Longrightarrow> I w'"
    and unlinked: "I w \<Longrightarrow> ok h \<Longrightarrow> \<not> snapshot_exists h (''sha256:'' @ hex) (store w) \<Longrightarrow>
      store w' = store w \<Longrightarrow> shrunk (snapshot_dir (blob_root (cfg A)) h hex) (disk w) (disk w') \<Longrightarrow> I w'"
    and placed: "I w \<Longrightarrow> u \<in> set (t_uploads (store w)) \<Longrightarrow> ok (up_holder u) \<Longrightarrow> store w' = store w \<Longrightarrow>
      moved (incoming_dir (blob_root (cfg A)) (up_id u)) (snapshot_dir (blob_root (cfg A)) (up_holder u) hex)
        (disk w) (disk w') \<Longrightarrow> I w'"
begin

abbreviation root :: string where "root \<equiv> blob_root (cfg A)"

lemmas read_rules = valid_rules keeps_case_prod framed_quiet [OF frame] framed_query [OF frame]
  framed_select [OF frame] framed_require [OF frame] framed_inspect [OF frame]

lemma own_row: "I w \<Longrightarrow> u \<in> set (t_uploads (store w)) \<Longrightarrow> ok (up_holder u) \<Longrightarrow>
    \<forall>v \<in> set (t_uploads (store w)). up_id v = up_id u \<longrightarrow> ok (up_holder v)"
  using grants [of w] keyed_unique [of up_id "t_uploads (store w)"] by (auto simp: grants_ok_def)

lemma keeps_note: "ok h \<Longrightarrow> keeps I (statement (record_outcome op h subj st ids t))"
  unfolding preserves_True [symmetric] by (rule preserves_statement [OF frame]) (rule noted)

lemma keeps_expire: "ok h \<Longrightarrow> keeps I (execute (mark_unavailable h d t))"
  unfolding preserves_True [symmetric] by (rule preserves_execute [OF frame]) (rule expired)

lemma preserves_drop:
  "preserves (\<lambda>w. \<forall>v \<in> set (t_uploads (store w)). up_id v = uid \<longrightarrow> ok (up_holder v)) I
     (statement (drop_upload uid))"
  by (rule preserves_statement [OF frame]) (rule dropped)

lemma preserves_discard:
  "preserves (\<lambda>w. \<forall>v \<in> set (t_uploads (store w)). up_id v = uid \<longrightarrow> ok (up_holder v)) I
     (discard_upload root uid)"
  unfolding preserves_def
proof (intro allI impI)
  fix w assume "I w" "\<forall>v \<in> set (t_uploads (store w)). up_id v = uid \<longrightarrow> ok (up_holder v)"
  with discard_upload_spec [of root uid w "fst (discard_upload root uid w)" "snd (discard_upload root uid w)"]
  show "I (snd (discard_upload root uid w))" by (auto simp: same_store_def intro: discarded)
qed

lemma preserves_erase_blob:
  assumes "ok h"
  shows "preserves (\<lambda>w. \<not> snapshot_exists h (''sha256:'' @ hex) (store w)) I (erase_blob root h hex)"
  unfolding preserves_def
proof (intro allI impI)
  fix w assume "I w" "\<not> snapshot_exists h (''sha256:'' @ hex) (store w)"
  with assms erase_blob_spec [of root h hex w "fst (erase_blob root h hex w)" "snd (erase_blob root h hex w)"]
  show "I (snd (erase_blob root h hex w))" by (auto simp: same_store_def intro: unlinked)
qed

lemma discard_store: "discard_upload root uid w = (r, w') \<Longrightarrow> store w' = store w"
  using discard_upload_spec by (auto simp: same_store_def)

lemma preserves_discard_then:
  assumes "\<And>x. preserves (\<lambda>w. \<forall>v \<in> set (t_uploads (store w)). up_id v = uid \<longrightarrow> ok (up_holder v)) I (f x)"
  shows "preserves (\<lambda>w. \<forall>v \<in> set (t_uploads (store w)). up_id v = uid \<longrightarrow> ok (up_holder v)) I
    (bindE (discard_upload root uid) f)"
  using assms by (intro preserves_bind [OF preserves_discard]) (auto dest: discard_store)

lemma preserves_abandon:
  "preserves (\<lambda>w. \<forall>v \<in> set (t_uploads (store w)). up_id v = uid \<longrightarrow> ok (up_holder v)) I (abandon A uid)"
  unfolding abandon_def by (intro preserves_discard_then preserves_drop)

subsection \<open>Preflight\<close>

lemma grant_row_simps [simp]:
  "up_id (grant_row A h req uid t1 t2) = uid" "up_holder (grant_row A h req uid t1 t2) = h"
  "up_terms (grant_row A h req uid t1 t2) = req_accepted_terms_id req"
  "up_digest (grant_row A h req uid t1 t2) = ref_digest (req_snapshot_reference req)"
  "up_size (grant_row A h req uid t1 t2) = ref_sealed_byte_size (req_snapshot_reference req)"
  "up_chunk_bytes (grant_row A h req uid t1 t2) = chunk_bytes (cfg A)"
  "up_expires_at (grant_row A h req uid t1 t2) = t2"
  by (simp_all add: grant_row_def Let_def)

lemma grant_row_ok:
  assumes "check_preflight req = Inr ()" "app_ok A" "decode_preflight (lib A) body = Some req"
  shows "grant_ok (grant_row A h req uid t1 t2)"
  using assms
  by (auto simp: grant_ok_def grant_row_def check_preflight_def app_ok_def decodes_i64_def Let_def)

lemma framed_fresh: "framed (\<lambda>w. I w \<and> fresh_ids A c w)"
  using frame unfolding framed_def fresh_ids_def core_same_def by metis

lemma preserves_mint_rows:
  assumes "grant_ok (grant_row A (h_handle who) req (ctx_upload_id c) t1 t2)"
    "ok (h_handle who)" "req_accepted_terms_id req = doc_terms_id (docs A)"
  shows "preserves (fresh_ids A c) I
    (bindE (begin_incoming root (ctx_upload_id c)) (\<lambda>_.
     bindE (query (begin_upload (grant_row A (h_handle who) req (ctx_upload_id c) t1 t2))) (\<lambda>s.
     bindE (modifyE (\<lambda>w. w\<lparr>store := s\<rparr>)) (\<lambda>_. returnE x))))"
    (is "preserves _ _ (bindE ?begin ?rest)")
proof -
  let ?uid = "ctx_upload_id c" and ?row = "grant_row A (h_handle who) req (ctx_upload_id c) t1 t2"
  let ?new = "\<lambda>w. \<forall>u \<in> set (t_uploads (store w)). up_id u \<noteq> ?uid"
  let ?open = "\<lambda>w. dir_lookup (disk w) (incoming_dir root ?uid) = Some [] \<and> ?new w"
  have first: "I w1 \<and> (q = Inr () \<longrightarrow> ?open w1)"
    if "I w" "fresh_ids A c w" "?begin w = (q, w1)" for w q w1
    using that begin_incoming_spec [OF that(3)] opened [of w w1 ?uid]
    by (auto simp: fresh_ids_def same_store_def)
  have second: "preserves ?open I (?rest y)" for y
  proof (rule preserves_bind [where Q = "\<lambda>s w. ?open w \<and> begin_upload ?row (store w) = Inr s"])
    show "preserves ?open I (query (begin_upload ?row))"
      by (intro keeps_preserves framed_query [OF frame])
    show "?open w' \<and> begin_upload ?row (store w') = Inr s"
      if "?open w" "query (begin_upload ?row) w = (Inr s, w')" for w s w'
      using that query_same [OF that(2)] by (auto simp: same_data_def)
    show "preserves (\<lambda>w. ?open w \<and> begin_upload ?row (store w) = Inr s) I
        (bindE (modifyE (\<lambda>w. w\<lparr>store := s\<rparr>)) (\<lambda>_. returnE x))" for s
      unfolding preserves_def
    proof (intro allI impI)
      fix w assume "I w" and o: "?open w \<and> begin_upload ?row (store w) = Inr s"
      moreover have "s = (store w)\<lparr>t_uploads := t_uploads (store w) @ [?row]\<rparr>"
        using o by (simp add: begin_upload_def split: if_splits)
      ultimately have "I (w\<lparr>store := s\<rparr>)"
        using assms o by (intro minted [of w "w\<lparr>store := s\<rparr>" ?row]) simp_all
      then show "I (snd (bindE (modifyE (\<lambda>w. w\<lparr>store := s\<rparr>)) (\<lambda>_. returnE x) w))"
        by (simp add: run_simps)
    qed
  qed
  show ?thesis
  proof (rule preserves_bind [where Q = "\<lambda>_. ?open"])
    show "preserves (fresh_ids A c) I ?begin"
      unfolding preserves_def using first by (metis prod.collapse)
    show "?open w'" if "I w" "fresh_ids A c w" "?begin w = (Inr u, w')" for w u w'
      using first [OF that] by simp
    show "preserves ?open I (?rest y)" for y by (rule second)
  qed
qed

lemma preserves_mint_grant:
  assumes "check_preflight req = Inr ()" "decode_preflight (lib A) body = Some req"
    "ok (h_handle who)" "req_accepted_terms_id req = doc_terms_id (docs A)"
  shows "preserves (fresh_ids A c) I (mint_grant A who req now t1 (ctx_upload_id c))"
  unfolding mint_grant_def Let_def
proof (intro preserves_lift_bind)
  fix expiry t2
  have "preserves (fresh_ids A c) I (bindE (begin_incoming root (ctx_upload_id c)) (\<lambda>_.
     bindE (query (begin_upload (grant_row A (h_handle who) req (ctx_upload_id c) t1 t2))) (\<lambda>s.
     bindE (modifyE (\<lambda>w. w\<lparr>store := s\<rparr>)) (\<lambda>_. returnE x))))" if "app_ok A" for x :: response
    using that assms by (intro preserves_mint_rows grant_row_ok)
  then show "preserves (fresh_ids A c) I (bindE (begin_incoming root (ctx_upload_id c)) (\<lambda>_.
     bindE (query (begin_upload (grant_row A (h_handle who) req (ctx_upload_id c) t1 t2))) (\<lambda>s.
     bindE (modifyE (\<lambda>w. w\<lparr>store := s\<rparr>)) (\<lambda>_. returnE (RJson 200 (grant_json
       (grant_row A (h_handle who) req (ctx_upload_id c) t1 t2)
       [(0, up_chunk_count (grant_row A (h_handle who) req (ctx_upload_id c) t1 t2) - 1)]))))))"
    using sane by (auto simp: preserves_def)
qed

lemma preserves_new_grant:
  assumes "check_preflight req = Inr ()" "decode_preflight (lib A) body = Some req" "ok (h_handle who)"
  shows "preserves (fresh_ids A c) I (new_grant A who hs req now t1 (ctx_upload_id c))"
proof (cases "req_accepted_terms_id req = doc_terms_id (docs A)")
  case True
  then show ?thesis
    unfolding new_grant_def Let_def
    by (auto intro!: preserves_kept_bind preserves_if preserves_throw preserves_return
        preserves_mint_grant [OF assms] framed_require framed_select framed_query framed_fresh)
qed (simp add: new_grant_def Let_def preserves_throw)

lemma preserves_preflight:
  assumes "\<And>h. claimed A hs = Some h \<Longrightarrow> ok h"
  shows "preserves (fresh_ids A c) I (preflight A hs body now (ctx_upload_id c))"
  unfolding preflight_def Let_def
proof (rule preserves_authenticated [OF framed_fresh frame], intro preserves_lift_bind
    preserves_kept_bind [OF framed_select [OF framed_fresh]] preserves_option
    keeps_preserves [OF framed_resume [OF frame]])
qed (simp_all add: assms preserves_new_grant)

subsection \<open>Chunks and commit\<close>

definition own :: "upload_row \<Rightarrow> world \<Rightarrow> bool" where
  "own u w \<longleftrightarrow> u \<in> set (t_uploads (store w)) \<and> ok (up_holder u)"

lemma own_data: "own u w \<Longrightarrow> same_data w w' \<Longrightarrow> own u w'"
  by (simp add: own_def same_data_def)

lemma preserves_own:
  assumes "preserves (\<lambda>w. \<forall>v \<in> set (t_uploads (store w)). up_id v = up_id u \<longrightarrow> ok (up_holder v)) I m"
  shows "preserves (own u) I m"
  using assms own_row unfolding preserves_def own_def by blast

lemma keeps_granted:
  assumes "\<And>h. claimed A hs = Some h \<Longrightarrow> ok h" "\<And>u. up_id u = uid \<Longrightarrow> preserves (own u) I (f u)"
  shows "keeps I (bindE (granted_upload A hs verb path body now uid) f)"
proof -
  have "preserves (\<lambda>_. True) I (bindE (granted_upload A hs verb path body now uid) f)"
  proof (rule preserves_bind [where Q = "\<lambda>u w. up_id u = uid \<and> own u w"])
    show "preserves (\<lambda>_. True) I (granted_upload A hs verb path body now uid)"
      by (simp add: framed_granted_upload frame)
    show "up_id u = uid \<and> own u w'"
      if "granted_upload A hs verb path body now uid w = (Inr u, w')" for w u w'
      using granted_upload_spec [OF that] assms(1) by (auto simp: own_def)
    show "preserves (\<lambda>w. up_id u = uid \<and> own u w) I (f u)" for u
      using assms(2) by (auto simp: preserves_def)
  qed
  then show ?thesis by simp
qed

lemma keeps_put_chunk:
  assumes "\<And>h. claimed A hs = Some h \<Longrightarrow> ok h"
  shows "keeps I (put_chunk A hs uid i body now)"
  unfolding put_chunk_def
proof (rule keeps_granted [OF assms])
  fix u :: upload_row assume u: "up_id u = uid"
  have "preserves (own u) I (bindE (write_chunk root uid i body) (\<lambda>_. returnE (REmpty 200)))"
    if "0 \<le> i" "i < up_chunk_count u" "int (length body) = expected_chunk u i"
  proof (rule preserves_bind [where Q = "\<lambda>_ _. True"])
    show "preserves (own u) I (write_chunk root uid i body)"
      unfolding preserves_def
    proof (intro allI impI)
      fix w assume w: "I w" "own u w"
      obtain r w' where r: "write_chunk root uid i body w = (r, w')" by (cases "write_chunk root uid i body w")
      from write_chunk_spec [OF r] u have "store w' = store w"
        "chunk_added (incoming_dir root (up_id u)) i body (disk w) (disk w')"
        by (simp_all add: same_store_def)
      with w that have "I w'" unfolding own_def by (blast intro: written)
      with r show "I (snd (write_chunk root uid i body w))" by simp
    qed
  qed (simp_all add: keeps_return)
  then show "preserves (own u) I
      (if i < 0 \<or> i \<ge> up_chunk_count u then throwE (Err (BadRequest ''chunk index outside the grant''))
       else if int (length body) \<noteq> expected_chunk u i
       then throwE (Err (BadRequest (''chunk '' @ show_int i @ '' must be ''
         @ show_int (expected_chunk u i) @ '' bytes'')))
       else bindE (write_chunk root uid i body) (\<lambda>_. returnE (REmpty 200)))"
    by (auto simp: preserves_throw)
qed

lemma preserves_quiet_bind:
  "quiet m \<Longrightarrow> (\<And>x. preserves (own u) I (f x)) \<Longrightarrow> preserves (own u) I (bindE m f)"
  by (intro preserves_bind [where Q = "\<lambda>_. own u"])
    (auto intro: keeps_preserves framed_quiet frame own_data quietD)

lemma preserves_commit_verify: "preserves (own u) I (commit_verify A u)"
proof -
  have abandon_then: "preserves (own u) I (bindE (abandon A (up_id u)) (\<lambda>_. throwE e))" for e :: fail
    by (rule preserves_bind [where Q = "\<lambda>_ _. True"])
      (simp_all add: preserves_own [OF preserves_abandon] keeps_throw)
  show ?thesis
    unfolding commit_verify_def Let_def
    by (intro preserves_quiet_bind) (auto intro!: preserves_quiet_bind abandon_then preserves_throw
        keeps_preserves [OF keeps_lift])
qed

lemma preserves_quota: "preserves (own u) I (commit_quota A u now)"
proof -
  have drop_then: "preserves (\<lambda>w. \<forall>v \<in> set (t_uploads (store w)). up_id v = up_id u \<longrightarrow> ok (up_holder v)) I
      (bindE (statement (drop_upload (up_id u))) (\<lambda>_. throwE e))" for e :: fail
    by (rule preserves_bind [where Q = "\<lambda>_ _. True"]) (simp_all add: preserves_drop keeps_throw)
  show ?thesis
    unfolding commit_quota_def
    by (intro preserves_quiet_bind) (auto intro!: preserves_quiet_bind preserves_return
        preserves_own [OF preserves_discard_then [OF drop_then]])
qed

definition verified :: "upload_row \<Rightarrow> string \<Rightarrow> world \<Rightarrow> bool" where
  "verified u hex w \<longleftrightarrow> own u w \<and> digest_hex (up_digest u) = Inr hex \<and>
     complete_incoming (lib A) root (disk w) u"

definition stored :: "upload_row \<Rightarrow> string \<Rightarrow> world \<Rightarrow> bool" where
  "stored u hex w \<longleftrightarrow> own u w \<and> admitted A u (store w) \<and> digest_hex (up_digest u) = Inr hex \<and>
     intact (lib A) root (disk w) (up_holder u) hex (up_chunk_count u) (up_size u)"

lemma preserves_commit_blob:
  "preserves (verified u hex) I
     (commit_blob (lib A) root (up_id u) (up_holder u) hex (up_chunk_count u) (up_size u))"
  unfolding preserves_def
proof (intro allI impI)
  fix w assume w: "I w" "verified u hex w"
  let ?m = "commit_blob (lib A) root (up_id u) (up_holder u) hex (up_chunk_count u) (up_size u)"
  obtain r w' where r: "?m w = (r, w')" by (cases "?m w")
  from w own_row have "u \<in> set (t_uploads (store w))" "ok (up_holder u)"
    "\<forall>v \<in> set (t_uploads (store w)). up_id v = up_id u \<longrightarrow> ok (up_holder v)"
    by (auto simp: verified_def own_def)
  with commit_blob_spec [OF r] w(1) have "I w'"
    by (auto simp: same_store_def intro: discarded placed)
  with r show "I (snd (?m w))" by simp
qed

lemma commit_blob_stored:
  assumes "I w" "verified u hex w" "admitted A u (store w)"
    "commit_blob (lib A) root (up_id u) (up_holder u) hex (up_chunk_count u) (up_size u) w = (Inr (), w')"
  shows "stored u hex w'"
  using assms commit_blob_intact [OF assms(4)] grants [OF assms(1)]
  by (auto simp: verified_def stored_def own_def grants_ok_def)

lemma preserves_book:
  "preserves (stored u hex) I
     (bindE (statement (retain u t)) (\<lambda>_. bindE (statement (drop_upload (up_id u))) (\<lambda>_.
      bindE (statement (record_outcome op (up_holder u) subj st ids t')) (\<lambda>_. returnE x))))"
proof (rule preserves_bind [where Q = "\<lambda>_. own u"])
  show "preserves (stored u hex) I (statement (retain u t))"
    by (rule preserves_statement [OF frame], rule retained) (auto simp: stored_def own_def)
  show "own u w'" if "stored u hex w" "statement (retain u t) w = (Inr y, w')" for w y w'
    using that statement_Inr [OF that(2)] by (auto simp: stored_def own_def retain_def Let_def)
  show "preserves (own u) I (bindE (statement (drop_upload (up_id u))) (\<lambda>_.
      bindE (statement (record_outcome op (up_holder u) subj st ids t')) (\<lambda>_. returnE x)))" for y :: unit
  proof (rule preserves_bind [where Q = "\<lambda>_ _. ok (up_holder u)"])
    show "preserves (\<lambda>_. ok (up_holder u)) I
        (bindE (statement (record_outcome op (up_holder u) subj st ids t')) (\<lambda>_. returnE x))" for z :: unit
      by (rule preserves_imp, assumption) (intro keeps_preserves keeps_bind keeps_note keeps_return)
  qed (auto simp: own_def preserves_own [OF preserves_drop])
qed

lemma preserves_place: "preserves (verified u hex) I (commit_place A u hex now)"
  unfolding commit_place_def
proof (intro preserves_lift_bind)
  fix t
  show "preserves (verified u hex) I (bindE (commit_quota A u now) (\<lambda>_.
     bindE (commit_blob (lib A) root (up_id u) (up_holder u) hex (up_chunk_count u) (up_size u)) (\<lambda>_.
     bindE (statement (retain u t)) (\<lambda>_.
     bindE (statement (drop_upload (up_id u))) (\<lambda>_.
     bindE (statement (record_outcome (up_operation u) (up_holder u) (up_digest u) ''retained'' None t)) (\<lambda>_.
       returnE (RJson 200 (outcome_json A ''retained''
         (reference_json digest_suite (up_digest u) (up_size u)) (up_terms u)))))))))"
  proof (rule preserves_bind [where Q = "\<lambda>_ w. verified u hex w \<and> admitted A u (store w)"])
    show "preserves (verified u hex) I (commit_quota A u now)"
      by (rule preserves_weaken [OF preserves_quota]) (simp add: verified_def)
    show "verified u hex w' \<and> admitted A u (store w')" if "verified u hex w" "commit_quota A u now w = (Inr y, w')" for w y w'
      using that commit_quota_Inr [of A u now w w'] by (auto simp: verified_def own_def same_data_def)
    show "preserves (\<lambda>w. verified u hex w \<and> admitted A u (store w)) I
      (bindE (commit_blob (lib A) root (up_id u) (up_holder u) hex (up_chunk_count u) (up_size u)) (\<lambda>_.
       bindE (statement (retain u t)) (\<lambda>_. bindE (statement (drop_upload (up_id u))) (\<lambda>_.
       bindE (statement (record_outcome (up_operation u) (up_holder u) (up_digest u) ''retained'' None t)) (\<lambda>_.
       returnE (RJson 200 (outcome_json A ''retained''
         (reference_json digest_suite (up_digest u) (up_size u)) (up_terms u))))))))" for y :: unit
      by (rule preserves_bind [OF preserves_weaken [OF preserves_commit_blob, where P = "\<lambda>w. verified u hex w \<and> admitted A u (store w)"],
            where Q = "\<lambda>_. stored u hex"])
        (auto intro: commit_blob_stored preserves_book)
  qed
qed

lemma keeps_commit:
  assumes "\<And>h. claimed A hs = Some h \<Longrightarrow> ok h"
  shows "keeps I (commit A hs uid body now)"
  unfolding commit_def commit_lookup_def
proof (rule keeps_granted [OF assms])
  fix u :: upload_row
  show "preserves (own u) I (bindE (commit_verify A u) (\<lambda>hex. commit_place A u hex now))"
  proof (rule preserves_bind [where Q = "verified u"])
    show "verified u hex w'" if "I w" "own u w" "commit_verify A u w = (Inr hex, w')" for w hex w'
      using commit_verify_Inr [OF that(3)] grants [OF that(1)] that(2)
      by (auto simp: grants_ok_def own_def verified_def same_data_def)
  qed (rule preserves_commit_verify preserves_place)+
qed

subsection \<open>Erasure\<close>

lemma preserves_bind_statement:
  assumes "preserves P I (statement f)" "\<And>w. P w \<Longrightarrow> Q (with_store f w)"
    "\<And>w w'. store w' = store w \<Longrightarrow> disk w' = disk w \<Longrightarrow> Q w = Q w'" "preserves Q I m"
  shows "preserves P I (bindE (statement f) (\<lambda>_. m))"
proof (rule preserves_bind [OF assms(1), where Q = "\<lambda>_. Q"])
  show "Q w'" if "P w" "statement f w = (Inr x, w')" for w x w'
    using statement_Inr [OF that(2)] assms(2) [OF that(1)] assms(3) [of w' "with_store f w"]
    by (simp add: with_store_def)
qed (use assms(4) in simp)

lemma preserves_unlink:
  assumes "ok h"
  shows "preserves (\<lambda>w. \<forall>hex \<in> set doomed. \<not> snapshot_exists h (''sha256:'' @ hex) (store w)) I
    (unlink_erased A h doomed)"
  unfolding unlink_erased_def
proof (induction doomed)
  case Nil
  then show ?case by (simp add: preserves_return keeps_return)
next
  case (Cons hex doomed)
  let ?one = "matchE (erase_blob root h hex) (\<lambda>_. returnE ()) returnE"
  have one: "I w' \<and> store w' = store w \<and> r = Inr ()"
    if "I w" "\<not> snapshot_exists h (''sha256:'' @ hex) (store w)" "?one w = (r, w')" for w r w'
  proof -
    obtain q w1 where q: "erase_blob root h hex w = (q, w1)" by (cases "erase_blob root h hex w")
    then have "w' = w1" "r = Inr ()" using that(3) by (auto simp: matchE_run returnE_run split: sum.splits)
    with erase_blob_spec [OF q] preservesD [OF preserves_erase_blob [OF assms] that(1,2) q] show ?thesis
      by (auto simp: same_store_def)
  qed
  have "preserves (\<lambda>w. \<forall>x \<in> set (hex # doomed). \<not> snapshot_exists h (''sha256:'' @ x) (store w)) I
    (bindE ?one (\<lambda>acc. foldE (\<lambda>hex _. matchE (erase_blob root h hex) (\<lambda>_. returnE ()) returnE) doomed acc))"
  proof (rule preserves_bind [where
        Q = "\<lambda>_ w. \<forall>x \<in> set doomed. \<not> snapshot_exists h (''sha256:'' @ x) (store w)"])
    show "preserves (\<lambda>w. \<forall>x \<in> set (hex # doomed). \<not> snapshot_exists h (''sha256:'' @ x) (store w)) I ?one"
      unfolding preserves_def using one by (metis list.set_intros(1) prod.collapse)
    show "\<forall>x \<in> set doomed. \<not> snapshot_exists h (''sha256:'' @ x) (store w')"
      if "I w" "\<forall>x \<in> set (hex # doomed). \<not> snapshot_exists h (''sha256:'' @ x) (store w)"
        "?one w = (Inr acc, w')" for w acc w'
      using one [OF that(1) _ that(3)] that(2) by simp
  qed (use Cons in simp)
  then show ?case by simp
qed

lemma preserves_erase_targets:
  fixes f :: "json list \<Rightarrow> response"
  assumes "ok (h_handle who)"
  shows "preserves (fresh_ids A c) I (bindE (erase_targets A who req targets at (ctx_receipt_ids c)) (\<lambda>(receipts, doomed).
    bindE (unlink_erased A (h_handle who) doomed) (\<lambda>_. returnE (f receipts))))"
proof -
  let ?ids = "ctx_receipt_ids c"
  let ?h = "h_handle who" and ?ds = "map snap_digest targets"
  let ?gone = "\<lambda>w. \<forall>d \<in> set ?ds. \<not> snapshot_exists ?h d (store w)"
  have unlink: "preserves ?gone I (bindE (unlink_erased A ?h doomed) (\<lambda>_. returnE x))"
    if "collect_results digest_hex ?ds = Inr doomed" for doomed and x :: response
  proof -
    have "''sha256:'' @ hex \<in> set ?ds" if "hex \<in> set doomed" for hex
    proof -
      have "\<exists>d \<in> set ?ds. digest_hex d = Inr hex"
        using \<open>collect_results digest_hex ?ds = Inr doomed\<close> that
        by (auto simp: collect_results_Inr list_all2_conv_all_nth in_set_conv_nth Bex_def)
      then show ?thesis by (metis digest_hex_Inr)
    qed
    then have "preserves ?gone I (unlink_erased A ?h doomed)"
      by (intro preserves_weaken [OF preserves_unlink [OF assms]]) blast
    then show ?thesis by (rule preserves_bind [where Q = "\<lambda>_ _. True"]) (simp_all add: keeps_return)
  qed
  have decide: "preserves (\<lambda>w. fresh_ids A c w \<and> mint_receipts A (erase_scope req) targets at ?ids (store w) = Inr made) I
      (bindE (statement (commit_erasure (lib A) ?h (erase_scope req) ?ds (map snd made)
         (erase_operation_id req) at)) (\<lambda>_.
       bindE (bindE (liftE (collect_results digest_hex ?ds)) (\<lambda>doomed. returnE (map fst made, doomed)))
         (\<lambda>(receipts, doomed). bindE (unlink_erased A ?h doomed) (\<lambda>_. returnE (f receipts)))))" for made
  proof (rule preserves_bind_statement [where Q = ?gone])
    show "preserves (\<lambda>w. fresh_ids A c w \<and> mint_receipts A (erase_scope req) targets at ?ids (store w) = Inr made) I
      (statement (commit_erasure (lib A) ?h (erase_scope req) ?ds (map snd made) (erase_operation_id req) at))"
      by (rule preserves_statement [OF frame], rule erased, assumption, rule assms, assumption, assumption,
        rule mint_receipts_pinned, erule conjunct2, rule mint_receipts_fresh, erule conjunct1, erule conjunct2)
    show "preserves ?gone I (bindE (bindE (liftE (collect_results digest_hex ?ds))
        (\<lambda>doomed. returnE (map fst made, doomed)))
         (\<lambda>(receipts, doomed). bindE (unlink_erased A ?h doomed) (\<lambda>_. returnE (f receipts))))"
      using unlink by (auto simp: preserves_def bindE_run liftE_def returnE_run split: sum.splits)
  qed (auto simp: with_store_def commit_erasure_not_live)
  have "preserves (fresh_ids A c) I (bindE (query (mint_receipts A (erase_scope req) targets at ?ids)) (\<lambda>made.
      bindE (statement (commit_erasure (lib A) ?h (erase_scope req) ?ds (map snd made)
         (erase_operation_id req) at)) (\<lambda>_.
       bindE (bindE (liftE (collect_results digest_hex ?ds)) (\<lambda>doomed. returnE (map fst made, doomed)))
         (\<lambda>(receipts, doomed). bindE (unlink_erased A ?h doomed) (\<lambda>_. returnE (f receipts))))))"
  proof (rule preserves_bind [OF _ _ decide])
    show "fresh_ids A c w' \<and> mint_receipts A (erase_scope req) targets at ?ids (store w') = Inr made"
      if "fresh_ids A c w" "query (mint_receipts A (erase_scope req) targets at ?ids) w = (Inr made, w')" for w made w'
      using that(1) query_same [OF that(2)] by (auto simp: same_data_def fresh_ids_def)
  qed (simp add: framed_query frame keeps_preserves)
  then show ?thesis
    by (simp add: erase_targets_def bindE_assoc)
qed

lemma preserves_erase:
  assumes "\<And>h. claimed A hs = Some h \<Longrightarrow> ok h"
  shows "preserves (fresh_ids A c) I (erase A hs body now (ctx_receipt_ids c))"
  unfolding erase_def
proof (rule preserves_lift_bind, rule preserves_authenticated [OF framed_fresh frame],
    intro preserves_lift_bind preserves_kept_bind framed_require framed_select framed_fresh)
  fix at and who :: holder and req :: erase_request and targets :: "snapshot_row list"
  assume "claimed A hs = Some (h_handle who)"
  then have h: "ok (h_handle who)" by (rule assms)
  have "preserves (fresh_ids A c) I (erase_again A who req at)"
    unfolding erase_again_def Let_def by (intro keeps_preserves read_rules keeps_note h frame)
  with preserves_erase_targets [OF h]
  show "preserves (fresh_ids A c) I (if targets = [] then erase_again A who req at
      else bindE (erase_targets A who req targets at (ctx_receipt_ids c)) (\<lambda>(receipts, doomed).
        bindE (unlink_erased A (h_handle who) doomed) (\<lambda>_. returnE (RJson 200 (JArr receipts)))))"
    by (intro preserves_if)
qed

subsection \<open>The other routes\<close>

lemma keeps_expire_missing: "ok h \<Longrightarrow> keeps I (expire_missing A h d now e)"
  unfolding expire_missing_def by (intro read_rules keeps_expire)

lemma keeps_download:
  assumes "\<And>h. claimed A hs = Some h \<Longrightarrow> ok h"
  shows "keeps I (download A hs d now)"
proof -
  have "preserves (\<lambda>_. True) I (download A hs d now)"
    unfolding download_def
  proof (rule preserves_bind [where Q = "\<lambda>p _. ok (h_handle (fst p))"])
    show "preserves (\<lambda>_. True) I (download_lookup A hs d now)"
      unfolding preserves_True download_lookup_def by (intro keeps_authenticated frame read_rules)
    show "ok (h_handle (fst p))" if "download_lookup A hs d now w = (Inr p, w')" for w p w'
      using that assms authenticate_claimed unfolding download_lookup_def
      by (fastforce simp: bindE_Inr_iff returnE_def throwE_def split: if_splits)
    show "preserves (\<lambda>_. ok (h_handle (fst p))) I (case p of (who, row) \<Rightarrow> download_open A who row d now)" for p
      by (rule preserves_imp, assumption)
        (cases p, auto simp: download_open_def intro!: keeps_preserves keeps_match framed_inspect frame
          keeps_expire_missing keeps_return)
  qed
  then show ?thesis by simp
qed

lemma keeps_export_snapshot:
  assumes "\<And>h. claimed A hs = Some h \<Longrightarrow> ok h"
  shows "keeps I (export_snapshot A hs d now)"
proof -
  have "preserves (\<lambda>_. True) I (export_snapshot A hs d now)"
    unfolding export_snapshot_def
  proof (rule preserves_bind [where Q = "\<lambda>p _. ok (h_handle (fst p))"])
    show "preserves (\<lambda>_. True) I (export_lookup A hs d now)"
      unfolding preserves_True export_lookup_def by (intro keeps_authenticated frame read_rules)
    show "ok (h_handle (fst p))" if "export_lookup A hs d now w = (Inr p, w')" for w p w'
      using that assms authenticate_claimed unfolding export_lookup_def
      by (fastforce simp: bindE_Inr_iff returnE_def throwE_def split: if_splits)
    show "preserves (\<lambda>_. ok (h_handle (fst p))) I (case p of (who, row) \<Rightarrow> export_open A who row d now)" for p
      by (rule preserves_imp, assumption)
        (cases p, auto simp: export_open_def intro!: keeps_preserves keeps_match framed_inspect frame
          keeps_expire_missing keeps_return)
  qed
  then show ?thesis by simp
qed

text \<open>Every request, whatever the schedule and whatever it answers.\<close>

lemma preserves_request:
  assumes "\<And>h. claimed A (ctx_headers c) = Some h \<Longrightarrow> ok h"
  shows "preserves (fresh_ids A c) I (handle_request A req c)"
proof -
  have reads: "keeps I (health A t)" "keeps I (terms_route A fname)" "keeps I (list_snapshots A hs t)"
    "keeps I (export_manifest A hs t)" "keeps I (export_receipt A hs i t)"
    "keeps I (query_operation A hs path i t)" "keeps I (register A hs body t)"
    for t fname hs i path body
    unfolding health_def terms_route_def list_snapshots_def export_manifest_def export_receipt_def
      query_operation_def register_def
    by (intro keeps_authenticated frame read_rules framed_register_entitlement)+
  note kept = reads [THEN keeps_preserves] keeps_return [THEN keeps_preserves]
    keeps_put_chunk [THEN keeps_preserves] keeps_commit [THEN keeps_preserves]
    keeps_download [THEN keeps_preserves] keeps_export_snapshot [THEN keeps_preserves]
  show ?thesis
    by (cases req) (simp_all add: handle_request_def Let_def kept preserves_preflight preserves_erase assms)
qed

lemma respond_keeps:
  assumes "\<And>h. claimed A (ctx_headers c) = Some h \<Longrightarrow> ok h" "I w" "fresh_ids A c w"
    "respond A req c w = (answer, w')"
  shows "I w'"
proof (cases "int (length (ctx_body c)) > body_limit req")
  case False
  obtain q w1 where q: "handle_request A req c w = (q, w1)" by (cases "handle_request A req c w")
  with assms(4) False have "w' = w1"
    by (auto simp: respond_def split: sum.splits fail.splits)
  with preservesD [OF preserves_request [OF assms(1)] assms(2,3) q] show ?thesis by simp
qed (use assms in \<open>simp add: respond_def\<close>)

end

section \<open>Polls, boots and sweeps\<close>

lemma framed_modify: "framed J \<Longrightarrow> (\<And>w. store (g w) = store w \<and> disk (g w) = disk w) \<Longrightarrow> keeps J (modifyE g)"
  by (rule keeps_modify) (auto intro: framedD)

lemma framed_cache_epoch: "framed J \<Longrightarrow> keeps J (cache_epoch n t doc)"
  unfolding cache_epoch_def by (intro keeps_bind framed_statement) auto

lemma framed_poll: "framed J \<Longrightarrow> keeps J (poll_epoch A fetched at)"
proof -
  assume J: "framed J"
  have "keeps J (\<lambda>w. case install_epoch e at w of (b, w') \<Rightarrow> (Inr b, w'))" for e
    unfolding keeps_def by (auto simp: case_prod_beta intro: framedD [OF J])
  then show ?thesis
    unfolding poll_epoch_def
    by (auto intro!: keeps_return keeps_bind keeps_match framed_cache_epoch J split: option.splits sum.splits)
qed

lemma framed_restore: "framed J \<Longrightarrow> keeps J (restore_epoch A)"
  unfolding restore_epoch_def
  by (auto intro!: keeps_match framed_select keeps_return framed_modify
      split: option.splits prod.splits sum.splits)

lemma keeps_match_when:
  assumes "keeps I m" "\<And>e. keeps I (h e)" "\<And>w x w'. I w \<Longrightarrow> m w = (Inr x, w') \<Longrightarrow> Q x w'"
    "\<And>x. preserves (Q x) I (f x)"
  shows "keeps I (matchE m h f)"
  using assms unfolding keeps_def preserves_def
  by (fastforce simp: matchE_run split: prod.splits sum.splits)

lemma preserves_match:
  assumes "preserves P I m" "\<And>e. keeps I (h e)" "\<And>x. keeps I (f x)"
  shows "preserves P I (matchE m h f)"
  using assms unfolding keeps_def preserves_def
  by (fastforce simp: matchE_run split: prod.splits sum.splits)

lemma framed_or_else: "keeps J m \<Longrightarrow> keeps J (or_else d m)"
  unfolding or_else_def by (intro keeps_match keeps_return)

lemma framed_counted: "keeps J m \<Longrightarrow> keeps J (counted n m)"
  unfolding counted_def by (intro keeps_match keeps_return)

lemma quiet_walk [simp]: "quiet (walk f)"
proof -
  have "same_data w w'" if "walk f w = (r, w')" for w r w'
    using that by (cases "take_fault w") (auto simp: walk_def dest: take_fault_same)
  then show ?thesis by (auto simp: quiet_def)
qed

lemma keeps_sum:
  "(\<And>e. keeps I (f e)) \<Longrightarrow> (\<And>x. keeps I (g x)) \<Longrightarrow> keeps I (case s of Inl e \<Rightarrow> f e | Inr x \<Rightarrow> g x)"
  by (cases s) auto

lemma fresh_ids_faults [simp]: "fresh_ids A c (with_faults fs w) = fresh_ids A c w"
  by (simp add: fresh_ids_def with_faults_def)

locale operator_invariant = request_invariant +
  assumes everyone: "ok h"
    and forgotten: "I w \<Longrightarrow> store w' = snd (sweep_erased_references (lib A) t (store w)) \<Longrightarrow>
      disk w' = disk w \<Longrightarrow> I w'"
    and aged: "I w \<Longrightarrow> store w' = snd (sweep_outcomes_and_receipts (lib A) t1 t2 (store w)) \<Longrightarrow>
      disk w' = disk w \<Longrightarrow> I w'"
begin

lemmas sweep_rules = keeps_bind keeps_fold keeps_if keeps_match keeps_return framed_or_else framed_counted
  framed_select [OF frame] framed_query [OF frame] framed_statement [OF frame] framed_execute [OF frame]
  keeps_expire [OF everyone] framed_quiet [OF frame quiet_inspect] framed_quiet [OF frame quiet_walk]

lemma keeps_discard: "keeps I (discard_upload root uid)"
  using preserves_discard [of uid] everyone by (simp add: preserves_def keeps_def)

lemma keeps_drop: "keeps I (statement (drop_upload uid))"
  using preserves_drop [of uid] everyone by (simp add: preserves_def keeps_def)

lemma keeps_post_grace: "keeps I (sweep_post_grace (lib A) revoked now_at now)"
  unfolding sweep_post_grace_def expire_holder_def expire_due_def by (intro sweep_rules)

lemma keeps_grants: "keeps I (sweep_grants (lib A) root now)"
  unfolding sweep_grants_def drop_expired_def by (intro sweep_rules keeps_discard keeps_drop)

lemma keeps_incoming: "keeps I (sweep_incoming root)"
  unfolding sweep_incoming_def drop_orphan_incoming_def incoming_on_disk_def
  by (intro sweep_rules keeps_discard)

lemma keeps_claimed: "keeps I (sweep_claimed root now)"
  unfolding sweep_claimed_def check_claimed_def Let_def
  by (intro sweep_rules keeps_sum)

lemma keeps_records: "keeps I (sweep_records (lib A) revoked t)"
proof -
  have carry: "keeps I (carry_over (lib A) revoked h)" for h
    unfolding carry_over_def by (intro sweep_rules keeps_option) simp
  show ?thesis
    unfolding sweep_records_def drop_records_def by (intro sweep_rules carry) simp_all
qed

lemma keeps_adopt: "keeps I (adopt_unrecorded (lib A) revoked charges now_at)"
  unfolding adopt_unrecorded_def adopt_holder_def
  by (intro sweep_rules keeps_option) simp

lemma keeps_lapse_rows: "keeps I (sweep_lapse_rows (lib A) revoked now_at)"
  unfolding sweep_lapse_rows_def refresh_row_def retire_row_def Let_def
  by (intro sweep_rules keeps_option) simp_all

lemma keeps_orphans: "keeps I (sweep_orphans root live_keys)"
proof -
  have "keeps I (drop_orphan_snapshot root live_keys found n)" for found n
  proof (cases "found \<in> set live_keys")
    case False
    let ?held = "snapshot_exists (fst found) (''sha256:'' @ snd found)"
    have "keeps I (matchE (select ?held) (\<lambda>_. returnE n) (\<lambda>held.
        if held then returnE n
        else matchE (erase_blob root (fst found) (snd found)) (\<lambda>_. returnE n) (\<lambda>_. returnE (n + 1))))"
    proof (rule keeps_match_when [where Q = "\<lambda>held w. held = ?held (store w)"])
      show "held = ?held (store w')" if "select ?held w = (Inr held, w')" for w held w'
        using select_same [OF that] by (auto simp: same_data_def)
      show "preserves (\<lambda>w. held = ?held (store w)) I (if held then returnE n
        else matchE (erase_blob root (fst found) (snd found)) (\<lambda>_. returnE n) (\<lambda>_. returnE (n + 1)))" for held
        using preserves_match [OF preserves_erase_blob [OF everyone], where h = "\<lambda>_. returnE n"
            and f = "\<lambda>_. returnE (n + 1)"]
        by (cases held) (auto simp: preserves_return keeps_return)
    qed (intro sweep_rules)+
    with False show ?thesis by (simp add: drop_orphan_snapshot_def)
  qed (simp add: drop_orphan_snapshot_def keeps_return)
  then show ?thesis
    unfolding sweep_orphans_def retained_on_disk_def
    by (intro sweep_rules) simp_all
qed

lemma keeps_metadata: "keeps I (sweep_metadata (lib A) limits counts)"
proof -
  have "keeps I (execute (sweep_outcomes_and_receipts (lib A) t1 t2))" for t1 t2
    unfolding preserves_True [symmetric] by (rule preserves_execute [OF frame]) (rule aged)
  moreover have "keeps I (execute (sweep_erased_references (lib A) t))" for t
    unfolding preserves_True [symmetric] by (rule preserves_execute [OF frame]) (rule forgotten)
  ultimately show ?thesis
    unfolding sweep_metadata_def
    by (intro keeps_bind framed_or_else keeps_case_prod keeps_return)
      (auto intro: framed_execute [OF frame])
qed

lemma keeps_reconcile: "keeps I (reconcile (lib A) root revoked charges now_at limits)"
  unfolding reconcile_def Let_def
  by (intro keeps_bind keeps_match keeps_return keeps_post_grace keeps_grants keeps_incoming keeps_claimed
      keeps_records keeps_adopt keeps_lapse_rows keeps_orphans keeps_metadata framed_select frame)

lemma keeps_sweep_task: "keeps I (sweep_task A at)"
  unfolding sweep_task_def
  by (auto intro!: keeps_bind keeps_return keeps_get keeps_reconcile split: option.splits)

lemma faults_framed: "I (with_faults fs w) \<longleftrightarrow> I w"
  by (auto simp: with_faults_def intro: framedD [OF frame])

text \<open>The steps of a running operator.\<close>

lemma serve_step: "I w \<Longrightarrow> fresh_ids A c w \<Longrightarrow> respond A req c (with_faults fs w) = (answer, w') \<Longrightarrow> I w'"
  by (rule respond_keeps [of c "with_faults fs w"]) (simp_all add: everyone faults_framed)

lemma poll_step: "I w \<Longrightarrow> poll_epoch A fetched now (with_faults fs w) = (r, w') \<Longrightarrow> I w'"
  by (metis faults_framed frame framed_poll keepsD)

lemma sweep_step: "I w \<Longrightarrow> sweep_task A now (with_faults fs w) = (r, w') \<Longrightarrow> I w'"
  by (metis faults_framed keeps_sweep_task keepsD)

lemma runs_keep: "runs A tidy w w' \<Longrightarrow> I w \<Longrightarrow> I w'"
  by (induction rule: runs.induct) (auto intro: serve_step poll_step sweep_step)

end

text \<open>A boot changes the terms it remembers and the epoch, nothing else.\<close>

lemma boot_Inr:
  assumes "boot A now w = (Inr (), w')"
  obtains t where "disk w' = disk w" "core_same (remember_terms (doc_terms_id (docs A)) (doc_terms (docs A))
      (doc_terms_signature (docs A)) t (store w)) (store w')"
proof -
  obtain t w1 where 1: "remember_boot_terms A t (w\<lparr>epoch := None\<rparr>) = (Inr (), w1)"
    and 2: "(if revocation_url (cfg A) = None then returnE () else restore_epoch A) w1 = (Inr (), w')"
    using assms unfolding boot_def
    by (auto simp: bindE_Inr_iff liftE_def modifyE_run)
  let ?J = "\<lambda>v. disk v = disk w1 \<and> core_same (store w1) (store v)"
  have J: "framed ?J" by (auto simp: framed_def core_same_def)
  have "keeps ?J (if revocation_url (cfg A) = None then returnE () else restore_epoch A)"
    by (intro keeps_if keeps_return framed_restore J)
  from keepsD [OF this _ 2] statement_Inr [OF 1 [unfolded remember_boot_terms_def]] show ?thesis
    by (intro that [of t]) auto
qed

end
