(* ===== verification/Soundness.thy ===== *)
theory Soundness
  imports Invariants
begin

text \<open>
  The state predicates of the operator and their interpretations of the interface of
  \<open>Invariants\<close>: \<open>sound\<close> (keys, grants, and live rows whose bytes are on the disk),
  \<open>pinned\<close> (every pinned terms document is kept), one kept terms row, and what one holder
  owns while another one acts.  Each reachable state satisfies the first two.
\<close>

section \<open>The core tables and their keys\<close>

definition core_keys :: "store \<Rightarrow> bool" where
  "core_keys s \<longleftrightarrow> keyed snap_key (t_snapshots s) \<and> keyed up_id (t_uploads s) \<and>
     keyed oc_key (t_outcomes s) \<and> keyed td_id (t_terms s) \<and> keyed rc_id (t_receipts s)"

lemma retain_tables [simp]:
  "t_uploads (retain u t s) = t_uploads s" "t_terms (retain u t s) = t_terms s"
  "t_receipts (retain u t s) = t_receipts s" "t_outcomes (retain u t s) = t_outcomes s"
  by (simp_all add: retain_def Let_def)

lemma revive_simps [simp]:
  "snap_holder (revive u t r) = snap_holder r" "snap_digest (revive u t r) = snap_digest r"
  "snap_key (revive u t r) = snap_key r" "snap_terms (revive u t r) = up_terms u"
  "snap_size (revive u t r) = up_size u" "snap_chunks (revive u t r) = up_chunk_count u"
  "live (revive u t r)"
  by (simp_all add: revive_def snap_key_def live_def)

lemma new_snapshot_simps [simp]:
  "snap_holder (new_snapshot u t) = up_holder u" "snap_digest (new_snapshot u t) = up_digest u"
  "snap_key (new_snapshot u t) = (up_holder u, up_digest u)" "snap_terms (new_snapshot u t) = up_terms u"
  "snap_size (new_snapshot u t) = up_size u" "snap_chunks (new_snapshot u t) = up_chunk_count u"
  "live (new_snapshot u t)"
  by (simp_all add: new_snapshot_def snap_key_def live_def)

text \<open>A row after \<open>retain\<close> is an old one, or the upload's.\<close>

definition row_of :: "upload_row \<Rightarrow> snapshot_row \<Rightarrow> bool" where
  "row_of u r \<longleftrightarrow> snap_holder r = up_holder u \<and> snap_digest r = up_digest u \<and>
     snap_chunks r = up_chunk_count u \<and> snap_size r = up_size u \<and> snap_terms r = up_terms u \<and> live r"

lemma retain_rows:
  "r \<in> set (t_snapshots (retain u t s)) \<Longrightarrow> r \<in> set (t_snapshots s) \<or> row_of u r"
  by (auto simp: retain_def Let_def update_where_def row_of_def snap_key_def split: if_splits)

lemma retain_keyed: "keyed snap_key (t_snapshots s) \<Longrightarrow> keyed snap_key (t_snapshots (retain u t s))"
  by (auto simp: retain_def Let_def) (auto simp: keyed_def)

lemma mark_unavailable_tables [simp]:
  "t_uploads (snd (mark_unavailable h d t s)) = t_uploads s"
  "t_terms (snd (mark_unavailable h d t s)) = t_terms s"
  "t_receipts (snd (mark_unavailable h d t s)) = t_receipts s"
  "t_outcomes (snd (mark_unavailable h d t s)) = t_outcomes s"
  by (simp_all add: mark_unavailable_def Let_def)

lemma mark_unavailable_keyed:
  "keyed snap_key (t_snapshots s) \<Longrightarrow> keyed snap_key (t_snapshots (snd (mark_unavailable h d t s)))"
  by (simp add: mark_unavailable_def Let_def snap_key_def)

lemma mark_unavailable_live:
  "r \<in> set (t_snapshots (snd (mark_unavailable h d t s))) \<Longrightarrow> live r \<Longrightarrow>
     r \<in> set (t_snapshots s) \<and> \<not> (snap_holder r = h \<and> snap_digest r = d)"
  by (auto simp: mark_unavailable_def Let_def update_where_def live_def split: if_splits)

lemma mark_unavailable_terms:
  "r \<in> set (t_snapshots (snd (mark_unavailable h d t s))) \<Longrightarrow>
     \<exists>r' \<in> set (t_snapshots s). snap_terms r' = snap_terms r"
  by (auto simp: mark_unavailable_def Let_def update_where_def split: if_splits)

lemma drop_upload_tables [simp]:
  "t_snapshots (drop_upload uid s) = t_snapshots s" "t_terms (drop_upload uid s) = t_terms s"
  "t_receipts (drop_upload uid s) = t_receipts s" "t_outcomes (drop_upload uid s) = t_outcomes s"
  "t_uploads (drop_upload uid s) = delete_where (\<lambda>r. up_id r = uid) (t_uploads s)"
  by (simp_all add: drop_upload_def)

lemma record_outcome_tables [simp]:
  "t_snapshots (record_outcome op h sj st i t s) = t_snapshots s"
  "t_uploads (record_outcome op h sj st i t s) = t_uploads s"
  "t_terms (record_outcome op h sj st i t s) = t_terms s"
  "t_receipts (record_outcome op h sj st i t s) = t_receipts s"
  by (simp_all add: record_outcome_def)

lemma record_outcome_keyed: "keyed oc_key (t_outcomes s) \<Longrightarrow> keyed oc_key (t_outcomes (record_outcome op h sj st i t s))"
  by (simp add: record_outcome_def)

lemma sweep_outcomes_tables [simp]:
  "t_snapshots (snd (sweep_outcomes_and_receipts X a b s)) = t_snapshots s"
  "t_uploads (snd (sweep_outcomes_and_receipts X a b s)) = t_uploads s"
  "t_terms (snd (sweep_outcomes_and_receipts X a b s)) = t_terms s"
  by (simp_all add: sweep_outcomes_and_receipts_def Let_def)

lemma sweep_references_tables [simp]:
  "t_outcomes (snd (sweep_erased_references X t s)) = t_outcomes s"
  "t_uploads (snd (sweep_erased_references X t s)) = t_uploads s"
  "t_terms (snd (sweep_erased_references X t s)) = t_terms s"
  "t_receipts (snd (sweep_erased_references X t s)) = t_receipts s"
  by (simp_all add: sweep_erased_references_def Let_def)

lemma sweep_references_rows: "set (t_snapshots (snd (sweep_erased_references X t s))) \<subseteq> set (t_snapshots s)"
  by (auto simp: sweep_erased_references_def Let_def)

lemma receipt_rows:
  "keyed rc_id (t_receipts s) \<Longrightarrow> keyed rc_id (t_receipts (fold (insert_receipt h scope at) ms s))"
  by (induction ms arbitrary: s) (simp_all add: insert_receipt_def)

lemma receipt_rows_set:
  "r \<in> set (t_receipts (fold (insert_receipt h scope at) ms s)) \<Longrightarrow>
     r \<in> set (t_receipts s) \<or> (\<exists>m \<in> set ms. rc_id r = mint_id m \<and> rc_terms r = mint_terms m \<and> rc_holder r = h)"
proof (induction ms arbitrary: s)
  case (Cons m ms)
  from Cons.IH [of "insert_receipt h scope at m s"] Cons.prems show ?case
    by (auto simp: insert_receipt_def set_insert_or_replace)
qed simp

lemma erasure_receipts:
  "t_receipts (commit_erasure X h scope ds ms op at s) =
     t_receipts (fold (insert_receipt h scope at) ms (fold (mark_erased h at) ds s))"
  by (simp add: commit_erasure_def)

lemma erasure_keyed:
  assumes "core_keys s" shows "core_keys (commit_erasure X h scope ds ms op at s)"
proof -
  have "keyed rc_id (t_receipts (commit_erasure X h scope ds ms op at s))"
    unfolding erasure_receipts using assms by (intro receipt_rows) (simp add: core_keys_def)
  moreover have "keyed oc_key (t_outcomes (commit_erasure X h scope ds ms op at s))"
    using assms by (simp add: commit_erasure_def record_outcome_keyed core_keys_def)
  moreover have "keyed snap_key (map (erased_row h at ds) (t_snapshots s))"
    using assms by (simp add: core_keys_def keyed_def comp_def)
  ultimately show ?thesis using assms by (simp add: core_keys_def)
qed

section \<open>Grants and their directories\<close>

lemma incoming_ok_same:
  "incoming_ok root d u \<Longrightarrow>
     dir_lookup d' (incoming_dir root (up_id u)) = dir_lookup d (incoming_dir root (up_id u)) \<Longrightarrow>
     incoming_ok root d' u"
  by (simp add: incoming_ok_def)

lemma incoming_ok_shrunk:
  assumes "incoming_ok root d u" "shrunk p d d'"
  shows "incoming_ok root d' u"
proof (cases "p = incoming_dir root (up_id u)")
  case True
  show ?thesis
    unfolding incoming_ok_def
  proof (intro allI impI)
    fix fs' assume "dir_lookup d' (incoming_dir root (up_id u)) = Some fs'"
    then obtain fs n where fs: "dir_lookup d (incoming_dir root (up_id u)) = Some fs" "fs' = drop n fs"
      using assms(2) True by (auto simp: shrunk_def)
    have sub: "set fs' \<subseteq> set fs" by (simp add: fs(2) set_drop_subset)
    have keys: "map fst fs' = drop n (map fst fs)" by (simp add: fs(2) drop_map)
    have ok: "distinct (map fst fs)"
      "\<forall>(i, b) \<in> set fs. 0 \<le> i \<and> i < up_chunk_count u \<and> int (length b) \<le> expected_chunk u i"
      using assms(1) fs(1) by (simp_all add: incoming_ok_def)
    show "distinct (map fst fs') \<and>
        (\<forall>(i, b) \<in> set fs'. 0 \<le> i \<and> i < up_chunk_count u \<and> int (length b) \<le> expected_chunk u i)"
      using ok sub by (intro conjI) (simp only: keys distinct_drop, blast)
  qed
next
  case False
  with assms(2) have "dir_lookup d' (incoming_dir root (up_id u)) = dir_lookup d (incoming_dir root (up_id u))"
    by (auto simp: shrunk_def only_at_def)
  then show ?thesis by (rule incoming_ok_same [OF assms(1)])
qed

lemma incoming_ok_chunk:
  assumes "incoming_ok root d u" "0 \<le> i" "i < up_chunk_count u" "int (length bytes) = expected_chunk u i"
    "chunk_added (incoming_dir root (up_id u)) i bytes d d'"
  shows "incoming_ok root d' u"
proof -
  let ?p = "incoming_dir root (up_id u)"
  consider "dir_lookup d' ?p = dir_lookup d ?p"
    | fs k where "dir_lookup d ?p = Some fs" "map_of fs i = None"
        "dir_lookup d' ?p = Some (AList.update i (take k bytes) fs)"
    using assms(5) unfolding chunk_added_def by blast
  then show ?thesis
  proof cases
    case 1
    then show ?thesis by (rule incoming_ok_same [OF assms(1)])
  next
    case 2
    have new: "AList.update i (take k bytes) fs = fs @ [(i, take k bytes)]"
      using 2(2) by (induction fs) (auto split: if_splits)
    have "i \<notin> fst ` set fs" using 2(2) by (simp add: map_of_eq_None_iff)
    moreover have "int (length (take k bytes)) \<le> expected_chunk u i" using assms(4) by simp
    ultimately show ?thesis
      using assms(1-3) 2(1) unfolding incoming_ok_def 2(3) new by auto
  qed
qed

lemma grants_ok_disk:
  assumes "grants_ok root w" "store w' = store w"
    "\<And>u. u \<in> set (t_uploads (store w)) \<Longrightarrow> incoming_ok root (disk w) u \<Longrightarrow> incoming_ok root (disk w') u"
  shows "grants_ok root w'"
  using assms by (auto simp: grants_ok_def)

section \<open>Live rows\<close>

definition row_intact :: "crates \<Rightarrow> string \<Rightarrow> disk \<Rightarrow> snapshot_row \<Rightarrow> bool" where
  "row_intact X root d r \<longleftrightarrow>
     (\<exists>hex. digest_hex (snap_digest r) = Inr hex \<and>
        intact X root d (snap_holder r) hex (snap_chunks r) (snap_size r))"

definition rows_intact :: "crates \<Rightarrow> string \<Rightarrow> world \<Rightarrow> bool" where
  "rows_intact X root w \<longleftrightarrow> (\<forall>r \<in> set (t_snapshots (store w)). live r \<longrightarrow> row_intact X root (disk w) r)"

lemma row_readable:
  assumes "rows_intact X root w" "r \<in> set (t_snapshots (store w))" "live r"
  shows "\<exists>hex paths b. snap_digest r = ''sha256:'' @ hex \<and>
    chunk_paths root (snap_holder r) hex (snap_chunks r) (snap_size r) (disk w) = Inr paths \<and>
    snapshot_stream (disk w) paths = Inr b \<and> int (length b) = snap_size r \<and> digest X b = snap_digest r"
proof -
  obtain hex where "digest_hex (snap_digest r) = Inr hex"
    "intact X root (disk w) (snap_holder r) hex (snap_chunks r) (snap_size r)"
    using assms by (auto simp: rows_intact_def row_intact_def)
  then show ?thesis by (auto simp: intact_def chunk_paths_whole dest!: digest_hex_Inr)
qed

lemma rows_intact_fewer:
  assumes "rows_intact X root w" "disk w' = disk w"
    "\<And>r. r \<in> set (t_snapshots (store w')) \<Longrightarrow> live r \<Longrightarrow> \<exists>r' \<in> set (t_snapshots (store w)). live r' \<and>
      snap_holder r' = snap_holder r \<and> snap_digest r' = snap_digest r \<and> snap_chunks r' = snap_chunks r \<and>
      snap_size r' = snap_size r"
  shows "rows_intact X root w'"
  unfolding rows_intact_def
proof (intro ballI impI)
  fix r assume r: "r \<in> set (t_snapshots (store w'))" "live r"
  from assms(3) [OF this] assms(1,2) show "row_intact X root (disk w') r"
    by (auto simp: rows_intact_def row_intact_def)
qed

lemma rows_intact_disk:
  assumes "rows_intact X root w" "store w' = store w"
    "\<And>r hex. r \<in> set (t_snapshots (store w)) \<Longrightarrow> live r \<Longrightarrow> digest_hex (snap_digest r) = Inr hex \<Longrightarrow>
      intact X root (disk w) (snap_holder r) hex (snap_chunks r) (snap_size r) \<Longrightarrow>
      dir_lookup (disk w') (snapshot_dir root (snap_holder r) hex) =
      dir_lookup (disk w) (snapshot_dir root (snap_holder r) hex)"
  shows "rows_intact X root w'"
  using assms unfolding rows_intact_def row_intact_def by (metis intact_frame)

section \<open>The sound states\<close>

definition sound :: "app \<Rightarrow> world \<Rightarrow> bool" where
  "sound A w \<longleftrightarrow> app_ok A \<and> core_keys (store w) \<and> grants_ok (blob_root (cfg A)) w \<and>
     rows_intact (lib A) (blob_root (cfg A)) w"

lemma soundI:
  "app_ok A \<Longrightarrow> core_keys (store w) \<Longrightarrow> grants_ok (blob_root (cfg A)) w \<Longrightarrow>
     rows_intact (lib A) (blob_root (cfg A)) w \<Longrightarrow> sound A w"
  by (simp add: sound_def)

lemma soundD:
  assumes "sound A w"
  shows "app_ok A" "core_keys (store w)" "grants_ok (blob_root (cfg A)) w"
    "rows_intact (lib A) (blob_root (cfg A)) w"
  using assms by (simp_all add: sound_def)

lemma sound_framed: "framed (sound A)"
  unfolding framed_def sound_def core_keys_def core_same_def grants_ok_def rows_intact_def by metis

lemma sound_minted:
  assumes "sound A w" "store w' = (store w)\<lparr>t_uploads := t_uploads (store w) @ [row]\<rparr>" "disk w' = disk w"
    "grant_ok row" "\<forall>r \<in> set (t_uploads (store w)). up_id r \<noteq> up_id row"
    "dir_lookup (disk w) (incoming_dir (blob_root (cfg A)) (up_id row)) = Some []"
  shows "sound A w'"
proof (rule soundI)
  have row: "incoming_ok (blob_root (cfg A)) (disk w') row" using assms(3,6) by (simp add: incoming_ok_def)
  have keys: "keyed up_id (t_uploads (store w'))"
    unfolding assms(2) using soundD(2) [OF assms(1)] assms(5) by (simp add: core_keys_def keyed_snoc)
  show "core_keys (store w')" using soundD(2) [OF assms(1)] keys assms(2) by (simp add: core_keys_def)
  show "grants_ok (blob_root (cfg A)) w'"
    using soundD(3) [OF assms(1)] keys row assms(2-4) by (simp add: grants_ok_def)
  show "rows_intact (lib A) (blob_root (cfg A)) w'"
    using soundD(4) [OF assms(1)] assms(2,3) by (simp add: rows_intact_def)
qed (rule soundD(1) [OF assms(1)])

lemma sound_dropped:
  "sound A w \<Longrightarrow> store w' = drop_upload uid (store w) \<Longrightarrow> disk w' = disk w \<Longrightarrow> sound A w'"
  by (auto simp: sound_def core_keys_def grants_ok_def rows_intact_def)

lemma sound_expired:
  assumes "sound A w" "store w' = snd (mark_unavailable h d t (store w))" "disk w' = disk w"
  shows "sound A w'"
proof (rule soundI)
  show "rows_intact (lib A) (blob_root (cfg A)) w'"
    by (rule rows_intact_fewer [OF soundD(4) [OF assms(1)] assms(3)])
      (unfold assms(2), auto dest: mark_unavailable_live)
qed (use assms mark_unavailable_keyed in \<open>auto simp: sound_def core_keys_def grants_ok_def\<close>)

lemma sound_erased:
  assumes "sound A w" "store w' = commit_erasure (lib A) h scope ds ms op t (store w)" "disk w' = disk w"
  shows "sound A w'"
proof (rule soundI)
  show "rows_intact (lib A) (blob_root (cfg A)) w'"
    by (rule rows_intact_fewer [OF soundD(4) [OF assms(1)] assms(3)]) (use assms(2) in auto)
qed (use assms erasure_keyed in \<open>auto simp: sound_def grants_ok_def\<close>)

lemma sound_retained:
  assumes "sound A w" "digest_hex (up_digest u) = Inr hex"
    "intact (lib A) (blob_root (cfg A)) (disk w) (up_holder u) hex (up_chunk_count u) (up_size u)"
    "store w' = retain u t (store w)" "disk w' = disk w"
  shows "sound A w'"
proof (rule soundI)
  show "rows_intact (lib A) (blob_root (cfg A)) w'"
    unfolding rows_intact_def
  proof (intro ballI impI)
    fix r assume "r \<in> set (t_snapshots (store w'))" "live r"
    then have "r \<in> set (t_snapshots (store w)) \<or> row_of u r" using retain_rows assms(4) by simp
    with \<open>live r\<close> assms show "row_intact (lib A) (blob_root (cfg A)) (disk w') r"
      by (auto simp: sound_def rows_intact_def row_intact_def row_of_def)
  qed
qed (use assms retain_keyed in \<open>auto simp: sound_def core_keys_def grants_ok_def\<close>)

text \<open>Changes of the disk away from the snapshot directories, and in them.\<close>

lemma sound_incoming:
  assumes "sound A w" "store w' = store w" "only_at (incoming_dir (blob_root (cfg A)) uid) (disk w) (disk w')"
    "\<And>u. u \<in> set (t_uploads (store w)) \<Longrightarrow> incoming_ok (blob_root (cfg A)) (disk w) u \<Longrightarrow>
      incoming_ok (blob_root (cfg A)) (disk w') u"
  shows "sound A w'"
proof (rule soundI)
  show "grants_ok (blob_root (cfg A)) w'"
    by (rule grants_ok_disk [OF soundD(3) [OF assms(1)] assms(2)]) (rule assms(4))
  show "rows_intact (lib A) (blob_root (cfg A)) w'"
    by (rule rows_intact_disk [OF soundD(4) [OF assms(1)] assms(2)]) (use assms(3) in \<open>auto simp: only_at_def\<close>)
qed (use soundD(1,2) [OF assms(1)] assms(2) in simp_all)

lemma sound_opened:
  assumes "sound A w" "store w' = store w" "\<forall>u \<in> set (t_uploads (store w)). up_id u \<noteq> uid"
    "only_at (incoming_dir (blob_root (cfg A)) uid) (disk w) (disk w')"
  shows "sound A w'"
proof (rule sound_incoming [OF assms(1,2,4)])
  show "incoming_ok (blob_root (cfg A)) (disk w') u"
    if "u \<in> set (t_uploads (store w))" "incoming_ok (blob_root (cfg A)) (disk w) u" for u
    by (rule incoming_ok_same [OF that(2)]) (use that assms(3,4) in \<open>auto simp: only_at_def\<close>)
qed

lemma sound_written:
  assumes "sound A w" "u \<in> set (t_uploads (store w))" "0 \<le> i" "i < up_chunk_count u"
    "int (length bytes) = expected_chunk u i" "store w' = store w"
    "chunk_added (incoming_dir (blob_root (cfg A)) (up_id u)) i bytes (disk w) (disk w')"
  shows "sound A w'"
proof (rule sound_incoming [OF assms(1,6)])
  show only: "only_at (incoming_dir (blob_root (cfg A)) (up_id u)) (disk w) (disk w')"
    using assms(7) by (simp add: chunk_added_def)
  show "incoming_ok (blob_root (cfg A)) (disk w') v"
    if v: "v \<in> set (t_uploads (store w))" "incoming_ok (blob_root (cfg A)) (disk w) v" for v
  proof (cases "up_id v = up_id u")
    case True
    then have "v = u" using assms(1,2) v(1) keyed_unique [of up_id] by (auto simp: sound_def core_keys_def)
    then show ?thesis using incoming_ok_chunk assms v(2) by blast
  next
    case False
    then show ?thesis by (intro incoming_ok_same [OF v(2)]) (use only in \<open>auto simp: only_at_def\<close>)
  qed
qed

lemma sound_discarded:
  assumes "sound A w" "store w' = store w" "shrunk (incoming_dir (blob_root (cfg A)) uid) (disk w) (disk w')"
  shows "sound A w'"
  by (rule sound_incoming [OF assms(1,2) shrunk_only_at [OF assms(3)]]) (rule incoming_ok_shrunk [OF _ assms(3)])

lemma sound_unlinked:
  assumes "sound A w" "\<not> snapshot_exists h (''sha256:'' @ hex) (store w)" "store w' = store w"
    "shrunk (snapshot_dir (blob_root (cfg A)) h hex) (disk w) (disk w')"
  shows "sound A w'"
proof (rule soundI)
  show "grants_ok (blob_root (cfg A)) w'"
    by (rule grants_ok_disk [OF soundD(3) [OF assms(1)] assms(3)]) (rule incoming_ok_shrunk [OF _ assms(4)])
  show "rows_intact (lib A) (blob_root (cfg A)) w'"
  proof (rule rows_intact_disk [OF soundD(4) [OF assms(1)] assms(3)])
    fix r x assume r: "r \<in> set (t_snapshots (store w))" "live r" "digest_hex (snap_digest r) = Inr x"
    then have "\<not> (snap_holder r = h \<and> x = hex)"
      using assms(2) by (auto simp: snapshot_exists_iff dest: digest_hex_Inr)
    then show "dir_lookup (disk w') (snapshot_dir (blob_root (cfg A)) (snap_holder r) x) =
        dir_lookup (disk w) (snapshot_dir (blob_root (cfg A)) (snap_holder r) x)"
      using assms(4) by (auto simp: shrunk_def only_at_def)
  qed
qed (use soundD(1,2) [OF assms(1)] assms(3) in simp_all)

lemma sound_placed:
  assumes "sound A w" "store w' = store w"
    "moved (incoming_dir (blob_root (cfg A)) uid) (snapshot_dir (blob_root (cfg A)) h hex) (disk w) (disk w')"
  shows "sound A w'"
proof (rule soundI)
  have other: "dir_lookup (disk w') q = dir_lookup (disk w) q"
    if "q \<noteq> incoming_dir (blob_root (cfg A)) uid" "q \<noteq> snapshot_dir (blob_root (cfg A)) h hex" for q
    using assms(3) that by (auto simp: moved_def)
  show "grants_ok (blob_root (cfg A)) w'"
  proof (rule grants_ok_disk [OF soundD(3) [OF assms(1)] assms(2)])
    show "incoming_ok (blob_root (cfg A)) (disk w') u" if "incoming_ok (blob_root (cfg A)) (disk w) u" for u
    proof (cases "up_id u = uid")
      case True
      then show ?thesis using assms(3) by (auto simp: moved_def incoming_ok_def)
    next
      case False
      then show ?thesis by (intro incoming_ok_same [OF that] other) simp_all
    qed
  qed
  show "rows_intact (lib A) (blob_root (cfg A)) w'"
  proof (rule rows_intact_disk [OF soundD(4) [OF assms(1)] assms(2)])
    fix r x assume "intact (lib A) (blob_root (cfg A)) (disk w) (snap_holder r) x (snap_chunks r) (snap_size r)"
    then have "snapshot_dir (blob_root (cfg A)) (snap_holder r) x \<noteq> snapshot_dir (blob_root (cfg A)) h hex"
      using assms(3) by (auto simp: intact_def moved_def)
    then show "dir_lookup (disk w') (snapshot_dir (blob_root (cfg A)) (snap_holder r) x) =
        dir_lookup (disk w) (snapshot_dir (blob_root (cfg A)) (snap_holder r) x)"
      by (intro other) simp_all
  qed
qed (use soundD(1,2) [OF assms(1)] assms(2) in simp_all)

lemma sound_noted:
  "sound A w \<Longrightarrow> store w' = record_outcome op h sj st i t (store w) \<Longrightarrow> disk w' = disk w \<Longrightarrow> sound A w'"
  using record_outcome_keyed by (auto simp: sound_def core_keys_def grants_ok_def rows_intact_def)

lemma sound_forgotten:
  assumes "sound A w" "store w' = snd (sweep_erased_references X t (store w))" "disk w' = disk w"
  shows "sound A w'"
proof (rule soundI)
  show "rows_intact (lib A) (blob_root (cfg A)) w'"
    by (rule rows_intact_fewer [OF soundD(4) [OF assms(1)] assms(3)])
      (unfold assms(2), use sweep_references_rows in blast)
  show "core_keys (store w')"
    using assms by (auto simp: sound_def core_keys_def sweep_erased_references_def Let_def)
qed (use assms in \<open>auto simp: sound_def grants_ok_def\<close>)

lemma sound_aged:
  "sound A w \<Longrightarrow> store w' = snd (sweep_outcomes_and_receipts X a b (store w)) \<Longrightarrow> disk w' = disk w \<Longrightarrow> sound A w'"
  by (auto simp: sound_def core_keys_def grants_ok_def rows_intact_def sweep_outcomes_and_receipts_def Let_def)

lemmas sound_changes = sound_noted sound_minted sound_dropped sound_expired sound_erased sound_retained
  sound_opened sound_written sound_discarded sound_unlinked sound_placed sound_forgotten sound_aged

interpretation sound: operator_invariant A "\<lambda>_. True" "sound A" for A
  by unfold_locales (rule TrueI soundD sound_framed sound_changes; assumption)+

section \<open>Pinned terms\<close>

definition kept_terms :: "string \<Rightarrow> store \<Rightarrow> bool" where
  "kept_terms terms_id s \<longleftrightarrow> (\<exists>t \<in> set (t_terms s). td_id t = terms_id)"

lemma kept_terms_document: "kept_terms terms_id s \<longleftrightarrow> (\<exists>raw sig. terms_document terms_id s = Some (raw, sig))"
proof
  assume "kept_terms terms_id s"
  then have "List.find (\<lambda>r. td_id r = terms_id) (t_terms s) \<noteq> None"
    by (auto simp: kept_terms_def find_None_iff)
  then show "\<exists>raw sig. terms_document terms_id s = Some (raw, sig)"
    by (auto simp: terms_document_def)
qed (auto simp: kept_terms_def terms_document_def find_Some_iff)

definition pins_kept :: "store \<Rightarrow> bool" where
  "pins_kept s \<longleftrightarrow> (\<forall>r \<in> set (t_snapshots s). kept_terms (snap_terms r) s) \<and>
     (\<forall>u \<in> set (t_uploads s). kept_terms (up_terms u) s) \<and>
     (\<forall>r \<in> set (t_receipts s). kept_terms (rc_terms r) s)"

definition pinned :: "app \<Rightarrow> world \<Rightarrow> bool" where
  "pinned A w \<longleftrightarrow> sound A w \<and> kept_terms (doc_terms_id (docs A)) (store w) \<and> pins_kept (store w)"

lemma pinnedD:
  assumes "pinned A w"
  shows "sound A w" "kept_terms (doc_terms_id (docs A)) (store w)" "pins_kept (store w)"
  using assms by (simp_all add: pinned_def)

text \<open>A change keeps the pins when the terms stay and no new pin appears.\<close>

lemma pinned_change:
  assumes "pinned A w" "sound A w'" "t_terms (store w') = t_terms (store w)"
    "\<And>r. r \<in> set (t_snapshots (store w')) \<Longrightarrow> kept_terms (snap_terms r) (store w)"
    "\<And>u. u \<in> set (t_uploads (store w')) \<Longrightarrow> kept_terms (up_terms u) (store w)"
    "\<And>r. r \<in> set (t_receipts (store w')) \<Longrightarrow> kept_terms (rc_terms r) (store w)"
  shows "pinned A w'"
  using assms by (simp add: pinned_def pins_kept_def kept_terms_def)

lemma pins_rows:
  assumes "pinned A w"
  shows "\<And>r. r \<in> set (t_snapshots (store w)) \<Longrightarrow> kept_terms (snap_terms r) (store w)"
    "\<And>u. u \<in> set (t_uploads (store w)) \<Longrightarrow> kept_terms (up_terms u) (store w)"
    "\<And>r. r \<in> set (t_receipts (store w)) \<Longrightarrow> kept_terms (rc_terms r) (store w)"
  using assms by (auto simp: pinned_def pins_kept_def)

lemma pinned_same_tables:
  assumes "pinned A w" "sound A w'" "t_terms (store w') = t_terms (store w)"
    "set (t_snapshots (store w')) \<subseteq> set (t_snapshots (store w))"
    "set (t_uploads (store w')) \<subseteq> set (t_uploads (store w))"
    "set (t_receipts (store w')) \<subseteq> set (t_receipts (store w))"
  shows "pinned A w'"
  using pins_rows [OF assms(1)] assms(4-6) by (intro pinned_change [OF assms(1-3)]) blast+

lemma pinned_framed: "framed (pinned A)"
proof -
  have "pinned A w'" if "pinned A w" "core_same (store w) (store w')" "disk w' = disk w" for w w'
    by (rule pinned_same_tables [OF that(1)])
      (use that framedD [OF sound_framed pinnedD(1)] in \<open>auto simp: core_same_def\<close>)
  then show ?thesis by (auto simp: framed_def)
qed

lemma pinned_minted:
  assumes "pinned A w" "store w' = (store w)\<lparr>t_uploads := t_uploads (store w) @ [row]\<rparr>" "disk w' = disk w"
    "grant_ok row" "up_terms row = doc_terms_id (docs A)"
    "\<forall>r \<in> set (t_uploads (store w)). up_id r \<noteq> up_id row"
    "dir_lookup (disk w) (incoming_dir (blob_root (cfg A)) (up_id row)) = Some []"
  shows "pinned A w'"
  by (rule pinned_change [OF assms(1) sound_minted [OF pinnedD(1) [OF assms(1)] assms(2-4,6,7)]])
    (use assms(2,5) pins_rows [OF assms(1)] pinnedD(2) [OF assms(1)] in auto)

lemma pinned_expired:
  assumes "pinned A w" "store w' = snd (mark_unavailable h d t (store w))" "disk w' = disk w"
  shows "pinned A w'"
proof (rule pinned_change [OF assms(1) sound_expired [OF pinnedD(1) [OF assms(1)] assms(2,3)]])
  show "kept_terms (snap_terms r) (store w)" if "r \<in> set (t_snapshots (store w'))" for r
    using mark_unavailable_terms [of r h d t "store w"] that pins_rows(1) [OF assms(1)] assms(2) by fastforce
qed (use assms(2) pins_rows [OF assms(1)] in auto)

lemma pinned_erased:
  assumes "pinned A w" "store w' = commit_erasure (lib A) h scope ds ms op t (store w)" "disk w' = disk w"
    "\<forall>m \<in> set ms. \<exists>r \<in> set (t_terms (store w)). td_id r = mint_terms m"
  shows "pinned A w'"
proof (rule pinned_change [OF assms(1) sound_erased [OF pinnedD(1) [OF assms(1)] assms(2,3)]])
  show "kept_terms (rc_terms r) (store w)" if "r \<in> set (t_receipts (store w'))" for r
  proof -
    have "r \<in> set (t_receipts (store w)) \<or> (\<exists>m \<in> set ms. rc_terms r = mint_terms m)"
      using that receipt_rows_set [of r h scope t ms "fold (mark_erased h t) ds (store w)"]
      unfolding assms(2) erasure_receipts by auto
    then show ?thesis using pins_rows(3) [OF assms(1)] assms(4) by (auto simp: kept_terms_def)
  qed
qed (use assms(2) pins_rows [OF assms(1)] in auto)

lemma pinned_retained:
  assumes "pinned A w" "u \<in> set (t_uploads (store w))" "digest_hex (up_digest u) = Inr hex"
    "intact (lib A) (blob_root (cfg A)) (disk w) (up_holder u) hex (up_chunk_count u) (up_size u)"
    "store w' = retain u t (store w)" "disk w' = disk w"
  shows "pinned A w'"
proof (rule pinned_change [OF assms(1) sound_retained [OF pinnedD(1) [OF assms(1)] assms(3-6)]])
  show "kept_terms (snap_terms r) (store w)" if "r \<in> set (t_snapshots (store w'))" for r
    using retain_rows [of r u t "store w"] that assms(5) pins_rows(1,2) [OF assms(1)] assms(2)
    by (auto simp: row_of_def)
qed (use assms(5) pins_rows [OF assms(1)] in auto)

lemma pinned_others:
  assumes "pinned A w" "sound A w'"
    "store w' \<in> {store w, record_outcome op h sj st i t (store w), drop_upload uid (store w),
      snd (sweep_erased_references X t (store w)), snd (sweep_outcomes_and_receipts X a b (store w))}"
  shows "pinned A w'"
proof (rule pinned_same_tables [OF assms(1,2)])
  show "set (t_receipts (store w')) \<subseteq> set (t_receipts (store w))"
    using assms(3) by (auto simp: sweep_outcomes_and_receipts_def Let_def)
qed (use assms(3) sweep_references_rows in \<open>auto; blast\<close>)+

lemma pinned_noted: "pinned A w \<Longrightarrow> store w' = record_outcome op h sj st i t (store w) \<Longrightarrow>
    disk w' = disk w \<Longrightarrow> pinned A w'"
  by (rule pinned_others [OF _ sound_noted [OF pinnedD(1)]]) auto

lemma pinned_dropped: "pinned A w \<Longrightarrow> store w' = drop_upload uid (store w) \<Longrightarrow> disk w' = disk w \<Longrightarrow> pinned A w'"
  by (rule pinned_others [OF _ sound_dropped [OF pinnedD(1)]]) auto

lemma pinned_forgotten: "pinned A w \<Longrightarrow> store w' = snd (sweep_erased_references X t (store w)) \<Longrightarrow>
    disk w' = disk w \<Longrightarrow> pinned A w'"
  by (rule pinned_others [OF _ sound_forgotten [OF pinnedD(1)]]) auto

lemma pinned_aged: "pinned A w \<Longrightarrow> store w' = snd (sweep_outcomes_and_receipts X a b (store w)) \<Longrightarrow>
    disk w' = disk w \<Longrightarrow> pinned A w'"
  by (rule pinned_others [OF _ sound_aged [OF pinnedD(1)]]) auto

lemma pinned_disk:
  "pinned A w \<Longrightarrow> store w' = store w \<Longrightarrow> sound A w' \<Longrightarrow> pinned A w'"
  by (rule pinned_others) auto

lemmas pinned_on_disk =
  pinned_disk [OF _ _ sound_opened [OF pinnedD(1)]]
  pinned_disk [OF _ _ sound_written [OF pinnedD(1)]]
  pinned_disk [OF _ _ sound_discarded [OF pinnedD(1)]]
  pinned_disk [OF _ _ sound_unlinked [OF pinnedD(1)]]
  pinned_disk [OF _ _ sound_placed [OF pinnedD(1)]]

lemmas pinned_changes = pinned_noted pinned_minted pinned_dropped pinned_expired pinned_erased
  pinned_retained pinned_on_disk pinned_forgotten pinned_aged

interpretation pinned: operator_invariant A "\<lambda>_. True" "pinned A" for A
  by unfold_locales
    (rule TrueI soundD [OF pinnedD(1)] pinned_framed pinned_changes; assumption)+

section \<open>Reachable states\<close>

lemma boot_app_ok: "boot_app X t env = Inr A \<Longrightarrow> decodes_i64 X \<Longrightarrow> app_ok A"
  using from_env_ok [of X t env "cfg A"]
  by (auto simp: app_ok_def config_ok_def positive_i64_def dest!: boot_app_Inr)

text \<open>After a boot the state is what it was, with this boot's terms noted.\<close>

lemma boot_rows:
  assumes "boot A now w = (Inr (), w')"
  shows "disk w' = disk w \<and> t_snapshots (store w') = t_snapshots (store w) \<and>
    t_uploads (store w') = t_uploads (store w) \<and> t_outcomes (store w') = t_outcomes (store w) \<and>
    t_receipts (store w') = t_receipts (store w) \<and> set (t_terms (store w)) \<subseteq> set (t_terms (store w')) \<and>
    kept_terms (doc_terms_id (docs A)) (store w') \<and>
    (keyed td_id (t_terms (store w)) \<longrightarrow> keyed td_id (t_terms (store w')))"
  using assms
  by (rule boot_Inr) (auto simp: core_same_def remember_terms_def insert_or_ignore_def kept_terms_def keyed_snoc)

lemma pinned_boot:
  assumes "boot B now w = (Inr (), w')" "app_ok B" "core_keys (store w)" "pins_kept (store w)"
    "grants_ok (blob_root (cfg B)) w" "rows_intact (lib B) (blob_root (cfg B)) w"
  shows "pinned B w'"
proof -
  note b = boot_rows [OF assms(1)]
  have "sound B w'"
    using assms(2,3,5,6) b by (auto simp: sound_def core_keys_def grants_ok_def rows_intact_def)
  moreover have "kept_terms t (store w')" if "kept_terms t (store w)" for t
    using that b by (auto simp: kept_terms_def)
  then have "pins_kept (store w')"
    using assms(4) b by (simp add: pins_kept_def)
  ultimately show ?thesis using b by (simp add: pinned_def)
qed

theorem operates_pinned: "operates X root A w \<Longrightarrow> decodes_i64 X \<Longrightarrow> pinned A w"
proof (induction rule: operates.induct)
  case (Start t env A now fs w)
  have empty: "core_keys (store (with_faults fs blank))" "pins_kept (store (with_faults fs blank))"
    "grants_ok r (with_faults fs blank)" "rows_intact Y r (with_faults fs blank)" for r Y
    by (simp_all add: with_faults_def blank_def empty_store_def core_keys_def pins_kept_def grants_ok_def
        rows_intact_def keyed_def)
  from pinned_boot [OF Start(3) boot_app_ok [OF Start(1)] empty] Start show ?case by simp
next
  case (Restart A w t env B now fs w')
  then have p: "pinned A w" by simp
  have l: "lib A = lib B" "blob_root (cfg A) = blob_root (cfg B)"
    using operates_lib [OF Restart(1)] boot_app_Inr [OF Restart(2)] Restart(3) by simp_all
  from p have q: "core_keys (store (with_faults fs w))" "pins_kept (store (with_faults fs w))"
    "grants_ok (blob_root (cfg B)) (with_faults fs w)"
    "rows_intact (lib B) (blob_root (cfg B)) (with_faults fs w)"
    by (auto simp: pinned_def sound_def l with_faults_def grants_ok_def rows_intact_def)
  show ?case by (rule pinned_boot [OF Restart(4) boot_app_ok [OF Restart(2)] q]) (rule Restart)
qed (auto intro: pinned.serve_step pinned.poll_step pinned.sweep_step)

end
