(* ===== verification/Isolation.thy ===== *)
theory Isolation
  imports Soundness
begin

text \<open>
  Two more interpretations of the interface: a terms document that is kept stays kept, and a
  request changes nothing that belongs to a holder other than the one whose key its headers
  name.
\<close>

section \<open>Terms documents are kept\<close>

definition holding :: "app \<Rightarrow> terms_row \<Rightarrow> world \<Rightarrow> bool" where
  "holding A row w \<longleftrightarrow> sound A w \<and> row \<in> set (t_terms (store w))"

lemma holdingD: "holding A row w \<Longrightarrow> sound A w"
  by (simp add: holding_def)

lemma holding_change:
  "holding A row w \<Longrightarrow> sound A w' \<Longrightarrow> t_terms (store w') = t_terms (store w) \<Longrightarrow> holding A row w'"
  by (simp add: holding_def)

lemma holding_framed: "framed (holding A row)"
  using sound_framed unfolding framed_def holding_def core_same_def by metis

lemmas holding_changes =
  holding_change [OF _ sound_noted [OF holdingD]] holding_change [OF _ sound_minted [OF holdingD]]
  holding_change [OF _ sound_dropped [OF holdingD]] holding_change [OF _ sound_expired [OF holdingD]]
  holding_change [OF _ sound_erased [OF holdingD]] holding_change [OF _ sound_retained [OF holdingD]]
  holding_change [OF _ sound_opened [OF holdingD]] holding_change [OF _ sound_written [OF holdingD]]
  holding_change [OF _ sound_discarded [OF holdingD]] holding_change [OF _ sound_unlinked [OF holdingD]]
  holding_change [OF _ sound_placed [OF holdingD]] holding_change [OF _ sound_forgotten [OF holdingD]]
  holding_change [OF _ sound_aged [OF holdingD]]

interpretation holding: operator_invariant A "\<lambda>_. True" "holding A row" for A row
  by unfold_locales
    (rule TrueI soundD [OF holdingD] holding_framed holding_changes; (assumption | simp))+

lemma terms_document_Some:
  "keyed td_id (t_terms s) \<Longrightarrow> terms_document terms_id s = Some d \<longleftrightarrow>
     (\<exists>row \<in> set (t_terms s). td_id row = terms_id \<and> d = (td_raw row, td_signature row))"
proof
  assume "keyed td_id (t_terms s)"
    "\<exists>row \<in> set (t_terms s). td_id row = terms_id \<and> d = (td_raw row, td_signature row)"
  then obtain row where row: "row \<in> set (t_terms s)" "td_id row = terms_id" "d = (td_raw row, td_signature row)"
    and k: "keyed td_id (t_terms s)" by blast
  obtain row' where "List.find (\<lambda>r. td_id r = terms_id) (t_terms s) = Some row'"
    using row(1,2) find_None_iff [of "\<lambda>r. td_id r = terms_id" "t_terms s"] by fastforce
  moreover from this have "row' \<in> set (t_terms s)" "td_id row' = terms_id"
    by (auto simp: find_Some_iff)
  ultimately show "terms_document terms_id s = Some d"
    using row keyed_unique [OF k, of row row'] by (simp add: terms_document_def)
qed (auto simp: terms_document_def find_Some_iff)

lemma terms_document_runs:
  assumes "sound A w" "runs A tidy w w'" "terms_document terms_id (store w) = Some d"
  shows "terms_document terms_id (store w') = Some d"
proof -
  have keys: "keyed td_id (t_terms (store v))" if "sound A v" for v
    using soundD(2) [OF that] by (simp add: core_keys_def)
  obtain row where row: "row \<in> set (t_terms (store w))" "td_id row = terms_id" "d = (td_raw row, td_signature row)"
    using assms(3) terms_document_Some [OF keys [OF assms(1)]] by auto
  then have "holding A row w" using assms(1) by (simp add: holding_def)
  then have "holding A row w'" by (rule holding.runs_keep [OF assms(2)])
  with row terms_document_Some [OF keys [OF holdingD]] show ?thesis by (auto simp: holding_def)
qed

section \<open>What one holder owns\<close>

definition owned :: "string \<Rightarrow> store \<Rightarrow>
    snapshot_row list \<times> upload_row list \<times> outcome_row list \<times> receipt_row list" where
  "owned h s =
     (filter (\<lambda>r. snap_holder r = h) (t_snapshots s), filter (\<lambda>u. up_holder u = h) (t_uploads s),
      filter (\<lambda>r. oc_holder r = h) (t_outcomes s), filter (\<lambda>r. rc_holder r = h) (t_receipts s))"

text \<open>The rows of \<open>h\<close>, its snapshot directories and the directories of its grants, as in \<open>w0\<close>.\<close>

definition untouched :: "app \<Rightarrow> string \<Rightarrow> world \<Rightarrow> world \<Rightarrow> bool" where
  "untouched A h w0 w \<longleftrightarrow> sound A w \<and> owned h (store w) = owned h (store w0) \<and>
     (\<forall>hex. dir_lookup (disk w) (snapshot_dir (blob_root (cfg A)) h hex) =
        dir_lookup (disk w0) (snapshot_dir (blob_root (cfg A)) h hex)) \<and>
     (\<forall>u \<in> set (t_uploads (store w0)). up_holder u = h \<longrightarrow>
        dir_lookup (disk w) (incoming_dir (blob_root (cfg A)) (up_id u)) =
        dir_lookup (disk w0) (incoming_dir (blob_root (cfg A)) (up_id u)))"

lemma untouchedD: "untouched A h w0 w \<Longrightarrow> sound A w"
  by (simp add: untouched_def)

lemma untouched_framed: "framed (untouched A h w0)"
  using sound_framed unfolding framed_def untouched_def owned_def core_same_def by metis

lemma untouched_tables:
  assumes "untouched A h w0 w" "sound A w'" "owned h (store w') = owned h (store w)" "disk w' = disk w"
  shows "untouched A h w0 w'"
  using assms by (simp add: untouched_def)

lemma owned_uploads: "owned h s = owned h s' \<Longrightarrow> u \<in> set (t_uploads s) \<Longrightarrow> up_holder u = h \<Longrightarrow> u \<in> set (t_uploads s')"
proof -
  assume "owned h s = owned h s'" "u \<in> set (t_uploads s)" "up_holder u = h"
  then have "u \<in> set (filter (\<lambda>u. up_holder u = h) (t_uploads s))"
    "filter (\<lambda>u. up_holder u = h) (t_uploads s) = filter (\<lambda>u. up_holder u = h) (t_uploads s')"
    by (simp, simp only: owned_def prod.inject)
  then have "u \<in> set (filter (\<lambda>u. up_holder u = h) (t_uploads s'))" by argo
  then show "u \<in> set (t_uploads s')" by simp
qed

lemma untouched_disk:
  assumes "untouched A h w0 w" "sound A w'" "store w' = store w"
    "\<And>hex. dir_lookup (disk w') (snapshot_dir (blob_root (cfg A)) h hex) =
       dir_lookup (disk w) (snapshot_dir (blob_root (cfg A)) h hex)"
    "\<And>u. u \<in> set (t_uploads (store w)) \<Longrightarrow> up_holder u = h \<Longrightarrow>
       dir_lookup (disk w') (incoming_dir (blob_root (cfg A)) (up_id u)) =
       dir_lookup (disk w) (incoming_dir (blob_root (cfg A)) (up_id u))"
  shows "untouched A h w0 w'"
  using assms owned_uploads [of h "store w0" "store w"] by (simp add: untouched_def)

lemma filter_delete_other:
  "(\<And>r. r \<in> set t \<Longrightarrow> Q r \<Longrightarrow> \<not> p r) \<Longrightarrow> filter Q (delete_where p t) = filter Q t"
  unfolding delete_where_def filter_filter by (rule filter_cong) auto

lemma filter_map_other:
  "(\<And>r. r \<in> set t \<Longrightarrow> Q (f r) = Q r) \<Longrightarrow> (\<And>r. r \<in> set t \<Longrightarrow> Q r \<Longrightarrow> f r = r) \<Longrightarrow>
     filter Q (map f t) = filter Q t"
  by (induction t) auto

lemma owned_noted: "g \<noteq> h \<Longrightarrow> owned h (record_outcome op g sj st i t s) = owned h s"
  by (simp add: owned_def record_outcome_def insert_or_replace_def oc_key_def) (rule filter_delete_other, auto)

lemma owned_dropped:
  "\<forall>u \<in> set (t_uploads s). up_id u = uid \<longrightarrow> up_holder u \<noteq> h \<Longrightarrow> owned h (drop_upload uid s) = owned h s"
  by (simp add: owned_def drop_upload_def) (rule filter_delete_other, auto)

lemma owned_expired: "g \<noteq> h \<Longrightarrow> owned h (snd (mark_unavailable g d t s)) = owned h s"
  by (simp add: owned_def mark_unavailable_def Let_def update_where_def) (rule filter_map_other, auto)

lemma owned_retained: "up_holder u \<noteq> h \<Longrightarrow> owned h (retain u t s) = owned h s"
proof -
  assume u: "up_holder u \<noteq> h"
  have "filter (\<lambda>r. snap_holder r = h) (t_snapshots (retain u t s)) = filter (\<lambda>r. snap_holder r = h) (t_snapshots s)"
    using u by (auto simp: retain_def Let_def update_where_def snap_key_def intro!: filter_map_other)
  then show ?thesis by (simp add: owned_def)
qed

lemma owned_receipts:
  "g \<noteq> h \<Longrightarrow> \<forall>m \<in> set ms. \<forall>r \<in> set (t_receipts s). rc_holder r = h \<longrightarrow> rc_id r \<noteq> mint_id m \<Longrightarrow>
     filter (\<lambda>r. rc_holder r = h) (t_receipts (fold (insert_receipt g scope at) ms s)) =
     filter (\<lambda>r. rc_holder r = h) (t_receipts s)"
proof (induction ms arbitrary: s)
  case (Cons m ms)
  let ?s = "insert_receipt g scope at m s"
  have "filter (\<lambda>r. rc_holder r = h) (t_receipts ?s) = filter (\<lambda>r. rc_holder r = h) (t_receipts s)"
    using Cons.prems by (simp add: insert_receipt_def insert_or_replace_def) (rule filter_delete_other, auto)
  moreover have "\<forall>m \<in> set ms. \<forall>r \<in> set (t_receipts ?s). rc_holder r = h \<longrightarrow> rc_id r \<noteq> mint_id m"
    using Cons.prems by (auto simp: insert_receipt_def set_insert_or_replace)
  ultimately show ?case using Cons.IH [of ?s] Cons.prems(1) by simp
qed simp

lemma owned_erased:
  assumes "g \<noteq> h" "\<forall>m \<in> set ms. \<forall>r \<in> set (t_receipts s). rc_id r \<noteq> mint_id m"
  shows "owned h (commit_erasure X g scope ds ms op t s) = owned h s"
proof -
  have "filter (\<lambda>r. rc_holder r = h) (t_receipts (commit_erasure X g scope ds ms op t s)) =
      filter (\<lambda>r. rc_holder r = h) (t_receipts s)"
    unfolding erasure_receipts using assms owned_receipts [of g h ms "fold (mark_erased g t) ds s"] by simp
  moreover have "filter (\<lambda>r. snap_holder r = h) (map (erased_row g t ds) (t_snapshots s)) =
      filter (\<lambda>r. snap_holder r = h) (t_snapshots s)"
    using assms(1) by (intro filter_map_other) (auto simp: erased_row_def)
  moreover have "filter (\<lambda>r. oc_holder r = h) (t_outcomes (commit_erasure X g scope ds ms op t s)) =
      filter (\<lambda>r. oc_holder r = h) (t_outcomes s)"
    using assms(1) by (simp add: commit_erasure_def record_outcome_def insert_or_replace_def oc_key_def)
      (rule filter_delete_other, auto)
  ultimately show ?thesis by (simp add: owned_def)
qed

lemma untouched_noted: "untouched A h w0 w \<Longrightarrow> g \<noteq> h \<Longrightarrow> store w' = record_outcome op g sj st i t (store w) \<Longrightarrow>
    disk w' = disk w \<Longrightarrow> untouched A h w0 w'"
  by (rule untouched_tables [OF _ sound_noted [OF untouchedD]]) (simp_all add: owned_noted)

lemma untouched_minted:
  "untouched A h w0 w \<Longrightarrow> store w' = (store w)\<lparr>t_uploads := t_uploads (store w) @ [row]\<rparr> \<Longrightarrow>
     disk w' = disk w \<Longrightarrow> grant_ok row \<Longrightarrow> up_holder row \<noteq> h \<Longrightarrow>
     \<forall>r \<in> set (t_uploads (store w)). up_id r \<noteq> up_id row \<Longrightarrow>
     dir_lookup (disk w) (incoming_dir (blob_root (cfg A)) (up_id row)) = Some [] \<Longrightarrow> untouched A h w0 w'"
  by (rule untouched_tables [OF _ sound_minted [OF untouchedD]]) (simp_all add: owned_def)

lemma untouched_dropped: "untouched A h w0 w \<Longrightarrow>
    \<forall>u \<in> set (t_uploads (store w)). up_id u = uid \<longrightarrow> up_holder u \<noteq> h \<Longrightarrow>
    store w' = drop_upload uid (store w) \<Longrightarrow> disk w' = disk w \<Longrightarrow> untouched A h w0 w'"
  by (rule untouched_tables [OF _ sound_dropped [OF untouchedD]]) (simp_all add: owned_dropped)

lemma untouched_expired: "untouched A h w0 w \<Longrightarrow> g \<noteq> h \<Longrightarrow> store w' = snd (mark_unavailable g d t (store w)) \<Longrightarrow>
    disk w' = disk w \<Longrightarrow> untouched A h w0 w'"
  by (rule untouched_tables [OF _ sound_expired [OF untouchedD]]) (simp_all add: owned_expired)

lemma untouched_erased: "untouched A h w0 w \<Longrightarrow> g \<noteq> h \<Longrightarrow>
    store w' = commit_erasure (lib A) g scope ds ms op t (store w) \<Longrightarrow> disk w' = disk w \<Longrightarrow>
    \<forall>m \<in> set ms. \<forall>r \<in> set (t_receipts (store w)). rc_id r \<noteq> mint_id m \<Longrightarrow> untouched A h w0 w'"
  by (rule untouched_tables [OF _ sound_erased [OF untouchedD]]) (simp_all add: owned_erased)

lemma untouched_retained: "untouched A h w0 w \<Longrightarrow> up_holder u \<noteq> h \<Longrightarrow> digest_hex (up_digest u) = Inr hex \<Longrightarrow>
    intact (lib A) (blob_root (cfg A)) (disk w) (up_holder u) hex (up_chunk_count u) (up_size u) \<Longrightarrow>
    store w' = retain u t (store w) \<Longrightarrow> disk w' = disk w \<Longrightarrow> untouched A h w0 w'"
  by (rule untouched_tables [OF _ sound_retained [OF untouchedD]]) (simp_all add: owned_retained)

lemma untouched_opened:
  assumes "untouched A h w0 w" "store w' = store w" "\<forall>u \<in> set (t_uploads (store w)). up_id u \<noteq> uid"
    "only_at (incoming_dir (blob_root (cfg A)) uid) (disk w) (disk w')"
  shows "untouched A h w0 w'"
  by (rule untouched_disk [OF assms(1) sound_opened [OF untouchedD [OF assms(1)] assms(2-4)] assms(2)])
    (use assms(3,4) in \<open>auto simp: only_at_def\<close>)

text \<open>The directory of another holder's grant is not one of \<open>h\<close>'s.\<close>

lemma other_grant:
  assumes "sound A w" "u \<in> set (t_uploads (store w))" "up_holder u \<noteq> h"
    "v \<in> set (t_uploads (store w))" "up_holder v = h"
  shows "up_id v \<noteq> up_id u"
  using assms keyed_unique [of up_id "t_uploads (store w)" v u] by (auto simp: sound_def core_keys_def)

lemma untouched_written:
  assumes "untouched A h w0 w" "u \<in> set (t_uploads (store w))" "up_holder u \<noteq> h" "0 \<le> i"
    "i < up_chunk_count u" "int (length bytes) = expected_chunk u i" "store w' = store w"
    "chunk_added (incoming_dir (blob_root (cfg A)) (up_id u)) i bytes (disk w) (disk w')"
  shows "untouched A h w0 w'"
  by (rule untouched_disk [OF assms(1) sound_written [OF untouchedD [OF assms(1)] assms(2,4-8)] assms(7)])
    (use assms(8) other_grant [OF untouchedD [OF assms(1)] assms(2,3)] in \<open>auto simp: chunk_added_def only_at_def\<close>)

lemma untouched_discarded:
  assumes "untouched A h w0 w" "\<forall>u \<in> set (t_uploads (store w)). up_id u = uid \<longrightarrow> up_holder u \<noteq> h"
    "store w' = store w" "shrunk (incoming_dir (blob_root (cfg A)) uid) (disk w) (disk w')"
  shows "untouched A h w0 w'"
  by (rule untouched_disk [OF assms(1) sound_discarded [OF untouchedD [OF assms(1)] assms(3,4)] assms(3)])
    (use assms(2,4) in \<open>auto simp: shrunk_def only_at_def\<close>)

lemma untouched_unlinked:
  assumes "untouched A h w0 w" "g \<noteq> h" "\<not> snapshot_exists g (''sha256:'' @ hex) (store w)" "store w' = store w"
    "shrunk (snapshot_dir (blob_root (cfg A)) g hex) (disk w) (disk w')"
  shows "untouched A h w0 w'"
  by (rule untouched_disk [OF assms(1) sound_unlinked [OF untouchedD [OF assms(1)] assms(3-5)] assms(4)])
    (use assms(2,5) in \<open>auto simp: shrunk_def only_at_def\<close>)

lemma untouched_placed:
  assumes "untouched A h w0 w" "u \<in> set (t_uploads (store w))" "up_holder u \<noteq> h" "store w' = store w"
    "moved (incoming_dir (blob_root (cfg A)) (up_id u)) (snapshot_dir (blob_root (cfg A)) (up_holder u) hex)
       (disk w) (disk w')"
  shows "untouched A h w0 w'"
  by (rule untouched_disk [OF assms(1) sound_placed [OF untouchedD [OF assms(1)] assms(4,5)] assms(4)])
    (use assms(3,5) other_grant [OF untouchedD [OF assms(1)] assms(2,3)] in \<open>auto simp: moved_def\<close>)

lemmas untouched_changes = untouched_noted untouched_minted untouched_dropped untouched_expired
  untouched_erased untouched_retained untouched_opened untouched_written untouched_discarded
  untouched_unlinked untouched_placed

interpretation untouched: request_invariant A "\<lambda>g. g \<noteq> h" "untouched A h w0" for A h w0
  by unfold_locales
    (rule soundD [OF untouchedD] untouched_framed untouched_changes; assumption)+

end
