(* ===== verification/Lasting.thy ===== *)
theory Lasting
  imports Isolation
begin

text \<open>
  What lasts over a run beside the tables of \<open>Invariants\<close>: the nonces that were recorded, until a
  sweep whose cutoff is past them, and the number of the revocation epoch, which never falls.  From
  the first follows what becomes of a request that is sent twice.
\<close>

section \<open>Nonces and epochs\<close>

text \<open>The nonces of \<open>w0\<close> that \<open>keep\<close> selects are still there, and the epoch is not older.\<close>

definition lasting :: "(nonce_row \<Rightarrow> bool) \<Rightarrow> world \<Rightarrow> world \<Rightarrow> bool" where
  "lasting keep w0 w \<longleftrightarrow>
     (\<forall>r \<in> set (t_nonces (store w0)). keep r \<longrightarrow> r \<in> set (t_nonces (store w))) \<and>
     (\<forall>n. epoch_number w0 = Some n \<longrightarrow> (\<exists>m. epoch_number w = Some m \<and> n \<le> m))"

lemma lasting_refl [simp]: "lasting keep w w"
  by (auto simp: lasting_def)

lemma lasting_trans: "lasting keep w0 w1 \<Longrightarrow> lasting keep w1 w2 \<Longrightarrow> lasting keep w0 w2"
  unfolding lasting_def by (blast intro: order.trans)

lemma lasting_same: "same_data w w' \<Longrightarrow> lasting keep w0 w' = lasting keep w0 w"
  by (simp add: lasting_def same_data_def epoch_number_def)

lemma lasting_data: "data_pred (lasting keep w0)"
  by (auto simp: data_pred_def lasting_same)

lemma lasting_grows:
  "lasting keep w0 w \<Longrightarrow> set (t_nonces (store w)) \<subseteq> set (t_nonces (store w')) \<Longrightarrow> epoch w' = epoch w \<Longrightarrow>
     lasting keep w0 w'"
  by (auto simp: lasting_def epoch_number_def)

lemma lasting_execute:
  "(\<And>s. set (t_nonces s) \<subseteq> set (t_nonces (snd (f s)))) \<Longrightarrow> keeps (lasting keep w0) (execute f)"
  by (rule keeps_execute [OF lasting_data]) (erule lasting_grows, simp_all)

lemma lasting_statement:
  "(\<And>s. set (t_nonces s) \<subseteq> set (t_nonces (f s))) \<Longrightarrow> keeps (lasting keep w0) (statement f)"
  unfolding statement_def by (rule lasting_execute) simp

lemma lasting_quiet: "quiet m \<Longrightarrow> keeps (lasting keep w0) m"
  by (rule data_quiet [OF lasting_data])

lemma lasting_store_only: "(\<And>w r w'. m w = (r, w') \<Longrightarrow> store w' = store w \<and> epoch w' = epoch w) \<Longrightarrow>
    keeps (lasting keep w0) m"
  unfolding keeps_def by (metis lasting_grows order.refl prod.collapse)

text \<open>The statements that leave the nonces alone.\<close>

lemma other_tables [simp]:
  "t_nonces (record_outcome op h sj st i t s) = t_nonces s"
  "t_nonces (drop_upload uid s) = t_nonces s"
  "t_nonces (retain u t s) = t_nonces s"
  "t_nonces (snd (mark_unavailable h d t s)) = t_nonces s"
  "t_nonces (snd (sweep_erased_references X t s)) = t_nonces s"
  "t_nonces (snd (sweep_outcomes_and_receipts X a b s)) = t_nonces s"
  "t_nonces (snd (forget_lapse_state h s)) = t_nonces s"
  "t_nonces (snd (sweep_entitlements X h t s)) = t_nonces s"
  "t_nonces (snd (sweep_superseded_entitlements X t s)) = t_nonces s"
  "t_nonces (insert_entitlement h v a b t s) = t_nonces s"
  "t_nonces (record_lapse_state h ls s) = t_nonces s"
  "t_nonces (remember_terms tid raw sig t s) = t_nonces s"
  "t_nonces (insert_epoch n t raw s) = t_nonces s"
  by (simp_all add: record_outcome_def drop_upload_def retain_def Let_def mark_unavailable_def
      sweep_erased_references_def sweep_outcomes_and_receipts_def forget_lapse_state_def sweep_entitlements_def
      sweep_superseded_entitlements_def insert_entitlement_def record_lapse_state_def remember_terms_def
      insert_epoch_def)

lemma erasure_nonces [simp]: "t_nonces (commit_erasure X h scope ds ms op at s) = t_nonces s"
proof -
  have "t_nonces (fold (insert_receipt h scope at) ms s) = t_nonces s" for s
    by (induction ms arbitrary: s) (simp_all add: insert_receipt_def)
  moreover have "t_nonces (fold (mark_erased h at) ds s) = t_nonces s" for s
    by (induction ds arbitrary: s) (simp_all add: mark_erased_def)
  ultimately show ?thesis by (simp add: commit_erasure_def)
qed

lemma nonces_recorded [simp]: "set (t_nonces s) \<subseteq> set (t_nonces (snd (record_nonce h n t s)))"
  by (auto simp: record_nonce_def insert_or_ignore_def Let_def)

section \<open>Every handler\<close>

lemma lasting_discard: "keeps (lasting keep w0) (discard_upload root uid)"
  and lasting_erase_blob: "keeps (lasting keep w0) (erase_blob root h hex)"
  and lasting_write: "keeps (lasting keep w0) (write_chunk root uid i b)"
  and lasting_commit_blob: "keeps (lasting keep w0) (commit_blob X root uid h hex n size_bytes)"
  by (rule lasting_store_only; drule discard_upload_spec erase_blob_spec write_chunk_spec commit_blob_spec;
      simp add: same_store_def)+

lemma lasting_begin: "keeps (lasting keep w0) (begin_incoming root uid)"
proof -
  have "keeps (lasting keep w0) (set_disk f)" for f
    unfolding set_disk_def by (rule keeps_modify) (erule lasting_grows, simp_all)
  then show ?thesis
    unfolding begin_incoming_def by (intro keeps_bind lasting_quiet [OF quiet_io(1)] lasting_quiet [OF quiet_io(2)])
qed

lemma lasting_register: "keeps (lasting keep w0) (register_entitlement X h v t)"
  unfolding register_entitlement_def by (intro valid_rules lasting_statement lasting_execute) simp_all

lemmas lasting_rules = valid_rules keeps_case_prod lasting_data lasting_quiet [OF quiet_arrival]
  lasting_quiet [OF quiet_digest_of] lasting_quiet [OF quiet_inspect] lasting_discard lasting_erase_blob lasting_write
  lasting_begin lasting_commit_blob lasting_register keeps_query [OF lasting_data] keeps_select [OF lasting_data]

lemma lasting_authenticate: "keeps (lasting keep w0) (authenticate A hs verb path body now)"
  unfolding authenticate_def by (intro lasting_rules lasting_execute) simp_all

lemma lasting_require: "keeps (lasting keep w0) (require A who hs operation now)"
  unfolding require_def evaluate_def by (intro lasting_rules)

lemma lasting_insert:
  "keeps (lasting keep w0) (bindE (query (begin_upload row)) (\<lambda>s. bindE (modifyE (\<lambda>w. w\<lparr>store := s\<rparr>)) (\<lambda>_. returnE x)))"
  unfolding keeps_def
proof (intro allI impI)
  fix w assume w: "lasting keep w0 w"
  obtain r w1 where r: "query (begin_upload row) w = (r, w1)" by (cases "query (begin_upload row) w")
  have same: "same_data w w1" "r = begin_upload row (store w) \<or> r = Inl (internal ''sqlite'')"
    using query_same [OF r] by simp_all
  have "lasting keep w0 w1" using w by (simp add: lasting_same [OF same(1)])
  moreover have "t_nonces s = t_nonces (store w1)" if "r = Inr s" for s
    using that same by (auto simp: begin_upload_def same_data_def split: if_splits)
  ultimately show "lasting keep w0 (snd (bindE (query (begin_upload row))
      (\<lambda>s. bindE (modifyE (\<lambda>w. w\<lparr>store := s\<rparr>)) (\<lambda>_. returnE x)) w))"
    by (auto simp: bindE_run r modifyE_run returnE_run lasting_def epoch_number_def split: sum.split)
qed

lemma lasting_preflight: "keeps (lasting keep w0) (resume_grant A u n)"
  "keeps (lasting keep w0) (new_grant A who hs req now t uid)"
  unfolding resume_grant_def new_grant_def mint_grant_def Let_def
  by (intro lasting_rules lasting_require lasting_insert; simp)+

lemma lasting_commit: "keeps (lasting keep w0) (commit_verify A u)"
  "keeps (lasting keep w0) (commit_place A u hex now)"
  unfolding commit_verify_def commit_place_def commit_quota_def abandon_def Let_def
  by (intro lasting_rules lasting_statement; simp)+

lemma lasting_erasure: "keeps (lasting keep w0) (erase_again A who req at)"
  "keeps (lasting keep w0) (erase_targets A who req targets at ids)"
  "keeps (lasting keep w0) (unlink_erased A h doomed)"
  unfolding erase_again_def erase_targets_def unlink_erased_def Let_def
  by (intro lasting_rules lasting_statement; simp)+

lemma lasting_open: "keeps (lasting keep w0) (download_open A who row d now)"
  "keeps (lasting keep w0) (export_open A who row d now)"
  unfolding download_open_def export_open_def expire_missing_def
  by (intro lasting_rules lasting_execute; simp)+

section \<open>A signed request\<close>

text \<open>What a request's signature is over, for the routes that authenticate.\<close>

definition signed_target :: "request \<Rightarrow> arrival_context \<Rightarrow> (string \<times> string \<times> bytes) option" where
  "signed_target req c =
     (case req of
        Post_entitlement \<Rightarrow> Some (''POST'', ''/v1/entitlements'', ctx_body c)
      | Post_preflight \<Rightarrow> Some (''POST'', ''/v1/preflight'', ctx_body c)
      | Put_chunk i n \<Rightarrow> Some (''PUT'', ''/v1/uploads/'' @ i @ ''/chunks/'' @ show_int n, ctx_body c)
      | Post_commit i \<Rightarrow> Some (''POST'', ''/v1/uploads/'' @ i @ ''/commit'', ctx_body c)
      | Get_snapshots \<Rightarrow> Some (''GET'', ''/v1/snapshots'', [])
      | Get_snapshot d \<Rightarrow> Some (''GET'', ''/v1/snapshots/'' @ d, [])
      | Post_erasure \<Rightarrow> Some (''POST'', ''/v1/erasures'', ctx_body c)
      | Get_exports \<Rightarrow> Some (''GET'', ''/v1/exports'', [])
      | Get_export_receipt i \<Rightarrow> Some (''GET'', ''/v1/exports/receipts/'' @ i, [])
      | Get_export d \<Rightarrow> Some (''GET'', ''/v1/exports/'' @ d, [])
      | Get_operation i \<Rightarrow> Some (''GET'', ctx_target c, [])
      | _ \<Rightarrow> None)"

text \<open>\<open>m\<close> authenticates first, and nothing after that forgets a nonce or an epoch.\<close>

definition guarded :: "holder op \<Rightarrow> 'a op \<Rightarrow> bool" where
  "guarded auth m \<longleftrightarrow> (\<exists>k. m = bindE auth k \<and> (\<forall>who keep w0. keeps (lasting keep w0) (k who)))"

lemma guarded_bind: "(\<And>who keep w0. keeps (lasting keep w0) (k who)) \<Longrightarrow> guarded auth (bindE auth k)"
  by (auto simp: guarded_def)

lemma guarded_then:
  assumes "guarded auth m" "\<And>x keep w0. keeps (lasting keep w0) (f x)"
  shows "guarded auth (bindE m f)"
proof -
  from assms(1) obtain k where "m = bindE auth k" "\<And>who keep w0. keeps (lasting keep w0) (k who)"
    by (auto simp: guarded_def)
  with assms(2) show ?thesis by (auto simp: bindE_assoc intro!: guarded_bind keeps_bind)
qed

lemma guarded_handlers:
  "guarded (authenticate A hs ''POST'' ''/v1/entitlements'' b now) (register A hs b now)"
  "guarded (authenticate A hs ''POST'' ''/v1/preflight'' b now) (preflight A hs b now uid)"
  "guarded (authenticate A hs ''PUT'' (''/v1/uploads/'' @ uid @ ''/chunks/'' @ show_int i) b now)
     (put_chunk A hs uid i b now)"
  "guarded (authenticate A hs ''POST'' (''/v1/uploads/'' @ uid @ ''/commit'') b now) (commit A hs uid b now)"
  "guarded (authenticate A hs ''GET'' ''/v1/snapshots'' [] now) (list_snapshots A hs now)"
  "guarded (authenticate A hs ''GET'' (''/v1/snapshots/'' @ d) [] now) (download A hs d now)"
  "guarded (authenticate A hs ''GET'' ''/v1/exports'' [] now) (export_manifest A hs now)"
  "guarded (authenticate A hs ''GET'' (''/v1/exports/receipts/'' @ d) [] now) (export_receipt A hs d now)"
  "guarded (authenticate A hs ''GET'' (''/v1/exports/'' @ d) [] now) (export_snapshot A hs d now)"
  "guarded (authenticate A hs ''GET'' target [] now) (query_operation A hs target d now)"
  unfolding register_def preflight_def put_chunk_def commit_def commit_lookup_def granted_upload_def
    list_snapshots_def download_def download_lookup_def export_manifest_def export_receipt_def
    export_snapshot_def export_lookup_def query_operation_def upload_path_def append_assoc Let_def
  by (intro guarded_bind guarded_then lasting_rules lasting_require lasting_preflight lasting_commit lasting_open;
      simp)+

lemma guarded_erase:
  "rfc_format (lib A) now \<noteq> None \<Longrightarrow>
     guarded (authenticate A hs ''POST'' ''/v1/erasures'' b now) (erase A hs b now ids)"
proof -
  assume "rfc_format (lib A) now \<noteq> None"
  then have "\<exists>at. stamp (lib A) now = Inr at" by auto
  then obtain at where at: "stamp (lib A) now = Inr at" by (rule exE)
  have "bindE (liftE (Inr at)) f = f at" for f :: "string \<Rightarrow> response op"
    by (rule ext) (simp add: run_simps)
  then show ?thesis
    unfolding erase_def at by (simp only:) (intro guarded_bind lasting_rules lasting_require lasting_erasure)
qed

lemma signed_request:
  assumes "signed_target req c = Some (verb, path, body)" "rfc_format (lib A) (ctx_now c) \<noteq> None"
  shows "guarded (authenticate A (ctx_headers c) verb path body (ctx_now c)) (handle_request A req c)"
  using assms
  by (cases req) (auto simp: signed_target_def handle_request_def guarded_handlers [simplified] guarded_erase)

lemma public_request:
  assumes "signed_target req c = None"
  shows "quiet (handle_request A req c)"
  using assms
  by (cases req) (auto simp: signed_target_def handle_request_def health_def terms_route_def
      intro!: quiet_rules split: prod.splits)

lemma guarded_keeps: "guarded (authenticate A hs verb path body now) m \<Longrightarrow> keeps (lasting keep w0) m"
  by (auto simp: guarded_def intro!: keeps_bind lasting_authenticate)

lemma lasting_erase: "keeps (lasting keep w0) (erase A hs b now ids)"
  unfolding erase_def by (intro lasting_rules lasting_authenticate lasting_require lasting_erasure)

lemma lasting_request: "keeps (lasting keep w0) (handle_request A req c)"
proof (cases "signed_target req c")
  case None
  then show ?thesis by (intro lasting_quiet public_request)
next
  case (Some p)
  note kept = guarded_handlers [THEN guarded_keeps]
  from Some show ?thesis
    by (cases req) (simp_all add: signed_target_def handle_request_def kept lasting_erase)
qed

lemma respond_state:
  assumes "respond A req c w = (answer, w')"
  obtains "w' = w" "answer = Some (REmpty 413)"
  | r where "handle_request A req c w = (r, w')"
      "answer = (case r of Inr x \<Rightarrow> Some x | Inl (Err e) \<Rightarrow> Some (into_response e) | Inl Panic \<Rightarrow> None)"
proof (cases "int (length (ctx_body c)) > body_limit req")
  case True
  with assms that(1) show ?thesis by (simp add: respond_def)
next
  case False
  obtain r w1 where "handle_request A req c w = (r, w1)" by (cases "handle_request A req c w")
  with assms False that(2) [of r] show ?thesis
    by (auto simp: respond_def split: sum.splits fail.splits)
qed

lemma lasting_kept: "keeps (lasting keep w) m \<Longrightarrow> m w = (r, w') \<Longrightarrow> lasting keep w w'"
  by (erule keepsD [where I = "lasting keep w"]) simp_all

lemma lasting_respond:
  assumes "respond A req c w = (answer, w')"
  shows "lasting keep w w'"
proof -
  from assms show ?thesis
    by (rule respond_state) (auto dest: lasting_kept [OF lasting_request])
qed

section \<open>Polls and sweeps\<close>

lemma lasting_poll: "poll_epoch A fetched now w = (r, w') \<Longrightarrow> lasting keep w w'"
proof -
  have install: "lasting keep v (snd (install_epoch e at v))" for e at v
    using install_epoch_monotone [of v] by (auto simp: lasting_def)
  have "keeps (lasting keep w0) (\<lambda>v. case install_epoch e at v of (b, v') \<Rightarrow> (Inr b, v'))" for e at w0
    unfolding keeps_def by (auto simp: case_prod_beta intro: lasting_trans install)
  moreover have "keeps (lasting keep w0) (cache_epoch n t raw)" for n t raw w0
    unfolding cache_epoch_def by (intro lasting_rules lasting_statement) simp_all
  ultimately have "keeps (lasting keep w) (poll_epoch A fetched now)"
    unfolding poll_epoch_def by (auto intro!: lasting_rules split: option.splits sum.splits)
  then show "poll_epoch A fetched now w = (r, w') \<Longrightarrow> lasting keep w w'"
    by (rule lasting_kept)
qed

definition spared :: "crates \<Rightarrow> string \<Rightarrow> nonce_row \<Rightarrow> bool" where
  "spared X cutoff r \<longleftrightarrow> \<not> jd_less X (nc_seen_at r) cutoff"

lemma lasting_sweep_nonces:
  "(\<And>r. keep r \<Longrightarrow> spared X cutoff r) \<Longrightarrow> keeps (lasting keep w0) (execute (sweep_nonces X cutoff))"
  by (rule keeps_execute [OF lasting_data]) (auto simp: lasting_def sweep_nonces_def epoch_number_def spared_def)

lemmas lasting_sweep_rules = keeps_bind keeps_fold keeps_if keeps_match keeps_return framed_or_else framed_counted
  keeps_option keeps_sum keeps_case_prod lasting_discard lasting_erase_blob keeps_query [OF lasting_data]
  keeps_select [OF lasting_data] lasting_quiet [OF quiet_inspect] lasting_quiet [OF quiet_walk] lasting_statement
  lasting_execute

lemma lasting_reconcile:
  assumes "\<And>r. keep r \<Longrightarrow> spared X (cut_nonce limits) r"
  shows "keeps (lasting keep w0) (reconcile X root revoked charges now_at limits)"
proof -
  have "keeps (lasting keep w0) (sweep_post_grace X revoked now_at t)"
    "keeps (lasting keep w0) (sweep_grants X root t)" "keeps (lasting keep w0) (sweep_incoming root)"
    "keeps (lasting keep w0) (sweep_claimed root t)" "keeps (lasting keep w0) (sweep_records X revoked t)"
    "keeps (lasting keep w0) (adopt_unrecorded X revoked charges now_at)"
    "keeps (lasting keep w0) (sweep_lapse_rows X revoked now_at)"
    "keeps (lasting keep w0) (sweep_orphans root live_keys)" for t live_keys
    unfolding sweep_post_grace_def expire_holder_def expire_due_def sweep_grants_def drop_expired_def
      sweep_incoming_def drop_orphan_incoming_def incoming_on_disk_def sweep_claimed_def check_claimed_def
      sweep_records_def drop_records_def carry_over_def adopt_unrecorded_def adopt_holder_def
      sweep_lapse_rows_def refresh_row_def retire_row_def sweep_orphans_def drop_orphan_snapshot_def
      retained_on_disk_def Let_def
    by (intro lasting_sweep_rules; simp)+
  moreover have "keeps (lasting keep w0) (sweep_metadata X limits counts)" for counts
    unfolding sweep_metadata_def
    by (intro keeps_bind framed_or_else keeps_case_prod keeps_return lasting_sweep_nonces assms lasting_execute)
      simp_all
  ultimately show ?thesis
    unfolding reconcile_def Let_def
    by (intro keeps_bind keeps_match keeps_return keeps_select [OF lasting_data])
qed

lemma lasting_sweep:
  assumes "sweep_task A now w = (s, w')"
    and "\<And>limits r. cutoffs_at A now = Some limits \<Longrightarrow> keep r \<Longrightarrow> spared (lib A) (cut_nonce limits) r"
  shows "lasting keep w w'"
proof -
  have "keeps (lasting keep w) (sweep_task A now)"
    unfolding sweep_task_def using assms(2)
    by (auto intro!: keeps_bind keeps_return keeps_get lasting_reconcile split: option.splits)
  from lasting_kept [OF this assms(1)] show ?thesis .
qed

lemma lasting_faults [simp]: "lasting keep (with_faults fs w) w' = lasting keep w w'"
  by (simp add: lasting_def epoch_number_def)

lemma lasting_runs:
  assumes "runs A tidy w w'"
    and "\<And>now limits r. tidy now \<Longrightarrow> cutoffs_at A now = Some limits \<Longrightarrow> keep r \<Longrightarrow> spared (lib A) (cut_nonce limits) r"
  shows "lasting keep w w'"
  using assms(1)
proof induction
  case (Serves w1 c req fs answer w')
  then show ?case using lasting_respond [OF Serves(3), of keep] by (auto intro: lasting_trans)
next
  case (Polls w1 fetched now fs r w')
  then show ?case using lasting_poll [OF Polls(2), of keep] by (auto intro: lasting_trans)
next
  case (Tidies w1 now fs s w')
  then show ?case using lasting_sweep [OF Tidies(3), of keep] assms(2) by (auto intro: lasting_trans)
qed simp

section \<open>Refused requests\<close>

lemma unproved_refused:
  "request_proof A hs verb path body now = Inl e \<Longrightarrow>
     authenticate A hs verb path body now w = (Inl (Err SignatureInvalid), w)"
  by (auto simp: authenticate_def run_simps dest: request_proof_Inl)

lemma nonce_kept: "nonce_seen h n s \<Longrightarrow> snd (record_nonce h n t s) = s"
  by (auto simp: record_nonce_def nonce_seen_def insert_or_ignore_def nc_key_def Let_def)

lemma seen_refused:
  assumes "request_proof A hs verb path body now = Inr (reference, p)" "rfc_format (lib A) now \<noteq> None"
    "nonce_seen (proof_handle p) (proof_nonce p) (store w)" "authenticate A hs verb path body now w = (r, w')"
  shows "same_data w w' \<and> r \<in> {Inl (Err SignatureInvalid), Inl (internal ''sqlite'')}"
proof -
  obtain at where at: "rfc_format (lib A) now = Some at" using assms(2) by blast
  let ?note = "execute (record_nonce (proof_handle p) (proof_nonce p) at)"
  obtain q w1 where q: "?note w = (q, w1)" by (cases "?note w")
  have "\<not> fst (record_nonce (proof_handle p) (proof_nonce p) at (store w))"
    using assms(3) by (simp add: record_nonce_first)
  moreover have "snd (record_nonce (proof_handle p) (proof_nonce p) at (store w)) = store w"
    by (rule nonce_kept [OF assms(3)])
  ultimately have "same_data w w1" "q = Inr False \<or> q = Inl (internal ''sqlite'')"
    using execute_same [OF q] by (auto simp: same_data_def)
  with assms(1,4) at q show ?thesis
    by (auto simp: authenticate_def run_simps stamp_def)
qed

lemma guarded_refused:
  "guarded auth m \<Longrightarrow> auth w = (Inl e, w') \<Longrightarrow> m w = (Inl e, w')"
  by (auto simp: guarded_def bindE_run)

lemma guarded_Inr:
  assumes "guarded auth m" "m w = (Inr x, w')"
  obtains who w1 where "auth w = (Inr who, w1)"
  using assms by (auto simp: guarded_def bindE_Inr_iff)

text \<open>What the authentication of a request leaves behind lasts to its end.\<close>

lemma guarded_lasting:
  assumes "guarded auth m" "auth w = (Inr who, w1)" "m w = (r, w')"
  shows "lasting keep w1 w'"
proof -
  from assms(1) obtain k where "m = bindE auth k" "keeps (lasting keep w1) (k who)"
    by (auto simp: guarded_def)
  with assms(2,3) show ?thesis by (auto simp: bindE_run dest: lasting_kept)
qed

definition refusal :: "response option \<Rightarrow> bool" where
  "refusal answer \<longleftrightarrow> answer \<in> {Some (into_response SignatureInvalid), Some (into_response (Internal ''sqlite'')), Some (REmpty 413)}"

lemma refused_respond:
  assumes "signed_target req c = Some (verb, path, body)" "rfc_format (lib A) (ctx_now c) \<noteq> None"
    and "\<And>r w'. authenticate A (ctx_headers c) verb path body (ctx_now c) w = (r, w') \<Longrightarrow>
      same_data w w' \<and> r \<in> {Inl (Err SignatureInvalid), Inl (internal ''sqlite'')}"
    and "respond A req c w = (answer, w')"
  shows "same_data w w' \<and> refusal answer"
  using assms(4)
proof (rule respond_state)
  fix r assume r: "handle_request A req c w = (r, w')"
    and answer: "answer = (case r of Inr x \<Rightarrow> Some x | Inl (Err e) \<Rightarrow> Some (into_response e) | Inl Panic \<Rightarrow> None)"
  obtain q w1 where q: "authenticate A (ctx_headers c) verb path body (ctx_now c) w = (q, w1)"
    by (cases "authenticate A (ctx_headers c) verb path body (ctx_now c) w")
  from assms(3) [OF q] obtain e where e: "q = Inl e" "same_data w w1" "e \<in> {Err SignatureInvalid, internal ''sqlite''}"
    by auto
  have "handle_request A req c w = (Inl e, w1)"
    using guarded_refused [OF signed_request [OF assms(1,2)]] q e(1) by simp
  with r answer e show ?thesis by (auto simp: refusal_def internal_def)
qed (simp add: refusal_def)

text \<open>The nonce of an accepted request is spared by every sweep up to two skews later.\<close>

lemma cutoff_nonce:
  assumes "cutoffs_at A s = Some limits"
  shows "rfc_format (lib A) (s - nanos (2 * max_skew_secs (cfg A))) = Some (cut_nonce limits)"
  using assms
  by (auto simp: cutoffs_at_def Let_def bind_eq_Some_conv time_sub_def checked_time_def checked_mul64_def mult.commute
      split: sum.splits if_splits)

lemma spared_nonce:
  assumes "julianday_monotone (lib A)" "rfc_format (lib A) t = Some (nc_seen_at r)" "cutoffs_at A s = Some limits"
    "s \<le> t + nanos (2 * max_skew_secs (cfg A))"
  shows "spared (lib A) (cut_nonce limits) r"
  using jd_less_formatted [OF assms(1,2) cutoff_nonce [OF assms(3)]] assms(4)
  by (fastforce simp: spared_def)

lemma recorded_row:
  "\<not> nonce_seen h n s \<Longrightarrow> \<lparr>nc_holder = h, nc_nonce = n, nc_seen_at = t\<rparr> \<in> set (t_nonces (snd (record_nonce h n t s)))"
  by (auto simp: record_nonce_def nonce_seen_def insert_or_ignore_def Let_def nc_key_def)

lemma proof_of_headers:
  "request_proof A hs verb path body now = Inr (reference, p) \<Longrightarrow>
     request_proof A hs verb' path' body' now' = Inr (reference', p') \<Longrightarrow>
     proof_handle p' = proof_handle p \<and> proof_nonce p' = proof_nonce p"
  by (auto dest!: request_proof_Inr)

lemma accepted_nonce_lasts:
  assumes jd: "julianday_monotone (lib A)"
    and auth: "authenticate A hs verb path body t w = (Inr who, wa)"
    and after: "lasting (\<lambda>r. rfc_format (lib A) t = Some (nc_seen_at r)) wa w1"
    and run: "runs A (\<lambda>s. s \<le> t + nanos (2 * max_skew_secs (cfg A))) w1 w2"
    and again: "request_proof A hs verb' path' body' now = Inr (reference', p')"
  shows "nonce_seen (proof_handle p') (proof_nonce p') (store w2)"
proof -
  let ?keep = "\<lambda>r. rfc_format (lib A) t = Some (nc_seen_at r)"
  obtain p seen_at where p: "request_proof A hs verb path body t = Inr (h_reference who, p)"
    and at: "rfc_format (lib A) t = Some seen_at"
    and new: "\<not> nonce_seen (proof_handle p) (proof_nonce p) (store w)"
    and s: "store wa = snd (record_nonce (proof_handle p) (proof_nonce p) seen_at (store w))"
    using auth by (rule authenticate_Inr)
  have "lasting ?keep w1 w2"
    by (rule lasting_runs [OF run]) (rule spared_nonce [OF jd], assumption+)
  with after have "lasting ?keep wa w2" by (rule lasting_trans)
  with recorded_row [OF new, of seen_at] at s
  have "\<lparr>nc_holder = proof_handle p, nc_nonce = proof_nonce p, nc_seen_at = seen_at\<rparr> \<in> set (t_nonces (store w2))"
    by (auto simp: lasting_def)
  then show ?thesis
    using proof_of_headers [OF p again] by (force simp: nonce_seen_def nc_key_def)
qed

end
