(* ===== verification/Quota.thy ===== *)
theory Quota
  imports Lasting
begin

text \<open>
  The quota as an interpretation of the interface: over the life of one process no holder comes to
  have more live snapshots than the configured maximum, or than the process found when it started.
\<close>

definition live_count :: "string \<Rightarrow> store \<Rightarrow> int" where
  "live_count h s = count_where (\<lambda>r. snap_holder r = h \<and> live r) (t_snapshots s)"

definition within :: "app \<Rightarrow> string \<Rightarrow> int \<Rightarrow> world \<Rightarrow> bool" where
  "within A h k w \<longleftrightarrow> sound A w \<and> live_count h (store w) \<le> max k (maximum_retained_snapshots (cfg A))"

lemma withinD: "within A h k w \<Longrightarrow> sound A w"
  by (simp add: within_def)

lemma within_change:
  "within A h k w \<Longrightarrow> sound A w' \<Longrightarrow> live_count h (store w') \<le> live_count h (store w) \<Longrightarrow> within A h k w'"
  by (simp add: within_def)

lemma within_framed: "framed (within A h k)"
  using sound_framed unfolding framed_def within_def live_count_def core_same_def by metis

section \<open>Counting live rows\<close>

lemma count_map_le: "(\<And>r. r \<in> set t \<Longrightarrow> p (f r) \<Longrightarrow> p r) \<Longrightarrow> count_where p (map f t) \<le> count_where p t"
  by (induction t) (auto simp: count_where_def)

lemma count_delete_le: "count_where p (delete_where q t) \<le> count_where p t"
  by (induction t) (auto simp: count_where_def delete_where_def)

lemma count_update_keyed:
  assumes "keyed key t"
  shows "count_where p (update_where (\<lambda>r. key r = x \<and> q r) f t) \<le> count_where p t + 1"
  using assms
proof (induction t)
  case (Cons r t)
  show ?case
  proof (cases "key r = x")
    case True
    with Cons.prems have "\<forall>r' \<in> set t. key r' \<noteq> x" by (auto simp: keyed_def image_iff dest: sym)
    then have "update_where (\<lambda>r. key r = x \<and> q r) f t = t" by (auto simp: update_where_def intro!: map_idI)
    then show ?thesis by (auto simp: update_where_def count_where_def)
  next
    case False
    with Cons show ?thesis by (auto simp: update_where_def count_where_def keyed_def)
  qed
qed (simp add: update_where_def count_where_def)

lemma usage_live_count: "usage h s = Inr (n, b) \<Longrightarrow> n = live_count h s"
  by (auto simp: usage_def live_count_def count_where_def Let_def)

lemma live_count_owned: "live_count h s = int (length (filter live (fst (owned h s))))"
  by (simp add: live_count_def count_where_def owned_def filter_filter conj_commute)

lemma live_count_expired: "live_count h (snd (mark_unavailable g d t s)) \<le> live_count h s"
  by (auto simp: live_count_def mark_unavailable_def update_where_def live_def Let_def intro!: count_map_le
      split: if_splits)

lemma live_count_erased: "live_count h (commit_erasure X g scope ds ms op t s) \<le> live_count h s"
  by (auto simp: live_count_def intro!: count_map_le)

lemma live_count_forgotten: "live_count h (snd (sweep_erased_references X t s)) \<le> live_count h s"
  by (auto simp: live_count_def sweep_erased_references_def Let_def intro: count_delete_le)

lemma live_count_retained:
  assumes "keyed snap_key (t_snapshots s)" "admitted A u s"
  shows "live_count h (retain u t s) \<le> max (live_count h s) (maximum_retained_snapshots (cfg A))"
proof (cases "up_holder u = h")
  case False
  then show ?thesis by (simp add: live_count_owned owned_retained)
next
  case True
  have one: "live_count h (retain u t s) \<le> live_count h s + 1"
    unfolding live_count_def retain_def Let_def
    using count_update_keyed [OF assms(1)] by (auto simp: count_where_def)
  have same: "retain u t s = s" if "snapshot_exists h (up_digest u) s"
  proof -
    obtain r where r: "r \<in> set (t_snapshots s)" "snap_key r = (h, up_digest u)" "live r"
      using \<open>snapshot_exists h (up_digest u) s\<close> by (auto simp: snapshot_exists_iff snap_key_def)
    then have "live r'" if "r' \<in> set (t_snapshots s)" "snap_key r' = (h, up_digest u)" for r'
      using keyed_unique [OF assms(1), of r r'] that by auto
    then have "update_where (\<lambda>r. snap_key r = (h, up_digest u) \<and> \<not> live r) (revive u t) (t_snapshots s) = t_snapshots s"
      by (auto simp: update_where_def intro!: map_idI)
    moreover have "\<exists>r \<in> set (t_snapshots s). snap_key r = (h, up_digest u)" using r by blast
    ultimately show ?thesis using True by (simp add: retain_def Let_def)
  qed
  from assms(2) True consider "snapshot_exists h (up_digest u) s"
    | n b where "usage h s = Inr (n, b)" "n < maximum_retained_snapshots (cfg A)"
    by (auto simp: admitted_def)
  then show ?thesis using one same by cases (auto dest: usage_live_count)
qed

section \<open>The interpretation\<close>

lemma within_retained:
  assumes "within A h k w" "digest_hex (up_digest u) = Inr hex"
    "intact (lib A) (blob_root (cfg A)) (disk w) (up_holder u) hex (up_chunk_count u) (up_size u)"
    "admitted A u (store w)" "store w' = retain u t (store w)" "disk w' = disk w"
  shows "within A h k w'"
proof -
  note w = withinD [OF assms(1)]
  have "keyed snap_key (t_snapshots (store w))" using soundD(2) [OF w] by (simp add: core_keys_def)
  from live_count_retained [OF this assms(4), of h t] assms(1,5) sound_retained [OF w assms(2,3,5,6)]
  show ?thesis by (auto simp: within_def)
qed

lemma live_count_simps [simp]:
  "live_count h (record_outcome op g sj st i t s) = live_count h s"
  "live_count h (drop_upload uid s) = live_count h s"
  "live_count h (snd (sweep_outcomes_and_receipts X a b s)) = live_count h s"
  "live_count h (s\<lparr>t_uploads := us\<rparr>) = live_count h s"
  by (simp_all add: live_count_def record_outcome_def drop_upload_def sweep_outcomes_and_receipts_def Let_def)

lemmas live_count_steps = live_count_expired live_count_erased live_count_forgotten

lemma within_noted: "within A h k w \<Longrightarrow> store w' = record_outcome op g sj st i t (store w) \<Longrightarrow>
    disk w' = disk w \<Longrightarrow> within A h k w'"
  by (rule within_change [OF _ sound_noted [OF withinD]], assumption) simp_all

lemma within_minted:
  "within A h k w \<Longrightarrow> store w' = (store w)\<lparr>t_uploads := t_uploads (store w) @ [row]\<rparr> \<Longrightarrow>
     disk w' = disk w \<Longrightarrow> grant_ok row \<Longrightarrow> \<forall>r \<in> set (t_uploads (store w)). up_id r \<noteq> up_id row \<Longrightarrow>
     dir_lookup (disk w) (incoming_dir (blob_root (cfg A)) (up_id row)) = Some [] \<Longrightarrow> within A h k w'"
  by (rule within_change [OF _ sound_minted [OF withinD]], assumption) simp_all

lemma within_dropped: "within A h k w \<Longrightarrow> store w' = drop_upload uid (store w) \<Longrightarrow> disk w' = disk w \<Longrightarrow> within A h k w'"
  by (rule within_change [OF _ sound_dropped [OF withinD]], assumption) simp_all

lemma within_expired: "within A h k w \<Longrightarrow> store w' = snd (mark_unavailable g d t (store w)) \<Longrightarrow>
    disk w' = disk w \<Longrightarrow> within A h k w'"
  by (rule within_change [OF _ sound_expired [OF withinD]], assumption) (simp_all add: live_count_steps)

lemma within_erased: "within A h k w \<Longrightarrow> store w' = commit_erasure (lib A) g scope ds ms op t (store w) \<Longrightarrow>
    disk w' = disk w \<Longrightarrow> within A h k w'"
  by (rule within_change [OF _ sound_erased [OF withinD]], assumption) (simp_all add: live_count_steps)

lemma within_forgotten: "within A h k w \<Longrightarrow> store w' = snd (sweep_erased_references X t (store w)) \<Longrightarrow>
    disk w' = disk w \<Longrightarrow> within A h k w'"
  by (rule within_change [OF _ sound_forgotten [OF withinD]], assumption) (simp_all add: live_count_steps)

lemma within_aged: "within A h k w \<Longrightarrow> store w' = snd (sweep_outcomes_and_receipts X a b (store w)) \<Longrightarrow>
    disk w' = disk w \<Longrightarrow> within A h k w'"
  by (rule within_change [OF _ sound_aged [OF withinD]], assumption) simp_all

lemma within_disk: "within A h k w \<Longrightarrow> store w' = store w \<Longrightarrow> sound A w' \<Longrightarrow> within A h k w'"
  by (rule within_change, assumption) simp_all

lemmas within_on_disk =
  within_disk [OF _ _ sound_opened [OF withinD]] within_disk [OF _ _ sound_written [OF withinD]]
  within_disk [OF _ _ sound_discarded [OF withinD]] within_disk [OF _ _ sound_unlinked [OF withinD]]
  within_disk [OF _ _ sound_placed [OF withinD]]

lemmas within_changes = within_noted within_minted within_dropped within_expired within_erased within_retained
  within_on_disk within_forgotten within_aged

interpretation within: operator_invariant A "\<lambda>_. True" "within A h k" for A h k
  by unfold_locales (rule TrueI soundD [OF withinD] within_framed within_changes; assumption)+

end
