(* ===== verification/Upload_Facts.thy ===== *)
theory Upload_Facts
  imports Quota
begin

text \<open>
  What the upload handlers do, branch by branch: the answer and the state of a preflight that resumes
  or opens a grant, of a chunk, and of a commit that is incomplete, wrong or acknowledged.
\<close>

section \<open>Rows that statements leave\<close>

lemma retain_live: "snapshot_exists (up_holder u) (up_digest u) (retain u t s)"
proof (cases "\<exists>r \<in> set (t_snapshots s). snap_key r = (up_holder u, up_digest u)")
  case True
  then obtain r where r: "r \<in> set (t_snapshots s)" "snap_key r = (up_holder u, up_digest u)" by blast
  let ?r = "if snap_key r = (up_holder u, up_digest u) \<and> \<not> live r then revive u t r else r"
  have "?r \<in> set (t_snapshots (retain u t s))"
    using True r(1) by (auto simp: retain_def Let_def update_where_def)
  moreover have "live ?r \<and> snap_holder ?r = up_holder u \<and> snap_digest ?r = up_digest u"
    using r(2) by (auto simp: revive_def live_def snap_key_def)
  ultimately show ?thesis unfolding snapshot_exists_iff by blast
next
  case False
  then show ?thesis by (auto simp: retain_def Let_def snapshot_exists_iff new_snapshot_def live_def)
qed

lemma exists_other_tables [simp]:
  "snapshot_exists h d (drop_upload uid s) = snapshot_exists h d s"
  "snapshot_exists h d (record_outcome op g sj st i t s) = snapshot_exists h d s"
  by (simp_all add: snapshot_exists_iff drop_upload_def record_outcome_def)

lemma find_insert_or_replace:
  "P r \<Longrightarrow> (\<And>r'. P r' \<Longrightarrow> key r' = key r) \<Longrightarrow> List.find P (insert_or_replace key r t) = Some r"
proof -
  assume r: "P r" "\<And>r'. P r' \<Longrightarrow> key r' = key r"
  have "List.find P (delete_where (\<lambda>r'. key r' = key r) t) = None"
    unfolding find_None_iff set_delete_where using r(2) by blast
  moreover have "List.find P (xs @ [r]) = Some r" if "List.find P xs = None" for xs
    using that r(1) by (induction xs) (auto split: if_splits)
  ultimately show ?thesis by (simp add: insert_or_replace_def)
qed

lemma outcome_recorded: "outcome h op (record_outcome op h sj st i t s) = Some (sj, st, i, t)"
  unfolding outcome_def record_outcome_def by (simp add: find_insert_or_replace oc_key_def)

lemma upload_dropped [simp]: "upload uid (drop_upload uid s) = None"
  by (auto simp: upload_def drop_upload_def find_None_iff)

lemma upload_other_tables [simp]:
  "upload uid (record_outcome op g sj st i t s) = upload uid s"
  by (simp add: upload_def record_outcome_def)

section \<open>Commit\<close>

lemma statement_Inl: "statement f w = (Inl e, w') \<Longrightarrow> e = internal ''sqlite'' \<and> same_data w w'"
  unfolding statement_def by (drule execute_same) auto

text \<open>An acknowledged commit, whatever faults the schedule still held.\<close>

lemma commit_place_Inr:
  assumes "commit_place A u hex now w = (Inr r, w')"
  shows "\<exists>at. rfc_format (lib A) now = Some at \<and> admitted A u (store w) \<and>
    store w' = record_outcome (up_operation u) (up_holder u) (up_digest u) ''retained'' None at
      (drop_upload (up_id u) (retain u at (store w))) \<and>
    r = RJson 200 (outcome_json A ''retained'' (reference_json digest_suite (up_digest u) (up_size u)) (up_terms u))"
proof -
  from assms obtain at w1 w2 w3 w4 w5 where
    t: "stamp (lib A) now = Inr at"
    and 1: "commit_quota A u now w = (Inr (), w1)"
    and 2: "commit_blob (lib A) (blob_root (cfg A)) (up_id u) (up_holder u) hex (up_chunk_count u) (up_size u) w1 = (Inr (), w2)"
    and 3: "statement (retain u at) w2 = (Inr (), w3)"
    and 4: "statement (drop_upload (up_id u)) w3 = (Inr (), w4)"
    and 5: "statement (record_outcome (up_operation u) (up_holder u) (up_digest u) ''retained'' None at) w4 = (Inr (), w5)"
    and r: "w' = w5" "r = RJson 200 (outcome_json A ''retained'' (reference_json digest_suite (up_digest u) (up_size u)) (up_terms u))"
    unfolding commit_place_def by (auto elim!: bindE_Inr_E simp: liftE_run returnE_run)
  from commit_quota_Inr [OF 1] commit_blob_spec [OF 2] have "store w2 = store w" "admitted A u (store w)"
    by (auto simp: same_data_def same_store_def)
  with statement_Inr [OF 3] statement_Inr [OF 4] statement_Inr [OF 5] t r show ?thesis by auto
qed

lemma commit_Inr:
  assumes "commit A hs uid body now w = (Inr r, w')" "grants_ok (blob_root (cfg A)) w"
  obtains u at where "u \<in> set (t_uploads (store w))" "up_id u = uid" "claimed A hs = Some (up_holder u)"
    "complete_incoming (lib A) (blob_root (cfg A)) (disk w) u"
    "snapshot_exists (up_holder u) (up_digest u) (store w')"
    "outcome (up_holder u) (up_operation u) (store w') = Some (up_digest u, ''retained'', None, at)"
    "upload uid (store w') = None"
    "r = RJson 200 (outcome_json A ''retained'' (reference_json digest_suite (up_digest u) (up_size u)) (up_terms u))"
proof -
  from assms(1) obtain u w1 hex w2 where
    1: "commit_lookup A hs uid body now w = (Inr u, w1)" and
    2: "commit_verify A u w1 = (Inr hex, w2)" and 3: "commit_place A u hex now w2 = (Inr r, w')"
    unfolding commit_def by (auto elim!: bindE_Inr_E)
  from granted_upload_spec [OF 1 [unfolded commit_lookup_def]]
  have u: "u \<in> set (t_uploads (store w))" "up_id u = uid" "claimed A hs = Some (up_holder u)" "disk w1 = disk w"
    by (auto simp: core_same_def)
  have "grant_ok u" "incoming_ok (blob_root (cfg A)) (disk w1) u"
    using assms(2) u by (auto simp: grants_ok_def)
  from commit_verify_Inr [OF 2 this] have "complete_incoming (lib A) (blob_root (cfg A)) (disk w) u"
    using u(4) by simp
  with u commit_place_Inr [OF 3] that [of u] show ?thesis
    by (auto simp: outcome_recorded retain_live)
qed

text \<open>The verification, when no access fails, decides between three ends.\<close>

lemma fold_add_size_filter:
  assumes "\<forall>i \<in> set is. read_file d p i \<noteq> None"
  shows "filter (\<lambda>i. read_file d p i \<noteq> None) is = is"
  using assms by (simp add: filter_id_conv)

lemma abandon_calm:
  assumes "faults w = []"
  shows "abandon A uid w = (Inr (), w\<lparr>store := drop_upload uid (store w),
    disk := dir_remove (incoming_dir (blob_root (cfg A)) uid) (disk w)\<rparr>)"
  using assms
  by (simp add: abandon_def discard_upload_def remove_dir_all_def take_fault_def sync_dir_def run_simps)

lemma commit_verify_incomplete:
  assumes "faults w = []" "0 \<le> i" "i < up_chunk_count u"
    "read_file (disk w) (incoming_dir (blob_root (cfg A)) (up_id u)) i = None"
  shows "\<exists>m. commit_verify A u w = (Inl (Err (UploadIncomplete m (up_chunk_count u))), w) \<and> ranges_ok m \<and>
    covered m = {i. 0 \<le> i \<and> i < up_chunk_count u \<and>
      read_file (disk w) (incoming_dir (blob_root (cfg A)) (up_id u)) i = None}"
proof -
  obtain t m where a: "arrival (blob_root (cfg A)) (up_id u) (up_chunk_count u) w = (Inr (t, m), w)" "ranges_ok m"
    "covered m = {i. 0 \<le> i \<and> i < up_chunk_count u \<and>
      read_file (disk w) (incoming_dir (blob_root (cfg A)) (up_id u)) i = None}"
    by (rule arrival_calm [OF assms(1), of "blob_root (cfg A)" "up_id u" "up_chunk_count u"]) blast
  then have "m \<noteq> []" using assms(2-4) by force
  with a show ?thesis by (auto simp: commit_verify_def Let_def bindE_run throwE_run)
qed

lemma digest_fold_calm:
  assumes "faults w = []" "\<And>i. i \<in> set is \<Longrightarrow> read_file (disk w) p i \<noteq> None"
  shows "foldE (digest_step p) is acc w = (Inr (acc @ concat (map (\<lambda>i. the (read_file (disk w) p i)) is)), w)"
  using assms(2)
proof (induction "is" arbitrary: acc)
  case (Cons i "is")
  then obtain b where "read_file (disk w) p i = Some b" by fastforce
  with Cons assms(1) show ?case by (simp add: digest_step_def run_simps)
qed (simp add: returnE_run)

lemma digest_of_calm:
  assumes "faults w = []" "dir_lookup (disk w) (incoming_dir root uid) = Some fs" "whole fs n"
  shows "digest_of X root uid n w = (Inr (digest X (content fs n)), w)"
proof -
  have r: "read_file (disk w) (incoming_dir root uid) i = Some (chunk_at fs i)" if "i \<in> set [0..n - 1]" for i
    using whole_map_of [OF assms(3)] that by (simp add: read_file_simps [OF assms(2)])
  then have "map (\<lambda>i. the (read_file (disk w) (incoming_dir root uid) i)) [0..n - 1] = map (chunk_at fs) [0..n - 1]"
    by (intro map_cong) simp_all
  with r digest_fold_calm [OF assms(1), of "[0..n - 1]" "incoming_dir root uid" "[]"] show ?thesis
    by (simp add: digest_of_def bindE_run returnE_run content_def)
qed

text \<open>All chunks there, but not the bytes that were promised.\<close>

lemma commit_verify_wrong:
  assumes "faults w = []" "grant_ok u" "incoming_ok (blob_root (cfg A)) (disk w) u"
    "dir_lookup (disk w) (incoming_dir (blob_root (cfg A)) (up_id u)) = Some fs" "whole fs (up_chunk_count u)"
    "digest (lib A) (content fs (up_chunk_count u)) \<noteq> up_digest u"
  shows "commit_verify A u w = (Inl (Err DigestMismatch), snd (abandon A (up_id u) w))"
proof -
  let ?p = "incoming_dir (blob_root (cfg A)) (up_id u)"
  obtain t m where a: "arrival (blob_root (cfg A)) (up_id u) (up_chunk_count u) w = (Inr (t, m), w)"
    "covered m = {i. 0 \<le> i \<and> i < up_chunk_count u \<and> read_file (disk w) ?p i = None}" "ranges_ok m"
    by (rule arrival_calm [OF assms(1), of "blob_root (cfg A)" "up_id u" "up_chunk_count u"]) blast
  have "covered m = {}"
    using whole_map_of [OF assms(5)] by (auto simp: a(2) read_file_simps [OF assms(4)])
  then have "m = []" using a(3) by (cases m rule: ranges_ok.cases) auto
  with a(1) digest_of_calm [OF assms(1,4,5)] assms(1,6) show ?thesis
    by (auto simp: commit_verify_def Let_def bindE_run throwE_run abandon_calm)
qed

section \<open>Calm schedules stay calm\<close>

definition calm_op :: "'a op \<Rightarrow> bool" where
  "calm_op m \<longleftrightarrow> (\<forall>w. faults w = [] \<longrightarrow> faults (snd (m w)) = [])"

lemma calm_opD: "calm_op m \<Longrightarrow> faults w = [] \<Longrightarrow> m w = (r, w') \<Longrightarrow> faults w' = []"
  unfolding calm_op_def by (metis snd_conv)

lemma calm_ops [simp]: "calm_op (returnE x)" "calm_op (throwE e)" "calm_op (liftE v)" "calm_op (getE f)"
  "calm_op (query q)" "calm_op (select g)" "calm_op (execute h)" "calm_op (statement k)" "calm_op (io_step t)"
  by (simp_all add: calm_op_def run_simps)

lemma calm_bind: "calm_op m \<Longrightarrow> (\<And>x. calm_op (f x)) \<Longrightarrow> calm_op (bindE m f)"
  unfolding calm_op_def by (auto simp: bindE_run split: prod.splits sum.splits)

lemma calm_prod: "(\<And>x y. calm_op (g x y)) \<Longrightarrow> calm_op ((\<lambda>(x, y). g x y) q)"
  by (cases q) simp

lemma calm_if: "calm_op m \<Longrightarrow> calm_op m' \<Longrightarrow> calm_op (if b then m else m')"
  by simp

lemma calm_authenticate: "calm_op (authenticate A hs verb path body now)"
  unfolding authenticate_def by (intro calm_bind calm_prod calm_if calm_ops)

lemma calm_granted: "calm_op (granted_upload A hs verb path body now uid)"
  unfolding granted_upload_def by (intro calm_bind calm_authenticate calm_if calm_ops)

section \<open>Preflight\<close>

lemma resume_calm:
  assumes "faults w = []" "up_size g = n"
  shows "\<exists>m. resume_grant A g n w = (Inr (RJson 200 (grant_json g m)), w) \<and> ranges_ok m \<and>
    covered m = {i. 0 \<le> i \<and> i < up_chunk_count g \<and>
      read_file (disk w) (incoming_dir (blob_root (cfg A)) (up_id g)) i = None}"
proof -
  obtain t m where "arrival (blob_root (cfg A)) (up_id g) (up_chunk_count g) w = (Inr (t, m), w)" "ranges_ok m"
    "covered m = {i. 0 \<le> i \<and> i < up_chunk_count g \<and>
      read_file (disk w) (incoming_dir (blob_root (cfg A)) (up_id g)) i = None}"
    by (rule arrival_calm [OF assms(1), of "blob_root (cfg A)" "up_id g" "up_chunk_count g"]) blast
  with assms(2) show ?thesis by (auto simp: resume_grant_def bindE_run returnE_run)
qed

text \<open>The grant that is open, when there is one, is the one preflight resumes.\<close>

lemma open_grant_for_Some:
  "open_grant_for X h d t s = Some g \<Longrightarrow> g \<in> set (t_uploads s) \<and> up_holder g = h \<and> up_digest g = d \<and> grant_open X t g"
proof -
  have first: "(case l of [] \<Rightarrow> None | r # _ \<Rightarrow> Some r) = Some g \<Longrightarrow> g \<in> set l" for l
    by (cases l) simp_all
  assume "open_grant_for X h d t s = Some g"
  from first [OF this [unfolded open_grant_for_def]] show ?thesis by simp
qed

text \<open>What a minted grant leaves, when nothing fails.\<close>

lemma mint_grant_calm:
  assumes "faults w = []" "time_add (lib A) now (upload_expiry_secs (cfg A)) = Some expiry"
    "rfc_format (lib A) expiry = Some expires_at" "\<forall>u \<in> set (t_uploads (store w)). up_id u \<noteq> uid"
    "dir_lookup (disk w) (incoming_dir (blob_root (cfg A)) uid) = None"
  shows "mint_grant A who req now t uid w =
    (let row = grant_row A (h_handle who) req uid t expires_at in
     (Inr (RJson 200 (grant_json row [(0, up_chunk_count row - 1)])),
      w\<lparr>store := (store w)\<lparr>t_uploads := t_uploads (store w) @ [row]\<rparr>,
        disk := dir_put (incoming_dir (blob_root (cfg A)) uid) [] (disk w)\<rparr>))"
proof -
  have id: "up_id (grant_row A (h_handle who) req uid t expires_at) = uid" by (simp add: grant_row_def Let_def)
  show ?thesis
    using assms
    by (simp add: mint_grant_def bindE_run liftE_run stamp_def begin_incoming_def io_step_calm sync_dir_def
        set_disk_def modifyE_run create_dir_all_def query_calm begin_upload_def id returnE_run Let_def)
qed

section \<open>Chunks\<close>

lemma chunk_added_reads:
  assumes "chunk_added p i body d d'"
  shows "q \<noteq> p \<Longrightarrow> dir_lookup d' q = dir_lookup d q"
    "read_file d q j = Some b \<Longrightarrow> read_file d' q j = Some b"
    "j \<noteq> i \<Longrightarrow> read_file d' q j = read_file d q j"
  using assms by (cases "q = p"; auto simp: chunk_added_def only_at_def read_file_def update_conv')+

lemma chunk_added_refl: "chunk_added p i body d d"
  by (simp add: chunk_added_def)

lemma framed_still: "framed (\<lambda>v. core_same (store w) (store v) \<and> disk v = disk w)"
  by (auto simp: framed_def core_same_def)

lemma granted_upload_frame:
  assumes "granted_upload A hs verb path body now uid w = (q, w')"
  shows "core_same (store w) (store w') \<and> disk w' = disk w"
  using keepsD [OF framed_granted_upload [OF framed_still [of w]] _ assms] by simp

lemma authenticate_frame:
  assumes "authenticate A hs verb path body now w = (q, w')"
  shows "core_same (store w) (store w') \<and> disk w' = disk w"
  using keepsD [OF framed_authenticate [OF framed_still [of w]] _ assms] by simp

lemma put_chunk_spec:
  assumes "put_chunk A hs uid i body now w = (r, w')"
  shows "core_same (store w) (store w') \<and>
    chunk_added (incoming_dir (blob_root (cfg A)) uid) i body (disk w) (disk w') \<and>
    (\<forall>x. r = Inr x \<longrightarrow> read_file (disk w') (incoming_dir (blob_root (cfg A)) uid) i = Some body \<and>
       (\<exists>u \<in> set (t_uploads (store w)). up_id u = uid \<and> claimed A hs = Some (up_holder u) \<and>
          0 \<le> i \<and> i < up_chunk_count u \<and> int (length body) = expected_chunk u i))"
proof -
  let ?path = "upload_path uid @ ''/chunks/'' @ show_int i"
  obtain q w1 where g: "granted_upload A hs ''PUT'' ?path body now uid w = (q, w1)"
    by (cases "granted_upload A hs ''PUT'' ?path body now uid w")
  note f = granted_upload_frame [OF g]
  show ?thesis
  proof (cases q)
    case (Inl e)
    with assms g f show ?thesis by (auto simp: put_chunk_def bindE_run chunk_added_refl)
  next
    case (Inr u)
    note u = granted_upload_spec [OF g [unfolded Inr]]
    have mem: "u \<in> set (t_uploads (store w))" using u by (auto simp: core_same_def)
    show ?thesis
    proof (cases "0 \<le> i \<and> i < up_chunk_count u \<and> int (length body) = expected_chunk u i")
      case False
      with assms g Inr f show ?thesis
        by (auto simp: put_chunk_def bindE_run throwE_run chunk_added_refl not_le not_less split: if_splits)
    next
      case True
      obtain qc w2 where c: "write_chunk (blob_root (cfg A)) uid i body w1 = (qc, w2)"
        by (cases "write_chunk (blob_root (cfg A)) uid i body w1")
      have "w' = w2" "\<And>x. r = Inr x \<Longrightarrow> qc = Inr ()"
        using assms g Inr c True by (auto simp: put_chunk_def bindE_run returnE_run split: sum.splits)
      with write_chunk_spec [OF c] f u mem True show ?thesis by (auto simp: same_store_def)
    qed
  qed
qed

section \<open>What preflight plans\<close>

text \<open>A grant whose framing does not overflow has at least one chunk.\<close>

lemma grant_count_pos:
  assumes "grant_ok u" "up_size u + up_chunk_bytes u - 1 \<le> i64_max"
  shows "0 < up_chunk_count u"
proof -
  have u: "0 < up_size u" "0 < up_chunk_bytes u" using assms(1) by (simp_all add: grant_ok_def)
  then have "wrap64 (up_size u + up_chunk_bytes u - 1) = up_size u + up_chunk_bytes u - 1"
    using assms(2) by (intro wrap64_id) (simp add: i64_defs)
  then have "up_chunk_count u = (up_size u + up_chunk_bytes u - 1) div up_chunk_bytes u"
    using assms(1) u by (simp add: grant_ok_def quot64_pos)
  then show ?thesis using u by (simp add: pos_imp_zdiv_pos_iff)
qed

end
