(* ===== verification/Erasure_Facts.thy ===== *)
theory Erasure_Facts
  imports Upload_Facts
begin

text \<open>
  What an erasure does: the decision is one transaction, with one receipt for each terms document
  that the rows in scope pin; a retry answers with the receipts of the first; the bytes follow.
\<close>

section \<open>The receipts that are minted\<close>

lemma mint_receipt_fields:
  "mint_receipt A scope targets at ids tid s = Inr (d, m) \<Longrightarrow>
     mint_id m = ids tid \<and> mint_terms m = tid \<and> mint_covers m = covered_by targets tid"
  by (auto simp: mint_receipt_def compose_def jindex_def Let_def split: prod.splits)

lemma mint_receipts_fields:
  assumes "mint_receipts A scope targets at ids s = Inr made"
  shows "map mint_terms (map snd made) = pinned_terms targets"
    "map mint_id (map snd made) = map ids (pinned_terms targets)"
    "map mint_covers (map snd made) = map (covered_by targets) (pinned_terms targets)"
proof -
  from assms have a: "list_all2 (\<lambda>tid dm. mint_receipt A scope targets at ids tid s = Inr dm) (pinned_terms targets) made"
    by (simp add: mint_receipts_def collect_results_Inr)
  then have "list_all2 (\<lambda>tid dm. mint_terms (snd dm) = tid \<and> mint_id (snd dm) = ids tid \<and>
      mint_covers (snd dm) = covered_by targets tid) (pinned_terms targets) made"
    by (rule list_all2_mono) (auto dest: mint_receipt_fields)
  then show "map mint_terms (map snd made) = pinned_terms targets"
    "map mint_id (map snd made) = map ids (pinned_terms targets)"
    "map mint_covers (map snd made) = map (covered_by targets) (pinned_terms targets)"
    by (induction rule: list_all2_induct) simp_all
qed

lemma minted_covers:
  assumes "mint_receipts A scope targets at ids s = Inr made" "m \<in> set (map snd made)"
  shows "set (mint_covers m) = snap_digest ` {row \<in> set targets. snap_terms row = mint_terms m}"
proof -
  let ?ms = "map snd made"
  obtain i where i: "i < length ?ms" "m = ?ms ! i" using assms(2) by (metis in_set_conv_nth)
  have "map mint_covers ?ms ! i = map (covered_by targets) (map mint_terms ?ms) ! i"
    unfolding mint_receipts_fields(1,3) [OF assms(1)] ..
  with i have "mint_covers m = covered_by targets (mint_terms m)" by simp
  then show ?thesis by (auto simp: covered_by_def)
qed

lemma pinned_terms_set: "set (pinned_terms targets) = snap_terms ` set targets" "distinct (pinned_terms targets)"
  "sorted (pinned_terms targets)"
  by (simp_all add: pinned_terms_def)

text \<open>Together the receipts cover the scope, and each row is covered by the receipt of its terms.\<close>

lemma covered_union: "(\<Union>tid \<in> set (pinned_terms targets). set (covered_by targets tid)) = snap_digest ` set targets"
  by (auto simp: pinned_terms_set covered_by_def)

section \<open>The decision\<close>

definition decided ::
  "app \<Rightarrow> string \<Rightarrow> erase_request \<Rightarrow> snapshot_row list \<Rightarrow> string \<Rightarrow> (json \<times> minted) list \<Rightarrow> store \<Rightarrow> store" where
  "decided A h req targets at made s =
     commit_erasure (lib A) h (erase_scope req) (map snap_digest targets) (map snd made) (erase_operation_id req) at s"

lemma unlink_store: "unlink_erased A h doomed w = (r, w') \<Longrightarrow> store w' = store w \<and> r = Inr ()"
  unfolding unlink_erased_def
proof (induction doomed arbitrary: w)
  case (Cons hex doomed)
  obtain q w1 where q: "erase_blob (blob_root (cfg A)) h hex w = (q, w1)"
    by (cases "erase_blob (blob_root (cfg A)) h hex w")
  have "matchE (erase_blob (blob_root (cfg A)) h hex) (\<lambda>_. returnE ()) returnE w = (Inr (), w1)"
    using q by (cases q) (simp_all add: matchE_run returnE_run)
  with Cons.prems have "foldE (\<lambda>hex _. matchE (erase_blob (blob_root (cfg A)) h hex) (\<lambda>_. returnE ()) returnE)
      doomed () w1 = (r, w')"
    by (simp add: bindE_run)
  from Cons.IH [OF this] erase_blob_spec [OF q] show ?case by (simp add: same_store_def)
qed (simp add: returnE_run)

text \<open>
  Whatever the schedule: no row and no receipt changes, or the whole decision is taken; with an
  acknowledgement only in the second case.
\<close>

lemma erase_targets_spec:
  assumes "erase_targets A who req targets at ids w = (r, w')"
  shows "disk w' = disk w \<and>
    (store w' = store w \<and> (\<exists>e. r = Inl e) \<or>
     (\<exists>made. mint_receipts A (erase_scope req) targets at ids (store w) = Inr made \<and>
        store w' = decided A (h_handle who) req targets at made (store w) \<and>
        (\<forall>docs_doomed. r = Inr docs_doomed \<longrightarrow> fst docs_doomed = map fst made \<and>
           collect_results digest_hex (map snap_digest targets) = Inr (snd docs_doomed))))"
proof -
  let ?mint = "query (mint_receipts A (erase_scope req) targets at ids)"
  obtain q w1 where 1: "?mint w = (q, w1)" by (cases "?mint w")
  note same = query_same [OF 1]
  show ?thesis
  proof (cases q)
    case (Inl e)
    with assms 1 same show ?thesis by (auto simp: erase_targets_def bindE_run same_data_def)
  next
    case (Inr made)
    let ?decide = "statement (commit_erasure (lib A) (h_handle who) (erase_scope req) (map snap_digest targets)
       (map snd made) (erase_operation_id req) at)"
    obtain q2 w2 where 2: "?decide w1 = (q2, w2)" by (cases "?decide w1")
    show ?thesis
    proof (cases q2)
      case (Inl e)
      with assms 1 2 Inr same statement_Inl [OF 2 [unfolded Inl]] show ?thesis
        by (auto simp: erase_targets_def bindE_run same_data_def)
    next
      case (Inr u)
      have "mint_receipts A (erase_scope req) targets at ids (store w) = Inr made"
        using same \<open>q = Inr made\<close> by auto
      with assms 1 2 Inr \<open>q = Inr made\<close> same statement_Inr [of _ w1 "()" w2] show ?thesis
        by (auto simp: erase_targets_def bindE_run liftE_run returnE_run same_data_def decided_def split: sum.splits)
    qed
  qed
qed

lemma erase_again_rows:
  assumes "erase_again A who req at w = (r, w')"
  shows "t_snapshots (store w') = t_snapshots (store w) \<and> t_receipts (store w') = t_receipts (store w) \<and> disk w' = disk w"
proof -
  let ?J = "\<lambda>v. t_snapshots (store v) = t_snapshots (store w) \<and> t_receipts (store v) = t_receipts (store w) \<and> disk v = disk w"
  have J: "framed ?J" by (auto simp: framed_def core_same_def)
  have "keeps ?J (statement (record_outcome op g sj st i t))" for op g sj st i t
    unfolding preserves_True [symmetric] by (rule preserves_statement [OF J]) (simp add: record_outcome_def)
  then have "keeps ?J (erase_again A who req at)"
    unfolding erase_again_def Let_def by (intro valid_rules framed_query [OF J] framed_select [OF J])
  from keepsD [OF this _ assms] show ?thesis by simp
qed

lemma decided_core: "core_same s s' \<Longrightarrow> core_same (decided A h req targets at made s) (decided A h req targets at made s')"
proof -
  have r: "t_receipts (fold (insert_receipt h scope at) ms s) =
      fold (\<lambda>m. insert_or_replace rc_id \<lparr>rc_id = mint_id m, rc_holder = h, rc_scope = scope, rc_terms = mint_terms m,
          rc_raw = mint_raw m, rc_issued_at = at\<rparr>) ms (t_receipts s)" for scope ms s
    by (induction ms arbitrary: s) (simp_all add: insert_receipt_def)
  show "core_same s s' \<Longrightarrow> ?thesis"
    unfolding decided_def commit_erasure_def record_outcome_def core_same_def
    by (simp add: r fold_mark_erased_snapshots)
qed

lemma scope_core: "core_same s s' \<Longrightarrow> snapshots_in_scope X h scope s' = snapshots_in_scope X h scope s"
  by (simp add: snapshots_in_scope_def snapshots_def listed_def core_same_def)

lemma mint_core: "core_same s s' \<Longrightarrow> mint_receipts A scope targets at ids s' = mint_receipts A scope targets at ids s"
  by (simp add: mint_receipts_def mint_receipt_def terms_document_def core_same_def)

lemma core_same_trans: "core_same s s' \<Longrightarrow> core_same s' s'' \<Longrightarrow> core_same s s''"
  by (simp add: core_same_def)

definition erasure_decided :: "app \<Rightarrow> headers \<Rightarrow> bytes \<Rightarrow> instant \<Rightarrow> (string \<Rightarrow> string) \<Rightarrow> store \<Rightarrow> fail + response \<Rightarrow> store \<Rightarrow> bool" where
  "erasure_decided A hs body now ids s r s' \<longleftrightarrow>
     (\<exists>h at req targets made. claimed A hs = Some h \<and> rfc_format (lib A) now = Some at \<and>
        decode_erase (lib A) body = Some req \<and> targets = snapshots_in_scope (lib A) h (erase_scope req) s \<and>
        targets \<noteq> [] \<and> mint_receipts A (erase_scope req) targets at ids s = Inr made \<and>
        core_same (decided A h req targets at made s) s' \<and>
        (\<forall>x. r = Inr x \<longrightarrow> x = RJson 200 (JArr (map fst made))))"

lemma erase_targets_decided:
  assumes "claimed A hs = Some (h_handle who)" "rfc_format (lib A) now = Some at" "decode_erase (lib A) body = Some req"
    "core_same (store w0) (store w)" "targets = snapshots_in_scope (lib A) (h_handle who) (erase_scope req) (store w)"
    "targets \<noteq> []"
    and run: "bindE (erase_targets A who req targets at ids) (\<lambda>(receipts, doomed).
        bindE (unlink_erased A (h_handle who) doomed) (\<lambda>_. returnE (RJson 200 (JArr receipts)))) w = (r, w')"
  shows "store w' = store w \<and> (\<exists>e. r = Inl e) \<or> erasure_decided A hs body now ids (store w0) r (store w')"
proof -
  obtain q w1 where q: "erase_targets A who req targets at ids w = (q, w1)"
    by (cases "erase_targets A who req targets at ids w")
  note spec = erase_targets_spec [OF q]
  have tail: "store w' = store w1 \<and> (\<forall>x. r = Inr x \<longrightarrow> (\<exists>p. q = Inr p \<and> x = RJson 200 (JArr (fst p))))"
  proof (cases q)
    case (Inl e)
    with run q show ?thesis by (auto simp: bindE_run)
  next
    case (Inr p)
    obtain u w2 where "unlink_erased A (h_handle who) (snd p) w1 = (u, w2)"
      by (cases "unlink_erased A (h_handle who) (snd p) w1")
    with unlink_store [OF this] run q Inr show ?thesis
      by (auto simp: bindE_run returnE_run split: prod.splits)
  qed
  show ?thesis
  proof (cases "store w1 = store w \<and> (\<exists>e. q = Inl e)")
    case True
    then show ?thesis using tail by (cases r) auto
  next
    case False
    then obtain made where made: "mint_receipts A (erase_scope req) targets at ids (store w) = Inr made"
      "store w1 = decided A (h_handle who) req targets at made (store w)"
      "\<forall>p. q = Inr p \<longrightarrow> fst p = map fst made"
      using spec tail by metis
    have "mint_receipts A (erase_scope req) targets at ids (store w0) = Inr made"
      "targets = snapshots_in_scope (lib A) (h_handle who) (erase_scope req) (store w0)"
      "core_same (decided A (h_handle who) req targets at made (store w0)) (store w')"
      using made tail assms(4,5) mint_core [OF assms(4)] scope_core [OF assms(4)] decided_core [OF assms(4)] by simp_all
    moreover have "\<forall>x. r = Inr x \<longrightarrow> x = RJson 200 (JArr (map fst made))" using tail made(3) by auto
    ultimately show ?thesis using assms(1-3,6) unfolding erasure_decided_def by blast
  qed
qed

text \<open>The whole handler, under every schedule of faults.\<close>

lemma require_frame:
  assumes "require A who hs operation now w = (q, w')"
  shows "core_same (store w) (store w') \<and> disk w' = disk w"
  using keepsD [OF framed_require [OF framed_still [of w]] _ assms] by simp

definition rows_kept :: "store \<Rightarrow> store \<Rightarrow> bool" where
  "rows_kept s s' \<longleftrightarrow> t_snapshots s' = t_snapshots s \<and> t_receipts s' = t_receipts s"

lemma rows_kept_core: "core_same s s' \<Longrightarrow> rows_kept s s'"
  by (simp add: rows_kept_def core_same_def)

lemma erase_spec:
  assumes "erase A hs body now ids w = (r, w')"
  shows "rows_kept (store w) (store w') \<and> (\<forall>x. r = Inr x \<longrightarrow> (\<exists>h req. claimed A hs = Some h \<and>
      decode_erase (lib A) body = Some req \<and> snapshots_in_scope (lib A) h (erase_scope req) (store w) = [])) \<or>
    erasure_decided A hs body now ids (store w) r (store w')"
proof (cases "\<exists>who req targets at w1 w2 w3. stamp (lib A) now = Inr at \<and>
    authenticate A hs ''POST'' ''/v1/erasures'' body now w = (Inr who, w1) \<and>
    require A who hs Erase now w1 = (Inr (), w2) \<and> decode_erase (lib A) body = Some req \<and> check_erase req = Inr () \<and>
    select (snapshots_in_scope (lib A) (h_handle who) (erase_scope req)) w2 = (Inr targets, w3)")
  case True
  then obtain who req targets at w1 w2 w3 where s: "stamp (lib A) now = Inr at"
    "authenticate A hs ''POST'' ''/v1/erasures'' body now w = (Inr who, w1)"
    "require A who hs Erase now w1 = (Inr (), w2)" "decode_erase (lib A) body = Some req" "check_erase req = Inr ()"
    "select (snapshots_in_scope (lib A) (h_handle who) (erase_scope req)) w2 = (Inr targets, w3)"
    by blast
  have core: "core_same (store w) (store w3)"
    using authenticate_frame [OF s(2)] require_frame [OF s(3)] select_same [OF s(6)]
    by (auto simp: same_data_def intro: core_same_trans)
  have t: "targets = snapshots_in_scope (lib A) (h_handle who) (erase_scope req) (store w3)"
    using select_same [OF s(6)] by (auto simp: same_data_def)
  have c: "claimed A hs = Some (h_handle who)" by (rule authenticate_claimed [OF s(2)])
  have run: "(if targets = [] then erase_again A who req at
      else bindE (erase_targets A who req targets at ids) (\<lambda>(receipts, doomed).
        bindE (unlink_erased A (h_handle who) doomed) (\<lambda>_. returnE (RJson 200 (JArr receipts))))) w3 = (r, w')"
    using assms s unfolding erase_def by (simp add: bindE_run liftE_run del: stamp_Inr)
  show ?thesis
  proof (cases "targets = []")
    case True
    with run have "rows_kept (store w3) (store w')" using erase_again_rows [of A who req at w3 r w'] by (simp add: rows_kept_def)
    then show ?thesis using c s(4) core t True scope_core [OF core] by (auto simp: rows_kept_def core_same_def)
  next
    case False
    with run erase_targets_decided [OF c _ s(4) core t False, of now at ids r w'] s(1) rows_kept_core [OF core]
    show ?thesis by (auto simp: rows_kept_def)
  qed
next
  case False
  have "core_same (store w) (store w') \<and> (\<exists>e. r = Inl e)"
  proof (cases "stamp (lib A) now")
    case (Inl e)
    with assms show ?thesis by (auto simp: erase_def bindE_run liftE_run)
  next
    case (Inr at)
    obtain q1 w1 where 1: "authenticate A hs ''POST'' ''/v1/erasures'' body now w = (q1, w1)"
      by (cases "authenticate A hs ''POST'' ''/v1/erasures'' body now w")
    show ?thesis
    proof (cases q1)
      case (Inl e)
      with assms 1 Inr authenticate_frame [OF 1] show ?thesis
        by (auto simp: erase_def bindE_run liftE_run simp del: stamp_Inr)
    next
      case (Inr who)
      obtain q2 w2 where 2: "require A who hs Erase now w1 = (q2, w2)" by (cases "require A who hs Erase now w1")
      have core: "core_same (store w) (store w2)"
        using authenticate_frame [OF 1] require_frame [OF 2] by (auto intro: core_same_trans)
      from False assms 1 2 Inr \<open>stamp (lib A) now = Inr at\<close> core show ?thesis
        by (auto simp: erase_def bindE_run liftE_run ok_or_def same_data_def simp del: stamp_Inr
            split: sum.splits option.splits prod.splits dest!: select_same)
    qed
  qed
  then show ?thesis by (auto intro: rows_kept_core)
qed

text \<open>What a decision leaves, read off its tables.\<close>

lemma decided_facts:
  assumes "core_same (decided A h req targets at made s) s'" "mint_receipts A (erase_scope req) targets at ids s = Inr made"
  shows "t_snapshots s' = map (erased_row h at (map snap_digest targets)) (t_snapshots s)"
    "map mint_terms (map snd made) = pinned_terms targets"
    "\<Union> (set ` set (map mint_covers (map snd made))) = snap_digest ` set targets"
    "outcome h (erase_operation_id req) s' = Some (erase_scope req, ''erasure_acknowledged'',
       Some (ids_text (lib A) (map mint_id (map snd made))), at)"
proof -
  show "t_snapshots s' = map (erased_row h at (map snap_digest targets)) (t_snapshots s)"
    using assms(1) by (simp add: core_same_def decided_def)
  show "map mint_terms (map snd made) = pinned_terms targets" by (rule mint_receipts_fields(1) [OF assms(2)])
  show "\<Union> (set ` set (map mint_covers (map snd made))) = snap_digest ` set targets"
    unfolding mint_receipts_fields(3) [OF assms(2)] using covered_union [of targets] by simp
  have "outcome h op s' = outcome h op (decided A h req targets at made s)" for op
    using assms(1) by (simp add: outcome_def core_same_def)
  then show "outcome h (erase_operation_id req) s' = Some (erase_scope req, ''erasure_acknowledged'',
       Some (ids_text (lib A) (map mint_id (map snd made))), at)"
    by (simp add: decided_def commit_erasure_def outcome_recorded)
qed

section \<open>The receipts a retry finds\<close>

definition receipt_of :: "string \<Rightarrow> string \<Rightarrow> string \<Rightarrow> minted \<Rightarrow> receipt_row" where
  "receipt_of h scope at m = \<lparr>rc_id = mint_id m, rc_holder = h, rc_scope = scope, rc_terms = mint_terms m,
     rc_raw = mint_raw m, rc_issued_at = at\<rparr>"

lemma receipts_appended:
  assumes "distinct (map mint_id ms)" "\<forall>m \<in> set ms. \<forall>r \<in> set (t_receipts s). rc_id r \<noteq> mint_id m"
  shows "t_receipts (fold (insert_receipt h scope at) ms s) = t_receipts s @ map (receipt_of h scope at) ms"
  using assms
proof (induction ms arbitrary: s)
  case (Cons m ms)
  let ?s = "insert_receipt h scope at m s"
  have "t_receipts ?s = t_receipts s @ [receipt_of h scope at m]"
    using Cons.prems by (auto simp: insert_receipt_def insert_or_replace_def delete_where_def receipt_of_def filter_id_conv)
  with Cons.IH [of ?s] Cons.prems show ?case by (auto simp: receipt_of_def)
qed simp

lemma candidates_found:
  assumes "\<forall>(r, c) \<in> set rows. relevant scope digests r c \<longrightarrow> rfc_parse X (rc_issued_at r) = Some (at r)"
    "\<forall>(r, t) \<in> set acc. t = at r" "distinct (map (\<lambda>p. rc_id (fst p)) acc)"
    "inj_on rc_id (fst ` set acc \<union> fst ` set rows)"
  shows "\<exists>cs. receipt_candidates X scope digests rows acc = Inr cs \<and> distinct (map (\<lambda>p. rc_id (fst p)) cs) \<and>
    set cs = set acc \<union> {(r, at r) |r. \<exists>c. (r, c) \<in> set rows \<and> relevant scope digests r c}"
  using assms
proof (induction rows arbitrary: acc)
  case (Cons row rows)
  obtain r c where row: "row = (r, c)" by (cases row)
  show ?case
  proof (cases "relevant scope digests r c")
    case False
    have "inj_on rc_id (fst ` set acc \<union> fst ` set rows)"
      using Cons.prems(4) by (rule inj_on_subset) auto
    moreover have "\<forall>(r, c) \<in> set rows. relevant scope digests r c \<longrightarrow> rfc_parse X (rc_issued_at r) = Some (at r)"
      using Cons.prems(1) by auto
    ultimately have "\<exists>cs. receipt_candidates X scope digests rows acc = Inr cs \<and> distinct (map (\<lambda>p. rc_id (fst p)) cs) \<and>
        set cs = set acc \<union> {(r, at r) |r. \<exists>c. (r, c) \<in> set rows \<and> relevant scope digests r c}"
      using Cons.IH [of acc] Cons.prems(2,3) by blast
    moreover have "{(r, at r) |r. \<exists>c. (r, c) \<in> set (row # rows) \<and> relevant scope digests r c} =
        {(r, at r) |r. \<exists>c. (r, c) \<in> set rows \<and> relevant scope digests r c}"
      using False row by auto
    moreover have "receipt_candidates X scope digests (row # rows) acc = receipt_candidates X scope digests rows acc"
      using False row by simp
    ultimately show ?thesis by presburger
  next
    case True
    then have at: "rfc_parse X (rc_issued_at r) = Some (at r)" using Cons.prems(1) row by auto
    let ?acc = "if \<exists>(r', _) \<in> set acc. rc_id r' = rc_id r then acc else acc @ [(r, at r)]"
    have known: "(r, at r) \<in> set acc" if "(r', t) \<in> set acc" "rc_id r' = rc_id r" for r' t
    proof -
      have "r' \<in> fst ` set acc" using that(1) by force
      then have "r' = r" using inj_onD [OF Cons.prems(4) that(2)] row by auto
      with that(1) Cons.prems(2) show ?thesis by auto
    qed
    have set_acc: "set ?acc = insert (r, at r) (set acc)" using known by auto
    have "\<forall>(r, t) \<in> set ?acc. t = at r" unfolding set_acc using Cons.prems(2) by auto
    moreover have "distinct (map (\<lambda>p. rc_id (fst p)) ?acc)" using Cons.prems(3) by auto
    moreover have "inj_on rc_id (fst ` set ?acc \<union> fst ` set rows)"
      unfolding set_acc using Cons.prems(4) by (rule inj_on_subset) (auto simp: row)
    moreover have "\<forall>(r, c) \<in> set rows. relevant scope digests r c \<longrightarrow> rfc_parse X (rc_issued_at r) = Some (at r)"
      using Cons.prems(1) by auto
    ultimately obtain cs where cs: "receipt_candidates X scope digests rows ?acc = Inr cs"
      "distinct (map (\<lambda>p. rc_id (fst p)) cs)"
      "set cs = set ?acc \<union> {(r, at r) |r. \<exists>c. (r, c) \<in> set rows \<and> relevant scope digests r c}"
      using Cons.IH by blast
    have "receipt_candidates X scope digests (row # rows) acc = Inr cs"
      using cs(1) True at row by simp
    moreover have "set cs = set acc \<union> {(r, at r) |r. \<exists>c. (r, c) \<in> set (row # rows) \<and> relevant scope digests r c}"
      unfolding cs(3) set_acc using True row by auto
    ultimately show ?thesis using cs(2) by blast
  qed
qed simp

text \<open>Rows with different keys, sorted, are determined by their set.\<close>

lemma sort_key_unique:
  assumes "set xs = set ys" "inj_on k (set ys)" "distinct xs" "distinct ys" "sorted (map k ys)"
  shows "sort_key k xs = ys"
proof (rule map_sorted_distinct_set_unique [where f = k])
  show "inj_on k (set (sort_key k xs) \<union> set ys)" using assms(1,2) by simp
  show "distinct (map k (sort_key k xs))" using assms(1-3) by (simp add: distinct_map)
qed (use assms in \<open>simp_all add: distinct_map\<close>)

lemma fold_max_newest:
  assumes "(t :: int) \<in> set ts" "\<And>x. x \<in> set ts \<Longrightarrow> x \<le> t" "u \<in> set ts"
    "ts = y # ys"
  shows "fold max ys y = t"
proof -
  have "fold max ys y = Max (set ts)" by (simp only: assms(4) Max.set_eq_fold)
  also have "\<dots> = t" using assms by (intro Max_eqI) auto
  finally show ?thesis .
qed

lemma newest_found:
  assumes "distinct (map (\<lambda>p. rc_id (fst p)) cs)" "new \<noteq> []" "distinct new"
    "\<And>r. r \<in> set new \<Longrightarrow> (r, t) \<in> set cs" "\<And>r x. (r, x) \<in> set cs \<Longrightarrow> x < t \<or> r \<in> set new \<and> x = t"
    "inj_on (\<lambda>r. (rc_terms r, rc_id r)) (set new)" "sorted (map (\<lambda>r. (rc_terms r, rc_id r)) new)"
  shows "newest_receipts cs = new"
proof -
  obtain r0 where r0: "(r0, t) \<in> set cs" using assms(2,4) by (cases new) auto
  obtain y ys where ys: "map snd cs = y # ys" using r0 by (cases cs) auto
  have "t \<in> set (map snd cs)" using r0 by force
  moreover have "x \<le> t" if "x \<in> set (map snd cs)" for x using assms(5) that by fastforce
  ultimately have m: "fold max ys y = t" using fold_max_newest [OF _ _ _ ys] by blast
  let ?picked = "map fst (filter (\<lambda>(r, at). at = t) cs)"
  have "set ?picked = set new"
  proof
    show "set ?picked \<subseteq> set new" using assms(5) by fastforce
    show "set new \<subseteq> set ?picked" using assms(4) by force
  qed
  moreover have "distinct ?picked"
  proof -
    have "distinct (map (\<lambda>p. rc_id (fst p)) (filter (\<lambda>(r, at). at = t) cs))" by (simp add: assms(1) distinct_map_filter)
    then have "distinct (map rc_id ?picked)" by (simp add: comp_def)
    then show ?thesis by (simp only: distinct_map)
  qed
  ultimately have "sort_key (\<lambda>r. (rc_terms r, rc_id r)) ?picked = new"
    using assms(3,6,7) by (intro sort_key_unique)
  with ys m show ?thesis by (simp add: newest_receipts_def)
qed

lemma decided_receipts:
  assumes "mint_receipts A (erase_scope req) targets at ids s = Inr made" "inj ids"
    "\<forall>r \<in> set (t_receipts s). rc_id r \<notin> range ids"
  shows "t_receipts (decided A h req targets at made s) =
      t_receipts s @ map (receipt_of h (erase_scope req) at) (map snd made)"
    "distinct (map mint_id (map snd made))"
proof -
  note f = mint_receipts_fields [OF assms(1)]
  show d: "distinct (map mint_id (map snd made))"
    unfolding f(2) using pinned_terms_set(2) assms(2) by (simp add: distinct_map inj_on_def)
  have "mint_id m \<in> range ids" if "m \<in> set (map snd made)" for m
  proof -
    have "mint_id m \<in> set (map mint_id (map snd made))" using that by (metis in_set_conv_nth length_map nth_map)
    then show ?thesis unfolding f(2) by auto
  qed
  then have "\<forall>m \<in> set (map snd made). \<forall>r \<in> set (t_receipts (fold (mark_erased h at) (map snap_digest targets) s)).
      rc_id r \<noteq> mint_id m"
    using assms(3) unfolding fold_mark_erased_tables(3) by metis
  from receipts_appended [OF d this]
  show "t_receipts (decided A h req targets at made s) =
      t_receipts s @ map (receipt_of h (erase_scope req) at) (map snd made)"
    by (simp add: decided_def commit_erasure_def record_outcome_def)
qed

lemma coverage_nonempty: "receipt_coverage s r \<noteq> []"
  by (simp add: receipt_coverage_def split: list.splits)

lemma latest_after_decision:
  assumes made: "mint_receipts A (erase_scope req) targets at ids s = Inr made" "targets \<noteq> []"
    and ids: "inj ids" "\<forall>r \<in> set (t_receipts s). rc_id r \<notin> range ids" "keyed rc_id (t_receipts s)"
    and at: "rfc_parse (lib A) at = Some t"
    and older: "\<forall>r \<in> set (t_receipts s). rc_holder r = h \<longrightarrow> (\<exists>x. rfc_parse (lib A) (rc_issued_at r) = Some x \<and> x < t)"
  shows "latest_receipts_for_erased_scope (lib A) h (erase_scope req) digests (decided A h req targets at made s) =
    Inr (map (\<lambda>m. (mint_id m, mint_raw m)) (map snd made))"
proof -
  let ?ms = "map snd made" and ?s = "decided A h req targets at made s" and ?scope = "erase_scope req"
  let ?new = "map (receipt_of h ?scope at) ?ms"
  let ?mine = "filter (\<lambda>r. rc_holder r = h) (t_receipts ?s)"
  let ?rows = "concat (map (\<lambda>r. map (Pair r) (receipt_coverage ?s r)) ?mine)"
  let ?at = "\<lambda>r. the (rfc_parse (lib A) (rc_issued_at r))"
  note f = mint_receipts_fields [OF made(1)] and d = decided_receipts(1) [OF made(1) ids(1,2), of h]
    decided_receipts(2) [OF made(1) ids(1,2)]
  have mine: "?mine = filter (\<lambda>r. rc_holder r = h) (t_receipts s) @ ?new"
    unfolding d(1) by (simp add: receipt_of_def comp_def filter_map)
  have new_at: "rfc_parse (lib A) (rc_issued_at r) = Some t \<and> rc_scope r = ?scope" if "r \<in> set ?new" for r
    using that at by (auto simp: receipt_of_def)
  have parsed: "rfc_parse (lib A) (rc_issued_at r) = Some (?at r)" if "r \<in> set ?mine" for r
    using that older new_at unfolding mine by fastforce
  have range_ids: "rc_id r \<in> range ids" if "r \<in> set ?new" for r
  proof -
    have "rc_id r \<in> set (map mint_id ?ms)" using that by (force simp: receipt_of_def)
    then show ?thesis unfolding f(2) by auto
  qed
  have dist_new: "distinct (map rc_id ?new)" using d(2) by (simp add: receipt_of_def comp_def)
  have "rc_id ` set (t_receipts s) \<inter> rc_id ` set ?new = {}"
  proof (rule Int_emptyI)
    fix x assume "x \<in> rc_id ` set (t_receipts s)" "x \<in> rc_id ` set ?new"
    then show False by (elim imageE) (use ids(2) range_ids in metis)
  qed
  then have "keyed rc_id (t_receipts ?s)"
    unfolding d(1) keyed_def map_append distinct_append set_map [of rc_id] using ids(3) dist_new
    by (simp only: keyed_def)
  then have inj: "inj_on rc_id (set ?mine)"
    unfolding keyed_def distinct_map by (elim conjE inj_on_subset) simp
  have "fst ` set (concat (map (\<lambda>r. map (Pair r) (g r)) rs)) = set rs" if "\<And>r. g r \<noteq> []"
    for g :: "receipt_row \<Rightarrow> string option list" and rs
    using that by (induction rs) (simp_all add: image_Un image_image image_constant_conv)
  from this [OF coverage_nonempty] have rows: "fst ` set ?rows = set ?mine" .
  have row_mine: "r \<in> set ?mine" if "(r, c) \<in> set ?rows" for r c
    using imageI [OF that, of fst] unfolding rows fst_conv .
  obtain cs where cs: "receipt_candidates (lib A) ?scope digests ?rows [] = Inr cs" "distinct (map (\<lambda>p. rc_id (fst p)) cs)"
    "set cs = {(r, ?at r) |r. \<exists>c. (r, c) \<in> set ?rows \<and> relevant ?scope digests r c}"
  proof -
    have "\<forall>(r, c) \<in> set ?rows. relevant ?scope digests r c \<longrightarrow> rfc_parse (lib A) (rc_issued_at r) = Some (?at r)"
      using parsed row_mine by blast
    from candidates_found [OF this, of "[]"] inj rows that show ?thesis by auto
  qed
  have terms: "map mint_terms ?ms = pinned_terms targets" by (rule f(1))
  have ms_sorted: "sorted_wrt (\<lambda>x y. mint_terms x < mint_terms y) ?ms"
    using pinned_terms_set(2,3) [of targets] terms by (metis sorted_wrt_map strict_sorted_iff)
  have "newest_receipts cs = ?new"
  proof (rule newest_found [OF cs(2), where t = t])
    have "pinned_terms targets \<noteq> []"
      using made(2) pinned_terms_set(1) [of targets] by (metis image_is_empty list.set(1) set_empty)
    then show "?new \<noteq> []" unfolding terms [symmetric] by simp
    show "distinct ?new" using dist_new by (simp only: distinct_map)
    show "(r, t) \<in> set cs" if r: "r \<in> set ?new" for r
    proof -
      have "r \<in> set ?mine" unfolding mine using r by simp
      then have "r \<in> fst ` set ?rows" unfolding rows .
      then obtain p where "r = fst p" "p \<in> set ?rows" by (rule imageE)
      then have "(r, snd p) \<in> set ?rows" by (simp only: prod.collapse)
      then show ?thesis unfolding cs(3) using new_at [OF r] by (auto simp: relevant_def)
    qed
    show "x < t \<or> r \<in> set ?new \<and> x = t" if "(r, x) \<in> set cs" for r x
    proof -
      have "\<exists>c. (r, c) \<in> set ?rows \<and> x = ?at r" using that unfolding cs(3) by blast
      then have "r \<in> set ?mine" "x = ?at r" by (auto dest: row_mine simp only:)
      show ?thesis
      proof (cases "r \<in> set ?new")
        case True
        with new_at [OF True] \<open>x = ?at r\<close> show ?thesis by simp
      next
        case False
        then have "r \<in> set (t_receipts s)" "rc_holder r = h" using \<open>r \<in> set ?mine\<close> unfolding mine by auto
        with older \<open>x = ?at r\<close> show ?thesis by auto
      qed
    qed
    show "inj_on (\<lambda>r. (rc_terms r, rc_id r)) (set ?new)"
      using dist_new by (auto simp: distinct_map inj_on_def)
    show "sorted (map (\<lambda>r. (rc_terms r, rc_id r)) ?new)"
      using ms_sorted unfolding map_map sorted_wrt_map
      by (rule sorted_wrt_mono_rel [rotated]) (auto simp: receipt_of_def less_eq_prod_def)
  qed
  with cs(1) show ?thesis
    by (simp add: latest_receipts_for_erased_scope_def Let_def receipt_of_def comp_def)
qed

section \<open>The bytes\<close>

lemma erase_blob_calm:
  "faults w = [] \<Longrightarrow> erase_blob root h hex w = (Inr (), w\<lparr>disk := dir_remove (snapshot_dir root h hex) (disk w)\<rparr>)"
  by (simp add: erase_blob_def remove_dir_all_def take_fault_def sync_dir_def run_simps)

lemma unlink_calm:
  assumes "faults w = []"
  shows "unlink_erased A h doomed w =
    (Inr (), w\<lparr>disk := fold (\<lambda>hex. dir_remove (snapshot_dir (blob_root (cfg A)) h hex)) doomed (disk w)\<rparr>)"
  using assms unfolding unlink_erased_def
  by (induction doomed arbitrary: w) (simp_all add: returnE_run bindE_run matchE_run erase_blob_calm)

lemma fold_remove:
  "dir_lookup (fold (\<lambda>hex. dir_remove (snapshot_dir root h hex)) doomed d) q =
     (if \<exists>hex \<in> set doomed. q = snapshot_dir root h hex then None else dir_lookup d q)"
  by (induction doomed arbitrary: d) (auto simp: dirs.lookup_remove)

lemma calm_erase_targets: "calm_op (erase_targets A who req targets at ids)"
  unfolding erase_targets_def by (intro calm_bind calm_ops)

end
