(* ===== verification/Gate.thy ===== *)
theory Gate
  imports Erasure_Facts
begin

text \<open>
  The payment gate against a reference definition: when a holder's stored credentials reach, when
  its payment ended, whether a window of its snapshots is still open, and that the gate answers by
  exactly these.  Then what accepting a credential leaves behind.
\<close>

section \<open>The horizon as a reference definition\<close>

text \<open>The instants up to which the stored credentials of a holder reach, and those not revoked.\<close>

definition expiries :: "crates \<Rightarrow> string \<Rightarrow> store \<Rightarrow> instant set" where
  "expiries X h s = {at. \<exists>r \<in> set (t_entitlements s). ent_holder r = h \<and> rfc_parse X (ent_expires_at r) = Some at}"

definition unrevoked :: "crates \<Rightarrow> string \<Rightarrow> string list \<Rightarrow> store \<Rightarrow> instant set" where
  "unrevoked X h revoked s = {at. \<exists>r \<in> set (t_entitlements s). ent_holder r = h \<and> ent_id r \<notin> set revoked \<and>
     rfc_parse X (ent_expires_at r) = Some at}"

text \<open>\<open>p\<close> is a pair of \<open>S\<close> with the latest instant.\<close>

definition latest :: "(instant \<times> string) set \<Rightarrow> (instant \<times> string) option \<Rightarrow> bool" where
  "latest S p \<longleftrightarrow> (case p of None \<Rightarrow> S = {} | Some (t, x) \<Rightarrow> (t, x) \<in> S \<and> (\<forall>(t', _) \<in> S. t' \<le> t))"

lemma latest_later: "latest S p \<Longrightarrow> latest (insert q S) (later q p)"
  by (cases q) (auto simp: latest_def later_def split: option.splits if_splits)

definition read_expiries :: "crates \<Rightarrow> entitlement_row set \<Rightarrow> (instant \<times> string) set" where
  "read_expiries X rows = {(at, ent_expires_at r) |at r. r \<in> rows \<and> rfc_parse X (ent_expires_at r) = Some at}"

lemma read_expiries_insert:
  "read_expiries X (insert r rows) =
     (case rfc_parse X (ent_expires_at r) of None \<Rightarrow> read_expiries X rows
      | Some at \<Rightarrow> insert (at, ent_expires_at r) (read_expiries X rows))"
  by (auto simp: read_expiries_def split: option.splits)

definition credited :: "string list \<Rightarrow> entitlement_row set \<Rightarrow> entitlement_row set" where
  "credited revoked rows = {r \<in> rows. ent_id r \<notin> set revoked}"

lemma credited_insert:
  "credited revoked (insert r rows) =
     (if ent_id r \<in> set revoked then credited revoked rows else insert r (credited revoked rows))"
  by (auto simp: credited_def)

lemma horizon_loop_latest:
  assumes "horizon_loop X revoked rs access any = (access', any')"
    and "latest (read_expiries X (credited revoked rows)) access" "latest (read_expiries X rows) any"
  shows "latest (read_expiries X (credited revoked (rows \<union> set rs))) access' \<and>
    latest (read_expiries X (rows \<union> set rs)) any'"
  using assms
proof (induction rs arbitrary: rows access any)
  case (Cons r rs)
  show ?case
  proof (cases "rfc_parse X (ent_expires_at r)")
    case None
    with Cons.prems Cons.IH [of access any "insert r rows"] show ?thesis
      by (simp add: credited_insert read_expiries_insert)
  next
    case (Some at)
    with Cons.prems Cons.IH [of _ _ "insert r rows"] show ?thesis
      by (auto simp: credited_insert read_expiries_insert latest_later split: if_splits)
  qed
qed simp

lemma latest_Max: "latest S (Some (t, x)) \<Longrightarrow> finite S \<Longrightarrow> t = Max (fst ` S)"
  by (rule Max_eqI [symmetric]) (force simp: latest_def)+

lemma finite_read [simp]: "finite rows \<Longrightarrow> finite (read_expiries X rows)"
proof -
  assume "finite rows"
  moreover have "read_expiries X rows \<subseteq> (\<lambda>r. (the (rfc_parse X (ent_expires_at r)), ent_expires_at r)) ` rows"
    by (force simp: read_expiries_def)
  ultimately show ?thesis by (rule finite_surj)
qed

text \<open>What the loop answers: the largest instant, as a text that reads as that instant.\<close>

lemma entitlement_horizon_spec:
  "case entitlement_horizon X h revoked s of
     None \<Rightarrow> expiries X h s = {}
   | Some hz \<Rightarrow> expiries X h s \<noteq> {} \<and> rfc_parse X (hz_lifecycle hz) = Some (Max (expiries X h s)) \<and>
       (case hz_access hz of None \<Rightarrow> unrevoked X h revoked s = {}
        | Some t \<Rightarrow> unrevoked X h revoked s \<noteq> {} \<and> rfc_parse X t = Some (Max (unrevoked X h revoked s)))"
proof -
  let ?rows = "filter (\<lambda>r. ent_holder r = h) (t_entitlements s)"
  let ?own = "credited revoked (set ?rows)"
  obtain access any where loop: "horizon_loop X revoked ?rows None None = (access, any)" by fastforce
  have "latest (read_expiries X (credited revoked {})) None" "latest (read_expiries X {}) None"
    by (simp_all add: latest_def read_expiries_def credited_def)
  from horizon_loop_latest [OF loop this]
  have l: "latest (read_expiries X ?own) access" "latest (read_expiries X (set ?rows)) any" by simp_all
  have e: "expiries X h s = fst ` read_expiries X (set ?rows)" "unrevoked X h revoked s = fst ` read_expiries X ?own"
    by (force simp: expiries_def unrevoked_def read_expiries_def credited_def image_iff)+
  have max: "fst ` S \<noteq> {} \<and> rfc_parse X x = Some (Max (fst ` S))" if "latest S (Some (t, x))" "S = read_expiries X rows" "finite rows" for S t x rows
  proof -
    from that(1) have "(t, x) \<in> S" by (simp add: latest_def)
    then have "rfc_parse X x = Some t" "S \<noteq> {}" using that(2) by (auto simp: read_expiries_def)
    moreover have "t = Max (fst ` S)" using latest_Max [OF that(1)] that(2,3) by simp
    ultimately show ?thesis by simp
  qed
  have none: "fst ` S = {}" if "latest S None" for S using that by (simp add: latest_def)
  have fin: "finite (set ?rows)" "finite ?own" by (simp_all add: credited_def)
  show ?thesis
  proof (cases any)
    case None
    with l(2) show ?thesis by (simp add: e entitlement_horizon_def loop none)
  next
    case (Some p)
    obtain t x where p: "p = (t, x)" by (cases p)
    with Some l(2) have 2: "fst ` read_expiries X (set ?rows) \<noteq> {} \<and> rfc_parse X x = Some (Max (fst ` read_expiries X (set ?rows)))"
      by (intro max [OF _ refl fin(1)]) simp
    show ?thesis
    proof (cases access)
      case None
      with l(1) 2 Some p show ?thesis by (simp add: e entitlement_horizon_def loop none)
    next
      case (Some q)
      obtain t' x' where q: "q = (t', x')" by (cases q)
      with Some l(1) have "fst ` read_expiries X ?own \<noteq> {} \<and> rfc_parse X x' = Some (Max (fst ` read_expiries X ?own))"
        by (intro max [OF _ refl fin(2)]) simp
      with 2 Some q \<open>any = Some p\<close> p show ?thesis by (simp add: e entitlement_horizon_def loop)
    qed
  qed
qed

section \<open>The gate as a reference definition\<close>

text \<open>When the holder's payment ends or ended: the last stored credential, else what was derived.\<close>

definition lapses_at :: "crates \<Rightarrow> string \<Rightarrow> store \<Rightarrow> instant \<Rightarrow> bool" where
  "lapses_at X h s t \<longleftrightarrow>
     (if expiries X h s \<noteq> {} then t = Max (expiries X h s)
      else \<exists>state. stored_lapse_state h s = Some state \<and> rfc_parse X (ls_lapsed_at state) = Some t)"

definition paid_up :: "crates \<Rightarrow> string \<Rightarrow> string list \<Rightarrow> instant \<Rightarrow> store \<Rightarrow> bool" where
  "paid_up X h revoked now s \<longleftrightarrow> (\<exists>at \<in> unrevoked X h revoked s. now < at)"

definition in_grace :: "crates \<Rightarrow> string \<Rightarrow> instant \<Rightarrow> store \<Rightarrow> operation \<Rightarrow> bool" where
  "in_grace X h now s operation \<longleftrightarrow>
     (\<exists>t row clause ends term. lapses_at X h s t \<and> in_window X h t s row clause ends \<and> now < ends \<and>
        grace_term operation = Some term \<and> term \<in> set (during_grace clause))"

lemma lifecycle_horizon_Some: "lifecycle_horizon X h revoked s = Inr (Some t) \<longleftrightarrow> lapses_at X h s t"
  using entitlement_horizon_spec [where X = X and h = h and revoked = revoked and s = s]
  by (auto simp: lifecycle_horizon_def lapses_at_def split: option.splits)

lemma lifecycle_horizon_None:
  "lifecycle_horizon X h revoked s = Inr None \<longleftrightarrow> expiries X h s = {} \<and> stored_lapse_state h s = None"
  using entitlement_horizon_spec [where X = X and h = h and revoked = revoked and s = s]
  by (auto simp: lifecycle_horizon_def split: option.splits)

lemma finite_unrevoked [simp]: "finite (unrevoked X h revoked s)"
proof -
  have "unrevoked X h revoked s \<subseteq> (\<lambda>r. the (rfc_parse X (ent_expires_at r))) ` set (t_entitlements s)"
    by (force simp: unrevoked_def)
  then show ?thesis by (rule finite_surj [rotated]) simp
qed

lemma finite_expiries [simp]: "finite (expiries X h s)"
  using finite_unrevoked [of X h "[]" s] by (simp add: unrevoked_def expiries_def)

lemma paid_up_Max:
  "unrevoked X h revoked s \<noteq> {} \<Longrightarrow> paid_up X h revoked now s \<longleftrightarrow> now < Max (unrevoked X h revoked s)"
  unfolding paid_up_def by (simp add: Max_gr_iff)

lemma stored_access_entitled:
  assumes "stored_access X h revoked now s = Inr acc"
  shows "acc = Entitled \<longleftrightarrow> paid_up X h revoked now s"
    and "\<not> paid_up X h revoked now s \<Longrightarrow> (case lifecycle_horizon X h revoked s of
      Inl _ \<Rightarrow> False
    | Inr None \<Rightarrow> acc = (if has_entitlement_record h s then Lapsed else Unpaid)
    | Inr (Some t) \<Rightarrow> grace_from X h t now s = Inr acc)"
proof -
  let ?held = "Option.bind (entitlement_horizon X h revoked s) hz_access"
  obtain registered where reg: "(case ?held of None \<Rightarrow> Inr False
      | Some t \<Rightarrow> and_then (ok_or (internal ''stored entitlement expiry'') (rfc_parse X t)) (\<lambda>at. Inr (now < at))) = Inr registered"
    and rest: "(if registered then Inr Entitled
         else and_then (lifecycle_horizon X h revoked s) (\<lambda>horizon.
           case horizon of
             None \<Rightarrow> Inr (if has_entitlement_record h s then Lapsed else Unpaid)
           | Some lapsed_at \<Rightarrow> grace_from X h lapsed_at now s)) = Inr acc"
    using assms unfolding stored_access_def by auto
  have "registered \<longleftrightarrow> paid_up X h revoked now s"
  proof (cases ?held)
    case None
    then have "unrevoked X h revoked s = {}"
      using entitlement_horizon_spec [where X = X and h = h and revoked = revoked and s = s]
      by (auto simp: bind_eq_None_conv unrevoked_def expiries_def split: option.splits)
    with None reg show ?thesis by (simp add: paid_up_def)
  next
    case (Some t)
    then have "unrevoked X h revoked s \<noteq> {} \<and> rfc_parse X t = Some (Max (unrevoked X h revoked s))"
      using entitlement_horizon_spec [where X = X and h = h and revoked = revoked and s = s] by (auto simp: bind_eq_Some_conv)
    with Some reg show ?thesis by (auto simp: paid_up_Max)
  qed
  moreover have "acc \<noteq> Entitled" if "\<not> registered"
    using rest that by (auto simp: grace_from_def Let_def split: option.splits if_splits)
  ultimately show "acc = Entitled \<longleftrightarrow> paid_up X h revoked now s"
    and "\<not> paid_up X h revoked now s \<Longrightarrow> (case lifecycle_horizon X h revoked s of
      Inl _ \<Rightarrow> False
    | Inr None \<Rightarrow> acc = (if has_entitlement_record h s then Lapsed else Unpaid)
    | Inr (Some t) \<Rightarrow> grace_from X h t now s = Inr acc)"
    using rest by (auto split: if_splits option.splits)
qed

lemma grace_from_permits:
  assumes "grace_from X h t now s = Inr acc"
  shows "permits acc operation \<longleftrightarrow> (\<exists>row clause ends term. in_window X h t s row clause ends \<and> now < ends \<and>
    grace_term operation = Some term \<and> term \<in> set (during_grace clause))"
proof -
  obtain ws where ws: "holder_windows X h t s = Inr ws"
    and acc: "acc = (let open_windows = filter (\<lambda>(_, _, ends). \<not> now \<ge> ends) ws in
       if open_windows = [] then Lapsed
       else Grace (concat (map (\<lambda>(_, clause, _). during_grace clause) open_windows)))"
    using assms by (auto simp: grace_from_def Let_def)
  note in_ws = holder_windows_Inr [OF ws]
  show ?thesis
  proof (cases "\<exists>(row, clause, ends) \<in> set ws. now < ends")
    case True
    then have "filter (\<lambda>(_, _, ends). \<not> now \<ge> ends) ws \<noteq> []" by (force simp: filter_empty_conv not_le)
    then have a: "acc = Grace (concat (map (\<lambda>(_, clause, _). during_grace clause) (filter (\<lambda>(_, _, ends). \<not> now \<ge> ends) ws)))"
      using acc by simp
    show ?thesis
      unfolding a using in_ws
      by (cases operation) (auto simp: permits_def refused_holder_wide_def, (force simp: not_le)+)
  next
    case False
    then have "filter (\<lambda>(_, _, ends). \<not> now \<ge> ends) ws = []" by (auto simp: filter_empty_conv)
    then have "acc = Lapsed" using acc by simp
    with False in_ws show ?thesis by (auto simp: permits_def)
  qed
qed

lemma stored_access_permits:
  assumes "stored_access X h revoked now s = Inr acc"
  shows "permits acc operation \<longleftrightarrow> paid_up X h revoked now s \<or> in_grace X h now s operation"
proof (cases "paid_up X h revoked now s")
  case True
  with stored_access_entitled(1) [OF assms] show ?thesis by (simp add: permits_def)
next
  case False
  note acc = stored_access_entitled(2) [OF assms False]
  show ?thesis
  proof (cases "lifecycle_horizon X h revoked s")
    case (Inr horizon)
    show ?thesis
    proof (cases horizon)
      case None
      with Inr acc have "\<not> permits acc operation" by (auto simp: permits_def)
      moreover have "\<not> lapses_at X h s t" for t using Inr None by (simp flip: lifecycle_horizon_Some [of X h revoked])
      ultimately show ?thesis using False by (simp add: in_grace_def)
    next
      case (Some t)
      with Inr acc have "grace_from X h t now s = Inr acc" by simp
      from grace_from_permits [OF this, of operation] False Inr Some show ?thesis
        by (auto simp: in_grace_def simp flip: lifecycle_horizon_Some [of X h revoked])
    qed
  qed (use acc in simp)
qed

lemma windows_error: "windows X t s rows = Inl e \<Longrightarrow> \<exists>d. e = internal d"
  by (induction rows) (auto simp: and_then_Inl_iff end_of_payment_def split: option.splits prod.splits)

lemma not_payment:
  assumes "stored_access X h revoked now s = Inl e"
  shows "\<exists>d. e = internal d"
proof -
  have "\<exists>d. e = internal d" if "grace_from X h t now s = Inl e" for t
    using that by (auto simp: grace_from_def and_then_Inl_iff holder_windows_def Let_def dest: windows_error)
  then show ?thesis
    using assms
    by (auto simp: stored_access_def lifecycle_horizon_def and_then_Inl_iff Let_def split: option.splits if_splits)
qed

text \<open>The gate without a credential on the request, under every schedule of faults.\<close>

lemma require_without_credential:
  assumes "requires_entitlement (cfg A)" "\<not> always_available operation" "hs entitlement_header = None"
    and "require A who hs operation now w = (r, w')"
  shows "same_data w w'"
    and "r = Inr () \<Longrightarrow> paid_up (lib A) (h_handle who) (revoked_ids w) now (store w) \<or>
      in_grace (lib A) (h_handle who) now (store w) operation"
    and "r = Inl (payment_required A) \<Longrightarrow> \<not> paid_up (lib A) (h_handle who) (revoked_ids w) now (store w) \<and>
      \<not> in_grace (lib A) (h_handle who) now (store w) operation"
proof -
  let ?ask = "stored_access (lib A) (h_handle who) (revoked_ids w) now"
  obtain q w1 where q: "query ?ask w = (q, w1)" by (cases "query ?ask w")
  have run: "require A who hs operation now w = (case q of Inl e \<Rightarrow> (Inl e, w1)
      | Inr acc \<Rightarrow> if permits acc operation then (Inr (), w1) else (Inl (payment_required A), w1))"
    using assms(1-3)
    by (simp add: require_def evaluate_def presented_def bindE_run getE_run liftE_run q returnE_run throwE_run split: sum.splits)
  have same: "same_data w w1" "q = ?ask (store w) \<or> q = Inl (internal ''sqlite'')" using query_same [OF q] by simp_all
  show "same_data w w'" using run same assms(4) by (auto split: sum.splits if_splits)
  have refused: "q \<noteq> Inl (payment_required A)"
  proof
    assume "q = Inl (payment_required A)"
    with same(2) have "?ask (store w) = Inl (payment_required A)" by (auto simp: payment_required_def internal_def)
    from not_payment [OF this] show False by (simp add: payment_required_def internal_def)
  qed
  have ok: "r = Inr () \<longleftrightarrow> (\<exists>acc. q = Inr acc \<and> permits acc operation)"
    "r = Inl (payment_required A) \<longleftrightarrow> (\<exists>acc. q = Inr acc \<and> \<not> permits acc operation)"
    using run assms(4) refused by (auto split: sum.splits if_splits)
  have asked: "?ask (store w) = Inr acc" if "q = Inr acc" for acc using same(2) that by auto
  show "r = Inr () \<Longrightarrow> paid_up (lib A) (h_handle who) (revoked_ids w) now (store w) \<or>
      in_grace (lib A) (h_handle who) now (store w) operation"
    using ok(1) stored_access_permits [OF asked] by blast
  show "r = Inl (payment_required A) \<Longrightarrow> \<not> paid_up (lib A) (h_handle who) (revoked_ids w) now (store w) \<and>
      \<not> in_grace (lib A) (h_handle who) now (store w) operation"
    using ok(2) stored_access_permits [OF asked] by blast
qed

section \<open>A credential that was accepted\<close>

lemma register_entitlement_Inr:
  assumes "register_entitlement X h v at w = (Inr (), w')"
  shows "\<exists>a b. rfc_format X (ve_not_before v) = Some a \<and> rfc_format X (ve_expires_at v) = Some b \<and>
    store w' = snd (forget_lapse_state h (insert_entitlement h v a b at (store w)))"
  using assms unfolding register_entitlement_def
  by (auto elim!: bindE_Inr_E simp: liftE_run returnE_run dest!: statement_Inr execute_same)

lemma inserted_entitlement:
  assumes "rfc_roundtrip X" "rfc_format X (ve_expires_at v) = Some b" "ve_id v \<notin> set revoked"
  shows "ve_expires_at v \<in> unrevoked X h revoked (snd (forget_lapse_state h (insert_entitlement h v a b at s)))"
  using assms
  by (auto simp: unrevoked_def forget_lapse_state_def insert_entitlement_def set_insert_or_replace rfc_roundtripD)

text \<open>From then on the holder is paid up without showing it again.\<close>

lemma registered_paid_up:
  assumes "register_entitlement X h v at w = (Inr (), w')" "rfc_roundtrip X" "ve_id v \<notin> set revoked" "now < ve_expires_at v"
  shows "paid_up X h revoked now (store w')"
proof -
  from register_entitlement_Inr [OF assms(1)] obtain a b where
    "rfc_format X (ve_expires_at v) = Some b"
    "store w' = snd (forget_lapse_state h (insert_entitlement h v a b at (store w)))" by blast
  from inserted_entitlement [OF assms(2) this(1) assms(3), of h a at "store w"] this(2) assms(4)
  show ?thesis by (auto simp: paid_up_def)
qed

lemma require_with_credential:
  assumes "requires_entitlement (cfg A)" "\<not> always_available operation" "hs entitlement_header = Some value"
    and "require A who hs operation now w = (r, w')"
  shows "r = Inr () \<Longrightarrow> \<exists>raw v at. b64_decode (lib A) (trim value) = Some raw \<and>
      verify_entitlement A raw (h_reference who) (revoked_ids w) now = Inr v \<and>
      register_entitlement (lib A) (h_handle who) v at w = (Inr (), w')"
    and "presented A hs (h_reference who) (revoked_ids w) now = Inl e \<Longrightarrow> r = Inl (refused A) \<and> w' = w"
proof -
  have run: "require A who hs operation now w = (case presented A hs (h_reference who) (revoked_ids w) now of
      Inl e \<Rightarrow> (Inl e, w)
    | Inr shown \<Rightarrow> bindE (case shown of
            Some v \<Rightarrow> bindE (liftE (stamp (lib A) now)) (\<lambda>at.
              bindE (register_entitlement (lib A) (h_handle who) v at) (\<lambda>_. returnE Entitled))
          | None \<Rightarrow> query (stored_access (lib A) (h_handle who) (revoked_ids w) now))
        (\<lambda>acc. if permits acc operation then returnE () else throwE (payment_required A)) w)"
    using assms(1,2) by (simp add: require_def evaluate_def bindE_run getE_run liftE_run split: sum.splits)
  show "presented A hs (h_reference who) (revoked_ids w) now = Inl e \<Longrightarrow> r = Inl (refused A) \<and> w' = w"
    using run assms(4) presented_Inl [of A hs "h_reference who" "revoked_ids w" now e] by simp
  show "r = Inr () \<Longrightarrow> \<exists>raw v at. b64_decode (lib A) (trim value) = Some raw \<and>
      verify_entitlement A raw (h_reference who) (revoked_ids w) now = Inr v \<and>
      register_entitlement (lib A) (h_handle who) v at w = (Inr (), w')"
  proof -
    assume "r = Inr ()"
    with run assms(4) obtain shown where p: "presented A hs (h_reference who) (revoked_ids w) now = Inr shown"
      by (auto split: sum.splits)
    with assms(1,3) obtain raw v where v: "shown = Some v" "b64_decode (lib A) (trim value) = Some raw"
      "verify_entitlement A raw (h_reference who) (revoked_ids w) now = Inr v"
      by (auto simp: presented_def)
    have "bindE (bindE (liftE (stamp (lib A) now)) (\<lambda>at.
        bindE (register_entitlement (lib A) (h_handle who) v at) (\<lambda>_. returnE Entitled)))
      (\<lambda>acc. if permits acc operation then returnE () else throwE (payment_required A)) w = (Inr (), w')"
      using run assms(4) p v(1) \<open>r = Inr ()\<close> by simp
    then obtain at where "register_entitlement (lib A) (h_handle who) v at w = (Inr (), w')"
      by (auto elim!: bindE_Inr_E simp: liftE_run returnE_run throwE_run permits_def)
    with v show ?thesis by blast
  qed
qed

end
