(* ===== verification/Aging.thy ===== *)
theory Aging
  imports Gate
begin

text \<open>
  What the sweep may do to a holder whose payment ended: its credential records age out without
  moving the instant the payment ended at, and a snapshot expires only after its own window.
\<close>

section \<open>Aging out credential records\<close>

text \<open>Every stored credential's expiry is a timestamp the operator formatted.\<close>

definition rows_stamped :: "crates \<Rightarrow> store \<Rightarrow> bool" where
  "rows_stamped X s \<longleftrightarrow> (\<forall>r \<in> set (t_entitlements s). \<exists>t. rfc_format X t = Some (ent_expires_at r))"

text \<open>The holder's payment ended at \<open>t\<close>, and the derived row, where there is one, says so too.\<close>

definition clocked :: "crates \<Rightarrow> string \<Rightarrow> instant \<Rightarrow> store \<Rightarrow> bool" where
  "clocked X h t s \<longleftrightarrow> rows_stamped X s \<and> lapses_at X h s t \<and>
     (\<forall>state. stored_lapse_state h s = Some state \<longrightarrow> rfc_parse X (ls_lapsed_at state) = Some t)"

lemma clocked_kept:
  assumes "clocked X h t s" "set (t_entitlements s') \<subseteq> set (t_entitlements s)"
    and "expiries X h s' = expiries X h s \<or> (expiries X h s' = {} \<and> stored_lapse_state h s \<noteq> None)"
    and "stored_lapse_state h s' = stored_lapse_state h s"
  shows "clocked X h t s'"
  using assms unfolding clocked_def lapses_at_def rows_stamped_def by (auto split: if_splits)

lemma expiries_subset:
  "(\<And>r. r \<in> set (t_entitlements s) \<Longrightarrow> ent_holder r = h \<Longrightarrow> r \<in> set (t_entitlements s')) \<Longrightarrow>
   set (t_entitlements s') \<subseteq> set (t_entitlements s) \<Longrightarrow> expiries X h s' = expiries X h s"
  unfolding expiries_def by blast

text \<open>The derived state is the clock's instant, once there is a window to carry.\<close>

lemma stored_record_lapse: "stored_lapse_state h (record_lapse_state h' state s) =
    (if h = h' then Some state else stored_lapse_state h s)"
proof (cases "h = h'")
  case True
  then show ?thesis
    unfolding stored_lapse_state_def record_lapse_state_def
    by (simp add: find_insert_or_replace row_lapse_state_def)
next
  case False
  have "List.find (\<lambda>r. lp_holder r = h) (delete_where (\<lambda>r. lp_holder r = h') t) = List.find (\<lambda>r. lp_holder r = h) t" for t :: "lapse_row list"
    using False by (induction t) (auto simp: delete_where_def)
  moreover have "List.find P (xs @ [x]) = List.find P xs" if "\<not> P x" for P :: "lapse_row \<Rightarrow> bool" and xs x
    using that by (induction xs) auto
  ultimately show ?thesis
    using False by (simp add: stored_lapse_state_def record_lapse_state_def insert_or_replace_def)
qed

lemma expiries_record_lapse [simp]: "expiries X h (record_lapse_state h' state s) = expiries X h s"
  by (simp add: expiries_def record_lapse_state_def)

lemma clocked_recorded:
  assumes "clocked X h t s" "h' = h \<Longrightarrow> rfc_parse X (ls_lapsed_at state) = Some t"
  shows "clocked X h t (record_lapse_state h' state s)"
proof -
  have "rows_stamped X (record_lapse_state h' state s) = rows_stamped X s"
    by (simp add: rows_stamped_def record_lapse_state_def)
  with assms show ?thesis by (auto simp: clocked_def lapses_at_def stored_record_lapse split: if_splits)
qed

lemma lapse_state_at_instant:
  assumes "lapse_state_at X h t s = Inr (Some state)" "rfc_roundtrip X"
  shows "rfc_parse X (ls_lapsed_at state) = Some t"
  using assms by (auto simp: lapse_state_at_def rfc_roundtripD split: option.splits)

lemma latest_window_None: "latest_window ws held = None \<longleftrightarrow> ws = [] \<and> held = None"
  by (induction ws held rule: latest_window.induct) (auto split: option.splits)

lemma derive_lapse_state_Inr:
  assumes "derive_lapse_state X h revoked s = Inr found" "lapses_at X h s t"
  shows "lapse_state_at X h t s = Inr found"
  using assms lifecycle_horizon_Some [of X h revoked s t] by (auto simp: derive_lapse_state_def)

lemma derive_with_window:
  assumes "derive_lapse_state X h revoked s = Inr found" "lapses_at X h s t" "in_window X h t s row clause ends"
  shows "found \<noteq> None"
proof
  assume "found = None"
  with derive_lapse_state_Inr [OF assms(1,2)] obtain ws where ws: "holder_windows X h t s = Inr ws"
    and "latest_window ws None = None"
    by (cases "holder_windows X h t s") (auto simp: lapse_state_at_def split: option.splits)
  then have "holder_windows X h t s = Inr []" by (simp add: latest_window_None)
  from holder_windows_Inr [OF this, of row clause ends] assms(3) show False by simp
qed

lemma carry_over_spec:
  assumes "carry_over X revoked h w = (r, w')"
  shows "(\<exists>state. derive_lapse_state X h revoked (store w) = Inr (Some state) \<and>
       store w' = record_lapse_state h state (store w)) \<or>
     (store w' = store w \<and> (r = Inr True \<longrightarrow> derive_lapse_state X h revoked (store w) = Inr None))"
proof -
  let ?derive = "derive_lapse_state X h revoked"
  obtain q w1 where q: "query ?derive w = (q, w1)" by (cases "query ?derive w")
  note same = query_same [OF q]
  show ?thesis
  proof (cases q)
    case (Inl e)
    with assms q same show ?thesis by (auto simp: carry_over_def matchE_run returnE_run same_data_def)
  next
    case (Inr derived)
    then have d: "?derive (store w) = Inr derived" using same by auto
    show ?thesis
    proof (cases derived)
      case None
      with Inr assms q same d show ?thesis by (auto simp: carry_over_def matchE_run returnE_run same_data_def)
    next
      case (Some state)
      obtain u w2 where u: "statement (record_lapse_state h state) w1 = (u, w2)"
        by (cases "statement (record_lapse_state h state) w1")
      have "(u = Inr () \<and> store w2 = record_lapse_state h state (store w1)) \<or> store w2 = store w1 \<and> u \<noteq> Inr ()"
        using execute_same [OF u [unfolded statement_def]] by (auto simp: same_data_def)
      with Inr Some assms q u same d show ?thesis
        by (auto simp: carry_over_def matchE_run returnE_run same_data_def split: sum.splits)
    qed
  qed
qed

text \<open>A holder that loses every record, and one that keeps the newest.\<close>

lemma count_zero: "count_where P xs = 0 \<longleftrightarrow> (\<forall>x \<in> set xs. \<not> P x)"
  by (auto simp: count_where_def filter_empty_conv)

lemma sweep_entitlements_other:
  "h' \<noteq> h \<Longrightarrow> expiries X h (snd (sweep_entitlements X h' older s)) = expiries X h s"
  by (rule expiries_subset) (auto simp: sweep_entitlements_def Let_def)

lemma julianday_stamped: "julianday_monotone X \<Longrightarrow> rfc_format X t = Some x \<Longrightarrow> \<exists>j. julianday X x = Some j"
  unfolding julianday_monotone_def by blast

lemma sweep_entitlements_own:
  assumes "holder_losing_entitlements X h older s" "rows_stamped X s" "julianday_monotone X"
  shows "expiries X h (snd (sweep_entitlements X h older s)) \<in> {{}, expiries X h s}"
proof (cases "julianday X older")
  case None
  then have "expiries X h (snd (sweep_entitlements X h older s)) = expiries X h s"
    by (intro expiries_subset) (auto simp: sweep_entitlements_def jd_less_def Let_def split: option.splits)
  then show ?thesis by simp
next
  case (Some j)
  have "jd_less X (ent_expires_at r) older" if "r \<in> set (t_entitlements s)" "ent_holder r = h" for r
  proof -
    from that(1) assms(2,3) obtain i where "julianday X (ent_expires_at r) = Some i"
      unfolding rows_stamped_def by (meson julianday_stamped)
    moreover have "\<not> jd_le X older (ent_expires_at r)"
      using assms(1) that by (auto simp: holder_losing_entitlements_def count_zero)
    ultimately show ?thesis using Some by (auto simp: jd_le_def jd_less_def)
  qed
  then show ?thesis by (auto simp: expiries_def sweep_entitlements_def Let_def)
qed

lemma max_julianday_row:
  assumes "max_julianday X h s = Some m"
  shows "\<exists>r \<in> set (t_entitlements s). ent_holder r = h \<and> julianday X (ent_expires_at r) = Some m"
proof -
  obtain j js where l: "List.map_filter (\<lambda>r. julianday X (ent_expires_at r))
      (filter (\<lambda>r. ent_holder r = h) (t_entitlements s)) = j # js" and m: "m = fold max js j"
    using assms by (auto simp: max_julianday_def split: list.splits)
  have "fold max js j = Max (set (j # js))" by (rule Max.set_eq_fold [symmetric])
  then have "m \<in> set (j # js)" unfolding m using Max_in [of "set (j # js)"] by simp
  then show ?thesis unfolding l [symmetric] by (auto simp: map_filter_def)
qed

lemma superseded_kept:
  assumes "rows_stamped X s" "julianday_monotone X" "rfc_roundtrip X"
    and "s' = snd (sweep_superseded_entitlements X older s)"
  shows "expiries X h s \<noteq> {} \<longrightarrow> expiries X h s' \<noteq> {} \<and> Max (expiries X h s') = Max (expiries X h s)"
    and "expiries X h s' \<subseteq> expiries X h s"
proof -
  have sub: "set (t_entitlements s') \<subseteq> set (t_entitlements s)"
    by (auto simp: assms(4) sweep_superseded_entitlements_def Let_def)
  then show s: "expiries X h s' \<subseteq> expiries X h s" by (auto simp: expiries_def)
  have "Max (expiries X h s) \<in> expiries X h s'" if "expiries X h s \<noteq> {}"
  proof -
    from Max_in [OF finite_expiries that] obtain r where r: "r \<in> set (t_entitlements s)" "ent_holder r = h"
      "rfc_parse X (ent_expires_at r) = Some (Max (expiries X h s))" by (auto simp: expiries_def)
    have "r \<in> set (t_entitlements s')"
    proof (rule ccontr)
      assume "r \<notin> set (t_entitlements s')"
      with r(1,2) obtain m f where old: "jd_less X (ent_expires_at r) older" "max_julianday X h s = Some m"
        "julianday X older = Some f" "f \<le> m"
        by (auto simp: assms(4) sweep_superseded_entitlements_def Let_def split: option.splits)
      from max_julianday_row [OF old(2)] obtain q where q: "q \<in> set (t_entitlements s)" "ent_holder q = h"
        "julianday X (ent_expires_at q) = Some m" by blast
      from r(1) q(1) assms(1) obtain a b where f: "rfc_format X a = Some (ent_expires_at r)" "rfc_format X b = Some (ent_expires_at q)"
        unfolding rows_stamped_def by blast
      have "jd_less X (ent_expires_at r) (ent_expires_at q)"
        using old q(3) by (auto simp: jd_less_def split: option.splits)
      from jd_less_formatted [OF assms(2) f this] have "a < b" .
      moreover have "b \<in> expiries X h s" using q f(2) assms(3) by (auto simp: expiries_def rfc_roundtripD)
      then have "b \<le> Max (expiries X h s)" by simp
      moreover have "a = Max (expiries X h s)" using r(3) f(1) assms(3) by (simp add: rfc_roundtripD)
      ultimately show False by simp
    qed
    with r show ?thesis by (auto simp: expiries_def)
  qed
  then show "expiries X h s \<noteq> {} \<longrightarrow> expiries X h s' \<noteq> {} \<and> Max (expiries X h s') = Max (expiries X h s)"
    using s finite_subset [OF s finite_expiries] by (auto intro!: antisym [OF Max_mono Max_ge])
qed

text \<open>The whole step, for one holder that has a window at its clock.\<close>

definition ticking :: "crates \<Rightarrow> string \<Rightarrow> instant \<Rightarrow> snapshot_row \<Rightarrow> end_of_payment \<Rightarrow> instant \<Rightarrow> store \<Rightarrow> bool" where
  "ticking X h t row clause ends s \<longleftrightarrow> clocked X h t s \<and> in_window X h t s row clause ends"

lemma ticking_window:
  "t_snapshots s' = t_snapshots s \<Longrightarrow> t_terms s' = t_terms s \<Longrightarrow>
     in_window X h t s' row clause ends = in_window X h t s row clause ends"
  by (simp add: in_window_def end_of_payment_def terms_document_def)

lemma ticking_superseded:
  assumes "ticking X h t row clause ends s" "julianday_monotone X" "rfc_roundtrip X"
    and "s' = snd (sweep_superseded_entitlements X older s)"
  shows "ticking X h t row clause ends s'"
proof -
  have st: "rows_stamped X s" using assms(1) by (simp add: ticking_def clocked_def)
  note k = superseded_kept [OF st assms(2,3,4), of h]
  have same: "stored_lapse_state h s' = stored_lapse_state h s" "t_snapshots s' = t_snapshots s" "t_terms s' = t_terms s"
    by (simp_all add: assms(4) sweep_superseded_entitlements_def stored_lapse_state_def Let_def)
  have sub: "set (t_entitlements s') \<subseteq> set (t_entitlements s)"
    by (auto simp: assms(4) sweep_superseded_entitlements_def Let_def)
  have "clocked X h t s'"
    using assms(1) k sub same(1)
    unfolding ticking_def clocked_def lapses_at_def rows_stamped_def by (auto split: if_splits)
  with assms(1) show ?thesis by (simp add: ticking_def ticking_window [OF same(2,3)])
qed

lemma ticking_carried:
  assumes "ticking X h t row clause ends s" "rfc_roundtrip X"
    and "derive_lapse_state X h' revoked s = Inr (Some state)"
  shows "ticking X h t row clause ends (record_lapse_state h' state s)"
proof -
  have l: "lapses_at X h s t" using assms(1) by (simp add: ticking_def clocked_def)
  have "h' = h \<Longrightarrow> rfc_parse X (ls_lapsed_at state) = Some t"
    using derive_lapse_state_Inr [OF _ l, of revoked "Some state"] assms(2,3) by (auto dest: lapse_state_at_instant)
  from clocked_recorded [OF _ this, where s = s and h = h] have "clocked X h t (record_lapse_state h' state s)"
    using assms(1) by (simp add: ticking_def)
  moreover have "t_snapshots (record_lapse_state h' state s) = t_snapshots s" "t_terms (record_lapse_state h' state s) = t_terms s"
    by (simp_all add: record_lapse_state_def)
  ultimately show ?thesis using assms(1) by (simp add: ticking_def ticking_window [of "record_lapse_state h' state s" s])
qed

lemma ticking_swept:
  assumes "ticking X h t row clause ends s" "julianday_monotone X" "holder_losing_entitlements X h' older s"
    and "h' = h \<Longrightarrow> stored_lapse_state h s \<noteq> None"
  shows "ticking X h t row clause ends (snd (sweep_entitlements X h' older s))"
proof -
  let ?s = "snd (sweep_entitlements X h' older s)"
  have same: "stored_lapse_state h ?s = stored_lapse_state h s" "t_snapshots ?s = t_snapshots s" "t_terms ?s = t_terms s"
    by (simp_all add: sweep_entitlements_def stored_lapse_state_def Let_def)
  have e: "expiries X h ?s = expiries X h s \<or> (expiries X h ?s = {} \<and> stored_lapse_state h s \<noteq> None)"
  proof (cases "h' = h")
    case True
    with sweep_entitlements_own [of X h older s] assms show ?thesis by (auto simp: ticking_def clocked_def)
  qed (simp add: sweep_entitlements_other)
  have sub: "set (t_entitlements ?s) \<subseteq> set (t_entitlements s)" by (auto simp: sweep_entitlements_def Let_def)
  have "clocked X h t s" using assms(1) by (simp add: ticking_def)
  from clocked_kept [OF this sub e same(1)] assms(1) show ?thesis by (simp add: ticking_def ticking_window [OF same(2,3)])
qed

lemma record_lapse_tables: "t_entitlements (record_lapse_state h state s) = t_entitlements s"
  by (simp add: record_lapse_state_def)

lemma drop_records_ticking:
  assumes "julianday_monotone X" "rfc_roundtrip X"
  shows "keeps (\<lambda>w. ticking X h t row clause ends (store w)) (drop_records X revoked older h' n)"
  unfolding keeps_def
proof (intro allI impI)
  fix w :: world assume I: "ticking X h t row clause ends (store w)"
  obtain q w1 where q: "select (holder_losing_entitlements X h' older) w = (q, w1)"
    by (cases "select (holder_losing_entitlements X h' older) w")
  have 1: "store w1 = store w" "q = Inr True \<Longrightarrow> holder_losing_entitlements X h' older (store w)"
    using select_same [OF q] by (auto simp: same_data_def)
  obtain c w2 where c: "carry_over X revoked h' w1 = (c, w2)" by (cases "carry_over X revoked h' w1")
  have 2: "ticking X h t row clause ends (store w2)"
    and s2: "c = Inr True \<Longrightarrow> h' = h \<Longrightarrow> stored_lapse_state h (store w2) \<noteq> None"
    and l2: "q = Inr True \<Longrightarrow> holder_losing_entitlements X h' older (store w2)"
  proof -
    consider state where "derive_lapse_state X h' revoked (store w) = Inr (Some state)"
        "store w2 = record_lapse_state h' state (store w)"
      | "store w2 = store w" "c = Inr True \<longrightarrow> derive_lapse_state X h' revoked (store w) = Inr None"
      using carry_over_spec [OF c] 1(1) by auto
    then have "ticking X h t row clause ends (store w2) \<and> (c = Inr True \<longrightarrow> h' = h \<longrightarrow> stored_lapse_state h (store w2) \<noteq> None) \<and>
        t_entitlements (store w2) = t_entitlements (store w)"
    proof cases
      case 1
      then show ?thesis
        using ticking_carried [OF I assms(2) 1(1)] by (simp add: record_lapse_tables stored_record_lapse)
    next
      case 2
      have "derive_lapse_state X h revoked (store w) \<noteq> Inr None"
        using derive_with_window I unfolding ticking_def clocked_def by blast
      with 2 I show ?thesis by auto
    qed
    then show "ticking X h t row clause ends (store w2)"
      "c = Inr True \<Longrightarrow> h' = h \<Longrightarrow> stored_lapse_state h (store w2) \<noteq> None"
      "q = Inr True \<Longrightarrow> holder_losing_entitlements X h' older (store w2)"
      using 1(2) by (auto simp: holder_losing_entitlements_def)
  qed
  obtain d w3 where d: "execute (sweep_entitlements X h' older) w2 = (d, w3)"
    by (cases "execute (sweep_entitlements X h' older) w2")
  have 3: "ticking X h t row clause ends (store w3)" if "q = Inr True" "c = Inr True"
    using execute_same [OF d] 2 ticking_swept [OF 2 assms(1) l2 s2] that by (auto simp: same_data_def)
  have run: "drop_records X revoked older h' n w =
      (case q of Inl _ \<Rightarrow> (Inr n, w1) | Inr losing \<Rightarrow> if \<not> losing then (Inr n, w1) else
        (case c of Inl e \<Rightarrow> (Inl e, w2) | Inr derived \<Rightarrow> if \<not> derived then (Inr n, w2)
          else (case d of Inl _ \<Rightarrow> (Inr n, w3) | Inr k \<Rightarrow> (Inr (n + k), w3))))"
    by (simp add: drop_records_def matchE_run bindE_run q c counted_def d returnE_run split: sum.split)
  show "ticking X h t row clause ends (store (snd (drop_records X revoked older h' n w)))"
    unfolding run using I 1(1) 2 3 by (auto split: sum.splits)
qed

lemma store_data: "data_pred (\<lambda>w. I (store w))"
  by (auto simp: data_pred_def same_data_def)

lemma sweep_records_ticking:
  assumes "julianday_monotone X" "rfc_roundtrip X"
  shows "keeps (\<lambda>w. ticking X h t row clause ends (store w)) (sweep_records X revoked older)"
proof -
  let ?I = "\<lambda>w. ticking X h t row clause ends (store w)"
  have "keeps ?I (execute (sweep_superseded_entitlements X older))"
    by (rule keeps_execute [OF store_data]) (erule ticking_superseded [OF _ assms], assumption)
  then show ?thesis
    unfolding sweep_records_def
    by (intro keeps_bind framed_or_else keeps_select [OF store_data] keeps_fold drop_records_ticking [OF assms] framed_counted)
qed

section \<open>What a sweep expires\<close>

text \<open>The rows past their window with nothing to keep them, as the sweep's first step finds them.\<close>

definition overdue :: "crates \<Rightarrow> instant \<Rightarrow> store \<Rightarrow> snapshot_row \<Rightarrow> bool" where
  "overdue X now s row \<longleftrightarrow>
     (\<exists>t clause ends. lapses_at X (snap_holder row) s t \<and> t \<le> now \<and>
        in_window X (snap_holder row) t s row clause ends \<and> ends \<le> now \<and> after_grace clause = ''erase'')"

lemma post_grace_due_Inr:
  assumes "post_grace_due X h revoked now s = Inr due"
  shows "(d, a) \<in> set due \<longleftrightarrow> (\<exists>t row clause ends. lapses_at X h s t \<and> t \<le> now \<and>
    in_window X h t s row clause ends \<and> ends \<le> now \<and> d = snap_digest row \<and> a = after_grace clause)"
proof -
  obtain horizon where l: "lifecycle_horizon X h revoked s = Inr horizon"
    using assms by (auto simp: post_grace_due_def)
  show ?thesis
  proof (cases horizon)
    case None
    then have "\<not> lapses_at X h s t" for t using l by (simp flip: lifecycle_horizon_Some [of X h revoked])
    with None l assms show ?thesis by (simp add: post_grace_due_def)
  next
    case (Some t)
    have t: "lapses_at X h s t' \<longleftrightarrow> t' = t" for t'
      using l Some by (auto simp flip: lifecycle_horizon_Some [of X h revoked])
    show ?thesis
    proof (cases "now < t")
      case True
      with Some l assms show ?thesis by (auto simp: post_grace_due_def t)
    next
      case False
      with Some l assms obtain ws where ws: "holder_windows X h t s = Inr ws"
        "due = map (\<lambda>(row, clause, _). (snap_digest row, after_grace clause)) (filter (\<lambda>(_, _, ends). now \<ge> ends) ws)"
        by (auto simp: post_grace_due_def)
      have "(d, a) \<in> set due \<longleftrightarrow> (\<exists>row clause ends. (row, clause, ends) \<in> set ws \<and> ends \<le> now \<and>
          d = snap_digest row \<and> a = after_grace clause)"
        unfolding ws(2) by force
      with False show ?thesis unfolding t holder_windows_Inr [OF ws(1)] by auto
    qed
  qed
qed

text \<open>One row before and after: marked only when it was live and overdue at the start.\<close>

definition expired_at :: "crates \<Rightarrow> instant \<Rightarrow> string \<Rightarrow> store \<Rightarrow> snapshot_row \<Rightarrow> snapshot_row \<Rightarrow> bool" where
  "expired_at X now at s row row' \<longleftrightarrow>
     row' = row \<or> (live row \<and> overdue X now s row \<and> row' = row\<lparr>snap_retained_until := Some at\<rparr>)"

definition expired_since :: "crates \<Rightarrow> instant \<Rightarrow> string \<Rightarrow> store \<Rightarrow> store \<Rightarrow> bool" where
  "expired_since X now at s0 s \<longleftrightarrow>
     t_entitlements s = t_entitlements s0 \<and> t_lapse s = t_lapse s0 \<and> t_terms s = t_terms s0 \<and>
     list_all2 (expired_at X now at s0) (t_snapshots s0) (t_snapshots s)"

lemma expired_since_refl [simp]: "expired_since X now at s s"
  by (simp add: expired_since_def expired_at_def list_all2_same)

lemma lapses_at_same:
  "t_entitlements s' = t_entitlements s \<Longrightarrow> t_lapse s' = t_lapse s \<Longrightarrow> lapses_at X h s' t = lapses_at X h s t"
proof -
  assume "t_entitlements s' = t_entitlements s" "t_lapse s' = t_lapse s"
  then have "expiries X h s' = expiries X h s" "stored_lapse_state h s' = stored_lapse_state h s"
    by (simp_all add: expiries_def stored_lapse_state_def)
  then show ?thesis by (simp add: lapses_at_def)
qed

lemma expired_row_live: "expired_at X now at s row row' \<Longrightarrow> live row' \<Longrightarrow> row' = row"
  by (auto simp: expired_at_def live_def)

lemma expired_since_live:
  assumes "expired_since X now at s0 s" "row \<in> set (t_snapshots s)" "live row"
  shows "row \<in> set (t_snapshots s0)"
  using assms expired_row_live
  by (fastforce simp: expired_since_def list_all2_conv_all_nth in_set_conv_nth)

text \<open>Whatever is found due later in the step was overdue at its start.\<close>

lemma due_overdue:
  assumes "expired_since X now at s0 s" "post_grace_due X h revoked now s = Inr due" "(d, ''erase'') \<in> set due"
  shows "\<exists>row \<in> set (t_snapshots s0). live row \<and> snap_key row = (h, d) \<and> overdue X now s0 row"
proof -
  obtain t row clause ends where r: "lapses_at X h s t" "t \<le> now" "in_window X h t s row clause ends" "ends \<le> now"
      "d = snap_digest row" "after_grace clause = ''erase''"
    using post_grace_due_Inr [OF assms(2), of d "''erase''"] assms(3) by metis
  then have row: "row \<in> set (t_snapshots s)" "snap_holder row = h" "live row" by (simp_all add: in_window_def)
  note here = expired_since_live [OF assms(1) row(1,3)]
  have "lapses_at X h s0 t" using r(1) assms(1) lapses_at_same [of s s0] by (simp add: expired_since_def)
  moreover have "in_window X h t s0 row clause ends"
    using r(3) here assms(1) by (simp add: in_window_def end_of_payment_def terms_document_def expired_since_def)
  ultimately have "overdue X now s0 row" using r row(2) unfolding overdue_def by blast
  with here row r(5) show ?thesis by (auto simp: snap_key_def)
qed

lemma mark_overdue:
  assumes "expired_since X now at s0 s" "keyed snap_key (t_snapshots s0)"
    "row \<in> set (t_snapshots s0)" "live row" "snap_key row = (h, d)" "overdue X now s0 row"
  shows "expired_since X now at s0 (snd (mark_unavailable h d at s))"
proof -
  let ?mark = "\<lambda>r. if snap_holder r = h \<and> snap_digest r = d \<and> live r then r\<lparr>snap_retained_until := Some at\<rparr> else r"
  have "expired_at X now at s0 r (?mark r')" if r: "expired_at X now at s0 r r'" "r \<in> set (t_snapshots s0)" for r r'
  proof (cases "snap_holder r' = h \<and> snap_digest r' = d \<and> live r'")
    case True
    then have "r' = r" using r(1) by (auto dest: expired_row_live)
    with True assms(5) have "snap_key r = snap_key row" by (simp add: snap_key_def)
    then have "r = row" using keyed_unique [OF assms(2) r(2) assms(3)] by simp
    with \<open>r' = r\<close> assms(4,6) True show ?thesis by (simp add: expired_at_def)
  next
    case False
    then show ?thesis using r(1) by (simp only: if_False)
  qed
  then have "list_all2 (\<lambda>r r'. expired_at X now at s0 r (?mark r')) (t_snapshots s0) (t_snapshots s)"
    using assms(1) unfolding expired_since_def list_all2_conv_all_nth by (metis nth_mem)
  with assms(1) show ?thesis
    by (simp add: expired_since_def mark_unavailable_def update_where_def Let_def list_all2_map2)
qed

lemma post_grace_expires:
  assumes "keyed snap_key (t_snapshots s0)"
  shows "keeps (\<lambda>w. expired_since X now at s0 (store w)) (sweep_post_grace X revoked now at)"
proof -
  let ?I = "\<lambda>w :: world. expired_since X now at s0 (store w)"
  have mark: "keeps ?I (expire_due h at p n)"
    if "snd p = ''erase'' \<Longrightarrow> \<exists>row \<in> set (t_snapshots s0). live row \<and> snap_key row = (h, fst p) \<and> overdue X now s0 row" for h p n
  proof (cases "snd p = ''erase''")
    case True
    with that obtain row where "row \<in> set (t_snapshots s0)" "live row" "snap_key row = (h, fst p)" "overdue X now s0 row"
      by blast
    note step = mark_overdue [OF _ assms this]
    have "keeps ?I (execute (mark_unavailable h (fst p) at))"
      by (rule keeps_execute [OF store_data]) (simp add: step)
    with True show ?thesis unfolding expire_due_def by (simp add: framed_counted)
  qed (simp add: expire_due_def keeps_return)
  have marks: "keeps ?I (foldE (expire_due h at) due n)"
    if "\<And>d. (d, ''erase'') \<in> set due \<Longrightarrow> \<exists>row \<in> set (t_snapshots s0). live row \<and> snap_key row = (h, d) \<and> overdue X now s0 row" for h due n
    using that
  proof (induction due arbitrary: n)
    case (Cons p due)
    have "keeps ?I (expire_due h at p n)" by (rule mark) (metis Cons.prems list.set_intros(1) prod.collapse)
    moreover have "keeps ?I (foldE (expire_due h at) due n')" for n' by (rule Cons.IH) (use Cons.prems in auto)
    ultimately show ?case by (auto intro: keeps_bind)
  qed (simp add: keeps_return)
  have "keeps ?I (expire_holder X revoked now at h n)" for h n
    unfolding keeps_def
  proof (intro allI impI)
    fix w :: world assume I: "expired_since X now at s0 (store w)"
    let ?q = "post_grace_due X h revoked now"
    obtain q w1 where q: "query ?q w = (q, w1)" by (cases "query ?q w")
    have same: "store w1 = store w" "q = ?q (store w) \<or> q = Inl (internal ''sqlite'')"
      using query_same [OF q] by (auto simp: same_data_def)
    show "expired_since X now at s0 (store (snd (expire_holder X revoked now at h n w)))"
    proof (cases q)
      case (Inr due)
      then have "?q (store w) = Inr due" using same(2) by auto
      note due = due_overdue [OF I this]
      have "keeps ?I (foldE (expire_due h at) due n)" by (rule marks) (rule due)
      then show ?thesis
        using I same(1) by (simp add: expire_holder_def matchE_run q Inr keeps_def)
    qed (use I same in \<open>simp add: expire_holder_def matchE_run q returnE_run\<close>)
  qed
  then show ?thesis
    unfolding sweep_post_grace_def
    by (intro keeps_bind framed_or_else keeps_select [OF store_data] keeps_fold)
qed

end
