(* ===== verification/Archive.thy ===== *)
theory Archive
  imports Aging
begin

text \<open>
  The operator as an archive: a map from a holder and a digest to the sealed bytes.  Every step of
  the operator is a sequence of steps of a machine that only adds bytes with the digest they are
  filed under, where nothing is filed, or loses entries.  What a download streams is what the
  archive holds.
\<close>

section \<open>The abstract machine\<close>

type_synonym archive = "(string \<times> string) \<rightharpoonup> bytes"

inductive archive_step :: "crates \<Rightarrow> archive \<Rightarrow> archive \<Rightarrow> bool" for X where
  Add: "a (h, d) = None \<Longrightarrow> digest X b = d \<Longrightarrow> archive_step X a (a((h, d) \<mapsto> b))"
| Lose: "map_le a' a \<Longrightarrow> archive_step X a a'"

abbreviation archive_steps :: "crates \<Rightarrow> archive \<Rightarrow> archive \<Rightarrow> bool" where
  "archive_steps X \<equiv> (archive_step X)\<^sup>*\<^sup>*"

text \<open>Its invariant: what is kept under a digest has that digest.\<close>

definition genuine :: "crates \<Rightarrow> archive \<Rightarrow> bool" where
  "genuine X a \<longleftrightarrow> (\<forall>h d b. a (h, d) = Some b \<longrightarrow> digest X b = d)"

lemma genuine_step: "archive_step X a a' \<Longrightarrow> genuine X a \<Longrightarrow> genuine X a'"
  by (induction rule: archive_step.induct) (fastforce simp: genuine_def map_le_def dom_def)+

lemma genuine_steps: "archive_steps X a a' \<Longrightarrow> genuine X a \<Longrightarrow> genuine X a'"
  by (induction rule: rtranclp_induct) (auto intro: genuine_step)

section \<open>The abstraction\<close>

text \<open>What a download of a row streams.\<close>

definition row_bytes :: "string \<Rightarrow> disk \<Rightarrow> snapshot_row \<Rightarrow> bytes option" where
  "row_bytes root d r =
     (case digest_hex (snap_digest r) of Inl _ \<Rightarrow> None
      | Inr hex \<Rightarrow> (case chunk_paths root (snap_holder r) hex (snap_chunks r) (snap_size r) d of Inl _ \<Rightarrow> None
      | Inr paths \<Rightarrow> (case snapshot_stream d paths of Inl _ \<Rightarrow> None | Inr b \<Rightarrow> Some b)))"

definition archive_of :: "app \<Rightarrow> world \<Rightarrow> archive" where
  "archive_of A w = (\<lambda>(h, d).
     Option.bind (List.find (\<lambda>r. live r \<and> snap_key r = (h, d)) (t_snapshots (store w)))
       (row_bytes (blob_root (cfg A)) (disk w)))"

lemma row_bytes_intact:
  assumes "row_intact X root d r"
  shows "\<exists>hex fs. digest_hex (snap_digest r) = Inr hex \<and> dir_lookup d (snapshot_dir root (snap_holder r) hex) = Some fs \<and>
    row_bytes root d r = Some (content fs (snap_chunks r)) \<and> digest X (content fs (snap_chunks r)) = snap_digest r"
proof -
  from assms obtain hex fs where h: "digest_hex (snap_digest r) = Inr hex"
    "dir_lookup d (snapshot_dir root (snap_holder r) hex) = Some fs" "whole fs (snap_chunks r)" "0 \<le> snap_chunks r"
    "snap_size r = int (length (content fs (snap_chunks r)))" "snap_size r \<le> i64_max"
    "digest X (content fs (snap_chunks r)) = ''sha256:'' @ hex"
    by (auto simp: row_intact_def intact_def)
  with chunk_paths_whole [OF h(2-4)] have "row_bytes root d r = Some (content fs (snap_chunks r))"
    by (simp add: row_bytes_def)
  with h digest_hex_Inr [OF h(1)] show ?thesis by auto
qed

lemma row_bytes_frame:
  assumes "row_intact X root d r" "row_intact X root d' r"
    "\<And>hex. digest_hex (snap_digest r) = Inr hex \<Longrightarrow>
       dir_lookup d' (snapshot_dir root (snap_holder r) hex) = dir_lookup d (snapshot_dir root (snap_holder r) hex)"
  shows "row_bytes root d' r = row_bytes root d r"
  using row_bytes_intact [OF assms(1)] row_bytes_intact [OF assms(2)] assms(3) by auto

lemma archive_of_Some:
  assumes "keyed snap_key (t_snapshots (store w))"
  shows "archive_of A w (h, d) = Some b \<longleftrightarrow> (\<exists>r \<in> set (t_snapshots (store w)). live r \<and> snap_key r = (h, d) \<and>
    row_bytes (blob_root (cfg A)) (disk w) r = Some b)"
proof
  assume "archive_of A w (h, d) = Some b"
  then show "\<exists>r \<in> set (t_snapshots (store w)). live r \<and> snap_key r = (h, d) \<and>
    row_bytes (blob_root (cfg A)) (disk w) r = Some b"
    by (auto simp: archive_of_def bind_eq_Some_conv find_Some_iff)
next
  assume "\<exists>r \<in> set (t_snapshots (store w)). live r \<and> snap_key r = (h, d) \<and>
    row_bytes (blob_root (cfg A)) (disk w) r = Some b"
  then obtain r where r: "r \<in> set (t_snapshots (store w))" "live r" "snap_key r = (h, d)"
    "row_bytes (blob_root (cfg A)) (disk w) r = Some b" by blast
  then obtain r' where f: "List.find (\<lambda>r. live r \<and> snap_key r = (h, d)) (t_snapshots (store w)) = Some r'"
    using find_None_iff [of "\<lambda>r. live r \<and> snap_key r = (h, d)" "t_snapshots (store w)"] by fastforce
  then have "r' \<in> set (t_snapshots (store w))" "snap_key r' = snap_key r" using r(3) by (auto simp: find_Some_iff)
  then have "r' = r" using keyed_unique [OF assms _ r(1)] by blast
  with f r(4) show "archive_of A w (h, d) = Some b" by (simp add: archive_of_def)
qed

lemma sound_keyed: "sound A w \<Longrightarrow> keyed snap_key (t_snapshots (store w))"
  using soundD(2) by (simp add: core_keys_def)

lemma sound_row_intact:
  "sound A w \<Longrightarrow> r \<in> set (t_snapshots (store w)) \<Longrightarrow> live r \<Longrightarrow> row_intact (lib A) (blob_root (cfg A)) (disk w) r"
  using soundD(4) by (auto simp: rows_intact_def)

lemma sound_genuine:
  assumes "sound A w"
  shows "genuine (lib A) (archive_of A w)"
  unfolding genuine_def
proof (intro allI impI)
  fix h d b assume "archive_of A w (h, d) = Some b"
  then obtain r where r: "r \<in> set (t_snapshots (store w))" "live r" "snap_key r = (h, d)"
    "row_bytes (blob_root (cfg A)) (disk w) r = Some b"
    using archive_of_Some [OF sound_keyed [OF assms]] by blast
  with row_bytes_intact [OF sound_row_intact [OF assms r(1,2)]] show "digest (lib A) b = d"
    by (auto simp: snap_key_def)
qed

section \<open>The changes, as abstract steps\<close>

definition archived :: "app \<Rightarrow> world \<Rightarrow> world \<Rightarrow> bool" where
  "archived A w0 w \<longleftrightarrow> sound A w \<and> archive_steps (lib A) (archive_of A w0) (archive_of A w)"

lemma archivedD: "archived A w0 w \<Longrightarrow> sound A w"
  by (simp add: archived_def)

lemma archived_step:
  "archived A w0 w \<Longrightarrow> sound A w' \<Longrightarrow> archive_step (lib A) (archive_of A w) (archive_of A w') \<Longrightarrow> archived A w0 w'"
  by (auto simp: archived_def)

text \<open>Rows and directories at most go away.\<close>

lemma archived_less:
  assumes "archived A w0 w" "sound A w'"
    and "\<And>r. r \<in> set (t_snapshots (store w')) \<Longrightarrow> live r \<Longrightarrow> r \<in> set (t_snapshots (store w))"
    and "\<And>r hex. r \<in> set (t_snapshots (store w)) \<Longrightarrow> live r \<Longrightarrow> digest_hex (snap_digest r) = Inr hex \<Longrightarrow>
      dir_lookup (disk w) (snapshot_dir (blob_root (cfg A)) (snap_holder r) hex) \<noteq> None \<Longrightarrow>
      r \<in> set (t_snapshots (store w')) \<Longrightarrow>
      dir_lookup (disk w') (snapshot_dir (blob_root (cfg A)) (snap_holder r) hex) =
      dir_lookup (disk w) (snapshot_dir (blob_root (cfg A)) (snap_holder r) hex)"
  shows "archived A w0 w'"
proof (rule archived_step [OF assms(1,2)], rule archive_step.Lose)
  note s = archivedD [OF assms(1)]
  show "map_le (archive_of A w') (archive_of A w)"
    unfolding map_le_def
  proof
    fix k assume "k \<in> dom (archive_of A w')"
    then obtain h d b where k: "k = (h, d)" "archive_of A w' (h, d) = Some b" by (cases k) auto
    then obtain r where r: "r \<in> set (t_snapshots (store w'))" "live r" "snap_key r = (h, d)"
      "row_bytes (blob_root (cfg A)) (disk w') r = Some b"
      using archive_of_Some [OF sound_keyed [OF assms(2)]] by blast
    note here = assms(3) [OF r(1,2)]
    note intact = sound_row_intact [OF s here r(2)] sound_row_intact [OF assms(2) r(1,2)]
    have "row_bytes (blob_root (cfg A)) (disk w') r = row_bytes (blob_root (cfg A)) (disk w) r"
      using row_bytes_intact [OF intact(1)] assms(4) [OF here r(2)] r(1) by (intro row_bytes_frame [OF intact]) auto
    with r(2-4) here have "archive_of A w (h, d) = Some b"
      using archive_of_Some [OF sound_keyed [OF s]] by auto
    with k show "archive_of A w' k = archive_of A w k" by simp
  qed
qed

lemma archived_same:
  "archived A w0 w \<Longrightarrow> sound A w' \<Longrightarrow> t_snapshots (store w') = t_snapshots (store w) \<Longrightarrow> disk w' = disk w \<Longrightarrow>
     archived A w0 w'"
  by (rule archived_less) simp_all

lemma archived_framed: "framed (archived A w0)"
  unfolding framed_def
proof (intro allI impI)
  fix w w' :: world assume a: "archived A w0 w" "core_same (store w) (store w')" "disk w' = disk w"
  then have "sound A w'" using sound_framed archivedD unfolding framed_def by blast
  with a show "archived A w0 w'" by (intro archived_same [OF a(1)]) (simp_all add: core_same_def)
qed


lemma archived_expired:
  assumes "archived A w0 w" "store w' = snd (mark_unavailable h d t (store w))" "disk w' = disk w"
  shows "archived A w0 w'"
  by (rule archived_less [OF assms(1) sound_expired [OF archivedD [OF assms(1)] assms(2,3)]])
    (auto simp: assms(2,3) mark_unavailable_def update_where_def Let_def live_def split: if_splits)

lemma archived_erased:
  assumes "archived A w0 w" "store w' = commit_erasure (lib A) h scope ds ms op t (store w)" "disk w' = disk w"
    "\<forall>m \<in> set ms. \<forall>r \<in> set (t_receipts (store w)). rc_id r \<noteq> mint_id m"
  shows "archived A w0 w'"
  by (rule archived_less [OF assms(1) sound_erased [OF archivedD [OF assms(1)] assms(2,3)]])
    (auto simp: assms(2,3) erased_row_def live_def)

lemma archived_forgotten:
  assumes "archived A w0 w" "store w' = snd (sweep_erased_references (lib A) t (store w))" "disk w' = disk w"
  shows "archived A w0 w'"
  by (rule archived_less [OF assms(1) sound_forgotten [OF archivedD [OF assms(1)] assms(2,3)]])
    (use sweep_references_rows in \<open>auto simp: assms(2,3)\<close>)

lemma archived_disk:
  assumes "archived A w0 w" "sound A w'" "store w' = store w"
    and "\<And>h hex. dir_lookup (disk w) (snapshot_dir (blob_root (cfg A)) h hex) \<noteq> None \<Longrightarrow>
      snapshot_exists h (''sha256:'' @ hex) (store w) \<Longrightarrow>
      dir_lookup (disk w') (snapshot_dir (blob_root (cfg A)) h hex) =
      dir_lookup (disk w) (snapshot_dir (blob_root (cfg A)) h hex)"
  shows "archived A w0 w'"
proof (rule archived_less [OF assms(1,2)])
  show "dir_lookup (disk w') (snapshot_dir (blob_root (cfg A)) (snap_holder r) hex) =
      dir_lookup (disk w) (snapshot_dir (blob_root (cfg A)) (snap_holder r) hex)"
    if "r \<in> set (t_snapshots (store w))" "live r" "digest_hex (snap_digest r) = Inr hex"
      "dir_lookup (disk w) (snapshot_dir (blob_root (cfg A)) (snap_holder r) hex) \<noteq> None" for r hex
    using that digest_hex_Inr [OF that(3)] by (intro assms(4)) (auto simp: snapshot_exists_iff)
qed (simp add: assms(3))

lemma archived_opened:
  assumes "archived A w0 w" "store w' = store w" "\<forall>u \<in> set (t_uploads (store w)). up_id u \<noteq> uid"
    "only_at (incoming_dir (blob_root (cfg A)) uid) (disk w) (disk w')"
  shows "archived A w0 w'"
  by (rule archived_disk [OF assms(1) sound_opened [OF archivedD [OF assms(1)] assms(2,3,4)] assms(2)])
    (use assms(4) in \<open>simp add: only_at_def\<close>)

lemma archived_written:
  assumes "archived A w0 w" "u \<in> set (t_uploads (store w))" "0 \<le> i" "i < up_chunk_count u"
    "int (length bytes) = expected_chunk u i" "store w' = store w"
    "chunk_added (incoming_dir (blob_root (cfg A)) (up_id u)) i bytes (disk w) (disk w')"
  shows "archived A w0 w'"
  by (rule archived_disk [OF assms(1) sound_written [OF archivedD [OF assms(1)] assms(2-7)] assms(6)])
    (use assms(7) in \<open>simp add: chunk_added_def only_at_def\<close>)

lemma archived_discarded:
  assumes "archived A w0 w" "store w' = store w" "shrunk (incoming_dir (blob_root (cfg A)) uid) (disk w) (disk w')"
  shows "archived A w0 w'"
  by (rule archived_disk [OF assms(1) sound_discarded [OF archivedD [OF assms(1)] assms(2,3)] assms(2)])
    (use assms(3) in \<open>simp add: shrunk_def only_at_def\<close>)

lemma archived_unlinked:
  assumes "archived A w0 w" "\<not> snapshot_exists h (''sha256:'' @ hex) (store w)" "store w' = store w"
    "shrunk (snapshot_dir (blob_root (cfg A)) h hex) (disk w) (disk w')"
  shows "archived A w0 w'"
proof (rule archived_disk [OF assms(1) sound_unlinked [OF archivedD [OF assms(1)] assms(2-4)] assms(3)])
  fix g x assume "snapshot_exists g (''sha256:'' @ x) (store w)"
  with assms(2) have "snapshot_dir (blob_root (cfg A)) g x \<noteq> snapshot_dir (blob_root (cfg A)) h hex" by fastforce
  with assms(4) show "dir_lookup (disk w') (snapshot_dir (blob_root (cfg A)) g x) =
      dir_lookup (disk w) (snapshot_dir (blob_root (cfg A)) g x)"
    unfolding shrunk_def only_at_def by blast
qed

lemma archived_placed:
  assumes "archived A w0 w" "store w' = store w"
    "moved (incoming_dir (blob_root (cfg A)) uid) (snapshot_dir (blob_root (cfg A)) h hex) (disk w) (disk w')"
  shows "archived A w0 w'"
proof (rule archived_disk [OF assms(1) sound_placed [OF archivedD [OF assms(1)] assms(2,3)] assms(2)])
  fix g x assume "dir_lookup (disk w) (snapshot_dir (blob_root (cfg A)) g x) \<noteq> None"
  with assms(3) have "snapshot_dir (blob_root (cfg A)) g x \<noteq> snapshot_dir (blob_root (cfg A)) h hex"
    by (auto simp only: moved_def)
  with assms(3) show "dir_lookup (disk w') (snapshot_dir (blob_root (cfg A)) g x) =
      dir_lookup (disk w) (snapshot_dir (blob_root (cfg A)) g x)"
    by (simp only: moved_def) (metis incoming_not_snapshot(2))
qed

text \<open>A snapshot becomes live where there was none: the one step that adds.\<close>

lemma retain_live_row:
  assumes "snapshot_exists (up_holder u) (up_digest u) s" "keyed snap_key (t_snapshots s)"
  shows "t_snapshots (retain u t s) = t_snapshots s"
proof -
  obtain r where r: "r \<in> set (t_snapshots s)" "snap_key r = (up_holder u, up_digest u)" "live r"
    using assms(1) by (auto simp: snapshot_exists_iff snap_key_def)
  have "\<not> (snap_key q = (up_holder u, up_digest u) \<and> \<not> live q)" if "q \<in> set (t_snapshots s)" for q
    using keyed_unique [OF assms(2) that r(1)] r by auto
  then show ?thesis using r by (auto simp: retain_def Let_def update_where_def intro!: map_idI)
qed

lemma retain_others:
  "snap_key r \<noteq> (up_holder u, up_digest u) \<Longrightarrow> r \<in> set (t_snapshots (retain u t s)) \<longleftrightarrow> r \<in> set (t_snapshots s)"
  by (auto simp: retain_def Let_def update_where_def new_snapshot_def snap_key_def revive_def split: if_splits)

lemma archived_retained:
  assumes "archived A w0 w" "digest_hex (up_digest u) = Inr hex"
    "intact (lib A) (blob_root (cfg A)) (disk w) (up_holder u) hex (up_chunk_count u) (up_size u)"
    "store w' = retain u t (store w)" "disk w' = disk w"
  shows "archived A w0 w'"
proof (cases "snapshot_exists (up_holder u) (up_digest u) (store w)")
  case True
  note s' = sound_retained [OF archivedD [OF assms(1)] assms(2-5)]
  show ?thesis
    by (rule archived_same [OF assms(1) s'])
      (simp_all add: assms(4,5) retain_live_row [OF True sound_keyed [OF archivedD [OF assms(1)]]])
next
  case False
  let ?k = "(up_holder u, up_digest u)"
  note s = archivedD [OF assms(1)] and s' = sound_retained [OF archivedD [OF assms(1)] assms(2-5)]
  note look = archive_of_Some [OF sound_keyed [OF s]] and look' = archive_of_Some [OF sound_keyed [OF s']]
  have old: "archive_of A w ?k = None"
  proof (rule ccontr)
    assume "archive_of A w ?k \<noteq> None"
    then obtain b where "archive_of A w ?k = Some b" by blast
    then show False using False look by (auto simp: snapshot_exists_iff snap_key_def)
  qed
  obtain r where r: "r \<in> set (t_snapshots (store w'))" "live r" "snap_key r = ?k"
    using retain_live [of u t "store w"] assms(4) by (auto simp: snapshot_exists_iff snap_key_def)
  obtain b where b: "row_bytes (blob_root (cfg A)) (disk w') r = Some b" "digest (lib A) b = up_digest u"
    using row_bytes_intact [OF sound_row_intact [OF s' r(1,2)]] r(3) by (auto simp: snap_key_def)
  then have new: "archive_of A w' ?k = Some b" using look' r by blast
  have "archive_of A w' = (archive_of A w)(?k \<mapsto> b)"
  proof
    fix k :: "string \<times> string"
    show "archive_of A w' k = ((archive_of A w)(?k \<mapsto> b)) k"
    proof (cases "k = ?k")
      case False
      obtain h d where k: "k = (h, d)" by (cases k)
      have "archive_of A w' (h, d) = Some c \<longleftrightarrow> archive_of A w (h, d) = Some c" for c
        unfolding look look' assms(4,5) using False k retain_others by metis
      then have "archive_of A w' (h, d) = archive_of A w (h, d)" by (metis option.exhaust)
      with False k show ?thesis by auto
    qed (simp add: new)
  qed
  with old b(2) show ?thesis
    by (intro archived_step [OF assms(1) s']) (auto intro: archive_step.Add)
qed

lemma archived_noted:
  "archived A w0 w \<Longrightarrow> store w' = record_outcome op h sj st i t (store w) \<Longrightarrow> disk w' = disk w \<Longrightarrow> archived A w0 w'"
  by (rule archived_same) (auto dest: sound_noted [OF archivedD] simp: record_outcome_def)

lemma archived_minted:
  assumes "archived A w0 w" "store w' = (store w)\<lparr>t_uploads := t_uploads (store w) @ [row]\<rparr>" "disk w' = disk w"
    "grant_ok row" "\<forall>r \<in> set (t_uploads (store w)). up_id r \<noteq> up_id row"
    "dir_lookup (disk w) (incoming_dir (blob_root (cfg A)) (up_id row)) = Some []"
  shows "archived A w0 w'"
  by (rule archived_same [OF assms(1) sound_minted [OF archivedD [OF assms(1)] assms(2-6)]]) (simp_all add: assms(2,3))

lemma archived_dropped:
  "archived A w0 w \<Longrightarrow> store w' = drop_upload uid (store w) \<Longrightarrow> disk w' = disk w \<Longrightarrow> archived A w0 w'"
  by (rule archived_same) (auto dest: sound_dropped [OF archivedD] simp: drop_upload_def)

lemma archived_aged:
  "archived A w0 w \<Longrightarrow> store w' = snd (sweep_outcomes_and_receipts X a b (store w)) \<Longrightarrow> disk w' = disk w \<Longrightarrow>
     archived A w0 w'"
  by (rule archived_same) (auto dest: sound_aged [OF archivedD] simp: sweep_outcomes_and_receipts_def Let_def)

lemmas archived_changes = archived_noted archived_minted archived_dropped archived_expired archived_erased
  archived_retained archived_opened archived_written archived_discarded archived_unlinked archived_placed
  archived_forgotten archived_aged

interpretation archived: operator_invariant A "\<lambda>_. True" "archived A w0" for A w0
  by unfold_locales (rule TrueI soundD [OF archivedD] archived_framed archived_changes; assumption)+

section \<open>What a download serves\<close>

lemma served_row:
  assumes "sound A w" "snapshot_record h (''sha256:'' @ hex) (store w) = Some row" "live row"
    "chunk_paths (blob_root (cfg A)) h hex (snap_chunks row) (snap_size row) (disk w) = Inr paths"
  shows "\<exists>b. snapshot_stream (disk w) paths = Inr b \<and> int (length b) = snap_size row \<and>
    digest (lib A) b = ''sha256:'' @ hex \<and> archive_of A w (h, ''sha256:'' @ hex) = Some b"
proof -
  have row: "row \<in> set (t_snapshots (store w))" "snap_holder row = h" "snap_digest row = ''sha256:'' @ hex"
    using assms(2) by (auto simp: snapshot_record_def find_Some_iff)
  obtain paths' b where b: "chunk_paths (blob_root (cfg A)) h hex (snap_chunks row) (snap_size row) (disk w) = Inr paths'"
    "snapshot_stream (disk w) paths' = Inr b" "int (length b) = snap_size row" "digest (lib A) b = ''sha256:'' @ hex"
    using row_readable [OF soundD(4) [OF assms(1)] row(1) assms(3)] row(2,3) by auto
  obtain hex' where "digest_hex (snap_digest row) = Inr hex'"
    using sound_row_intact [OF assms(1) row(1) assms(3)] by (auto simp: row_intact_def)
  moreover from digest_hex_Inr [OF this] row(3) have "hex' = hex" by simp
  ultimately have "row_bytes (blob_root (cfg A)) (disk w) row = Some b"
    using b row(2) by (simp add: row_bytes_def)
  then have "archive_of A w (h, ''sha256:'' @ hex) = Some b"
    unfolding archive_of_Some [OF sound_keyed [OF assms(1)]] using row assms(3) by (auto simp: snap_key_def)
  with b assms(4) show ?thesis by auto
qed

text \<open>The two routes that stream a snapshot find the same row and open the same files.\<close>

lemma opened_row:
  assumes "download A hs hex now w = (Inr answer, w') \<or> export_snapshot A hs hex now w = (Inr answer, w')"
  shows "\<exists>h row paths. claimed A hs = Some h \<and> snapshot_record h (''sha256:'' @ hex) (store w) = Some row \<and> live row \<and>
    chunk_paths (blob_root (cfg A)) h hex (snap_chunks row) (snap_size row) (disk w) = Inr paths \<and>
    answer = RStream 200 (snap_size row) paths \<and> disk w' = disk w"
proof -
  have found: "\<exists>h row paths. claimed A hs = Some h \<and> snapshot_record h (''sha256:'' @ hex) (store w) = Some row \<and> live row \<and>
      chunk_paths (blob_root (cfg A)) h hex (snap_chunks row) (snap_size row) (disk w) = Inr paths \<and>
      answer = RStream 200 (snap_size row) paths \<and> disk w' = disk w"
    if a: "authenticate A hs verb path body now w = (Inr who, w1)"
      and same: "core_same (store w) (store w2)" "disk w2 = disk w"
      and f: "select (snapshot_record (h_handle who) (''sha256:'' @ hex)) w2 = (Inr (Some row), w3)"
      and l: "snap_erased_at row = None" "snap_retained_until row = None"
      and i: "inspect (chunk_paths (blob_root (cfg A)) (h_handle who) hex (snap_chunks row) (snap_size row)) w3 = (Inr paths, w')"
      and r: "answer = RStream 200 (snap_size row) paths"
    for verb path body who w1 w2 row w3 paths
  proof -
    have "snapshot_record (h_handle who) (''sha256:'' @ hex) (store w2) = Some row" "disk w3 = disk w"
      using select_same [OF f] same(2) by (auto simp: same_data_def)
    moreover have "disk w' = disk w3" using quietD [OF quiet_inspect i] by (simp add: same_data_def)
    ultimately show ?thesis
      using authenticate_claimed [OF a] same(1) inspect_Inr [OF i] l r
      by (auto simp: core_same_def snapshot_record_def live_def)
  qed
  from assms show ?thesis
  proof
    assume "download A hs hex now w = (Inr answer, w')"
    then obtain who row w1 w2 w3 paths where
      a: "authenticate A hs ''GET'' (''/v1/snapshots/'' @ hex) [] now w = (Inr who, w1)"
      and q: "require A who hs Download now w1 = (Inr (), w2)"
      and f: "select (snapshot_record (h_handle who) (''sha256:'' @ hex)) w2 = (Inr (Some row), w3)"
      and l: "snap_erased_at row = None" "snap_retained_until row = None"
      and o1: "download_open A who row hex now w3 = (Inr answer, w')"
      unfolding download_def download_lookup_def
      by (auto elim!: bindE_Inr_E simp: liftE_run throwE_run returnE_run split: if_splits)
    from o1 obtain paths where p: "inspect (chunk_paths (blob_root (cfg A)) (h_handle who) hex (snap_chunks row) (snap_size row)) w3 = (Inr paths, w')"
      "answer = RStream 200 (snap_size row) paths"
      by (auto simp: download_open_def expire_missing_def matchE_run returnE_run throwE_run liftE_run bindE_run
          split: prod.splits sum.splits if_splits)
    have "core_same (store w) (store w2)" "disk w2 = disk w"
      using authenticate_frame [OF a] require_frame [OF q] by (auto intro: core_same_trans)
    from found [OF a this f l p] show ?thesis .
  next
    assume "export_snapshot A hs hex now w = (Inr answer, w')"
    then obtain who row w1 w3 paths where
      a: "authenticate A hs ''GET'' (''/v1/exports/'' @ hex) [] now w = (Inr who, w1)"
      and f: "select (snapshot_record (h_handle who) (''sha256:'' @ hex)) w1 = (Inr (Some row), w3)"
      and l: "snap_erased_at row = None" "snap_retained_until row = None"
      and o1: "export_open A who row hex now w3 = (Inr answer, w')"
      unfolding export_snapshot_def export_lookup_def
      by (auto elim!: bindE_Inr_E simp: liftE_run throwE_run returnE_run split: if_splits)
    from o1 obtain paths where p: "inspect (chunk_paths (blob_root (cfg A)) (h_handle who) hex (snap_chunks row) (snap_size row)) w3 = (Inr paths, w')"
      "answer = RStream 200 (snap_size row) paths"
      by (auto simp: export_open_def expire_missing_def matchE_run returnE_run throwE_run liftE_run bindE_run
          split: prod.splits sum.splits if_splits)
    from authenticate_frame [OF a] found [OF a _ _ f l p] show ?thesis by simp
  qed
qed

end
