(* ===== verification/Sweep_Facts.thy ===== *)
theory Sweep_Facts
  imports Archive
begin

text \<open>
  The sweep as a whole: the interface of a predicate that each of its elementary changes keeps, the
  rows a sweep cannot forget, and that a sweep always runs to its end, whatever fails on the way.
\<close>

section \<open>What a sweep keeps\<close>

text \<open>The interface: the elementary changes a sweep makes, each keeping the predicate.\<close>

locale sweep_invariant =
  fixes X :: crates and I :: "world \<Rightarrow> bool"
  assumes reads: "data_pred I"
    and marks: "keeps I (execute (mark_unavailable h d t))"
    and drops: "keeps I (statement (drop_upload uid))"
    and discards: "keeps I (discard_upload root uid)"
    and unlinks: "keeps I (erase_blob root h hex)"
    and records: "keeps I (statement (record_lapse_state h state))"
    and forgets: "keeps I (execute (forget_lapse_state h))"
    and ages: "keeps I (execute (sweep_entitlements X h t))"
    and supersedes: "keeps I (execute (sweep_superseded_entitlements X t))"
    and nonces: "keeps I (execute (sweep_nonces X t))"
    and outcomes: "keeps I (execute (sweep_outcomes_and_receipts X t1 t2))"
    and references: "keeps I (execute (sweep_erased_references X t))"
begin

lemma quiets: "quiet m \<Longrightarrow> keeps I m"
  by (rule data_quiet [OF reads])

lemmas rules = keeps_bind keeps_fold keeps_if keeps_match keeps_return framed_or_else framed_counted
  keeps_option keeps_sum keeps_case_prod keeps_get keeps_query [OF reads] keeps_select [OF reads]
  quiets [OF quiet_inspect] quiets [OF quiet_walk] marks drops discards unlinks records forgets ages
  supersedes nonces outcomes references

lemma keeps_reconcile: "keeps I (reconcile X root revoked charges now_at limits)"
  unfolding reconcile_def sweep_post_grace_def expire_holder_def expire_due_def sweep_grants_def drop_expired_def
    sweep_incoming_def drop_orphan_incoming_def incoming_on_disk_def sweep_claimed_def check_claimed_def
    sweep_records_def drop_records_def carry_over_def adopt_unrecorded_def adopt_holder_def
    sweep_lapse_rows_def refresh_row_def retire_row_def sweep_orphans_def drop_orphan_snapshot_def
    retained_on_disk_def sweep_metadata_def Let_def
  by (intro rules)

lemma keeps_task: "lib A = X \<Longrightarrow> keeps I (sweep_task A now)"
  unfolding sweep_task_def using keeps_reconcile
  by (auto intro!: keeps_bind keeps_return keeps_get split: option.splits)

end

section \<open>Rows outlive everything but an erasure\<close>

definition remembered :: "string \<times> string \<Rightarrow> world \<Rightarrow> bool" where
  "remembered k w \<longleftrightarrow> (\<exists>r \<in> set (t_snapshots (store w)). snap_key r = k \<and> snap_erased_at r = None)"

lemma remembered_data: "data_pred (remembered k)"
  by (auto simp: data_pred_def same_data_def remembered_def)

lemma remembered_execute:
  "(\<And>s r. r \<in> set (t_snapshots s) \<Longrightarrow> snap_erased_at r = None \<Longrightarrow>
     \<exists>r' \<in> set (t_snapshots (snd (f s))). snap_key r' = snap_key r \<and> snap_erased_at r' = None) \<Longrightarrow>
   keeps (remembered k) (execute f)"
  by (rule keeps_execute [OF remembered_data]) (auto simp: remembered_def)

lemma remembered_rows:
  "(\<And>s. t_snapshots (snd (f s)) = t_snapshots s) \<Longrightarrow> keeps (remembered k) (execute f)"
  by (rule remembered_execute) auto

lemma remembered_disk:
  "keeps (remembered k) (discard_upload root uid)" "keeps (remembered k) (erase_blob root h hex)"
  unfolding keeps_def remembered_def
  by (metis discard_upload_spec erase_blob_spec prod.collapse same_store_def)+

lemma remembered_marks: "keeps (remembered k) (execute (mark_unavailable h d t))"
proof (rule remembered_execute)
  fix s :: store and r assume "r \<in> set (t_snapshots s)" "snap_erased_at r = None"
  then show "\<exists>r' \<in> set (t_snapshots (snd (mark_unavailable h d t s))). snap_key r' = snap_key r \<and> snap_erased_at r' = None"
    by (intro bexI [of _ "if snap_holder r = h \<and> snap_digest r = d \<and> live r then r\<lparr>snap_retained_until := Some t\<rparr> else r"])
      (auto simp: mark_unavailable_def update_where_def Let_def snap_key_def)
qed

lemma remembered_references: "keeps (remembered k) (execute (sweep_erased_references X t))"
  by (rule remembered_execute) (auto simp: sweep_erased_references_def Let_def)

interpretation remembered: sweep_invariant X "remembered k" for X k
  by unfold_locales
    (rule remembered_data remembered_marks remembered_disk remembered_references
      remembered_rows remembered_rows [where f = "\<lambda>s. ((), f s)" for f, folded statement_def];
      simp add: drop_upload_def record_lapse_state_def forget_lapse_state_def sweep_entitlements_def
        sweep_superseded_entitlements_def sweep_nonces_def sweep_outcomes_and_receipts_def Let_def)+

section \<open>A sweep always finishes\<close>

text \<open>Whatever fails, \<open>m\<close> ends with a value.\<close>

definition finishes :: "'a op \<Rightarrow> bool" where
  "finishes m \<longleftrightarrow> (\<forall>w. \<exists>x. fst (m w) = Inr x)"

lemma finishes_return: "finishes (returnE x)"
  and finishes_get: "finishes (getE f)"
  by (simp_all add: finishes_def returnE_run getE_run)

lemma finishes_bind: "finishes m \<Longrightarrow> (\<And>x. finishes (f x)) \<Longrightarrow> finishes (bindE m f)"
  unfolding finishes_def
proof
  fix w assume m: "\<forall>w. \<exists>x. fst (m w) = Inr x" and f: "\<And>x. \<forall>w. \<exists>y. fst (f x w) = Inr y"
  obtain x w1 where "m w = (Inr x, w1)" using m by (metis prod.collapse)
  with f show "\<exists>y. fst (bindE m f w) = Inr y" by (simp add: bindE_run)
qed

lemma finishes_match: "(\<And>e. finishes (h e)) \<Longrightarrow> (\<And>x. finishes (f x)) \<Longrightarrow> finishes (matchE m h f)"
  unfolding finishes_def by (simp add: matchE_run split: prod.split sum.split)

lemma finishes_fold: "(\<And>x acc. finishes (f x acc)) \<Longrightarrow> finishes (foldE f xs acc)"
  by (induction xs arbitrary: acc) (auto intro: finishes_return finishes_bind)

lemma finishes_or_else: "finishes (or_else d m)"
  unfolding or_else_def by (intro finishes_match finishes_return)

lemma finishes_counted: "finishes (counted n m)"
  unfolding counted_def by (intro finishes_match finishes_return)

lemma finishes_if: "finishes m \<Longrightarrow> finishes m' \<Longrightarrow> finishes (if b then m else m')"
  and finishes_option: "finishes n \<Longrightarrow> (\<And>x. finishes (s x)) \<Longrightarrow> finishes (case p of None \<Rightarrow> n | Some x \<Rightarrow> s x)"
  and finishes_prod: "(\<And>x y. finishes (g x y)) \<Longrightarrow> finishes (case q of (x, y) \<Rightarrow> g x y)"
  and finishes_sum: "(\<And>e. finishes (n' e)) \<Longrightarrow> (\<And>x. finishes (s' x)) \<Longrightarrow> finishes (case v of Inl e \<Rightarrow> n' e | Inr x \<Rightarrow> s' x)"
  by (simp_all split: option.splits prod.splits sum.splits)

lemma finishes_walk: "finishes (walk f)"
  by (simp add: finishes_def walk_def split: prod.splits option.splits)

lemma sweep_finishes: "finishes (sweep_task A now)"
  unfolding sweep_task_def reconcile_def sweep_post_grace_def expire_holder_def expire_due_def sweep_grants_def
    drop_expired_def sweep_incoming_def drop_orphan_incoming_def incoming_on_disk_def sweep_claimed_def check_claimed_def
    sweep_records_def drop_records_def carry_over_def adopt_unrecorded_def adopt_holder_def
    sweep_lapse_rows_def refresh_row_def retire_row_def sweep_orphans_def drop_orphan_snapshot_def
    retained_on_disk_def sweep_metadata_def Let_def
  by (intro finishes_return finishes_get finishes_bind finishes_match finishes_fold finishes_or_else finishes_counted
    finishes_if finishes_option finishes_prod finishes_sum finishes_walk)

end
