(* ===== verification/Migrate.thy ===== *)
theory Migrate
  imports Store
begin

text \<open>
  \<open>Store::open\<close> and its migrations (\<open>store.rs\<close>).  A database file of an earlier version is a
  table of columns and rows; the two tables whose shape has changed are modelled that way, a column
  that a row leaves undefined being \<open>NULL\<close>.  The facts: opening keeps every outcome and every
  running grace window, opening twice is opening once, and a database that the current version wrote
  is left as it is.
\<close>

section \<open>Tables of any shape\<close>

type_synonym sql_row = "string \<rightharpoonup> string"

record sql_table =
  tb_columns :: "string list"
  tb_rows :: "sql_row list"

record database =
  db_outcomes :: "sql_table option"
  db_lapse :: "sql_table option"

text \<open>\<open>PRAGMA table_info\<close>: no columns where there is no table.\<close>

definition table_info :: "sql_table option \<Rightarrow> string list" where
  "table_info t = (case t of None \<Rightarrow> [] | Some u \<Rightarrow> tb_columns u)"

definition outcome_columns :: "string list" where
  "outcome_columns = [''operation_id'', ''holder_handle'', ''subject'', ''status'', ''receipt_ids'', ''recorded_at'']"

definition lapse_columns :: "string list" where
  "lapse_columns = [''holder_handle'', ''lapsed_at'', ''grace_expires_at'', ''post_grace_action'']"

section \<open>The migrations\<close>

definition retire_old_lapse_state :: "database \<Rightarrow> database" where
  "retire_old_lapse_state d =
     (let columns = table_info (db_lapse d) in
      if columns \<noteq> [] \<and> ''post_grace_action'' \<notin> set columns then d\<lparr>db_lapse := None\<rparr> else d)"

text \<open>\<open>CREATE TABLE IF NOT EXISTS\<close>.\<close>

definition create_missing :: "string list \<Rightarrow> sql_table option \<Rightarrow> sql_table" where
  "create_missing columns t = (case t of None \<Rightarrow> \<lparr>tb_columns = columns, tb_rows = []\<rparr> | Some u \<Rightarrow> u)"

definition copied_outcome :: "sql_row \<Rightarrow> sql_row" where
  "copied_outcome r = (\<lambda>column.
     if column = ''subject'' then r ''digest''
     else if column \<in> {''operation_id'', ''holder_handle'', ''status'', ''recorded_at''} then r column else None)"

text \<open>
  The rebuild fails, as a whole, where the old table lacks a column it selects, or a row breaks
  \<open>NOT NULL\<close> or the primary key of the new one.
\<close>

definition rebuild_outcomes :: "sql_table \<Rightarrow> fail + sql_table" where
  "rebuild_outcomes t =
     (let copied = map copied_outcome (tb_rows t) in
      if set [''operation_id'', ''holder_handle'', ''digest'', ''status'', ''recorded_at''] \<subseteq> set (tb_columns t) \<and>
        list_all (\<lambda>r. list_all (\<lambda>column. r column \<noteq> None)
          [''operation_id'', ''holder_handle'', ''subject'', ''status'', ''recorded_at'']) copied \<and>
        keyed (\<lambda>r. (r ''holder_handle'', r ''operation_id'')) copied
      then Inr \<lparr>tb_columns = outcome_columns, tb_rows = copied\<rparr>
      else Inl (internal ''sqlite''))"

definition relabelled :: "sql_row \<Rightarrow> sql_row" where
  "relabelled r = (if r ''status'' = Some ''erased'' then r(''status'' \<mapsto> ''erasure_acknowledged'') else r)"

definition migrate_operation_outcomes :: "sql_table \<Rightarrow> fail + sql_table" where
  "migrate_operation_outcomes t =
     (let has_subject = ''subject'' \<in> set (tb_columns t);
          has_digest = ''digest'' \<in> set (tb_columns t);
          has_receipt_ids = ''receipt_ids'' \<in> set (tb_columns t)
      in
      and_then
        (if \<not> has_subject \<and> has_digest then rebuild_outcomes t
         else if has_subject \<and> \<not> has_receipt_ids
         then Inr \<lparr>tb_columns = tb_columns t @ [''receipt_ids''], tb_rows = map (\<lambda>r. r(''receipt_ids'' := None)) (tb_rows t)\<rparr>
         else Inr t) (\<lambda>u.
      and_then (guard_or (internal ''sqlite'') (''status'' \<in> set (tb_columns u))) (\<lambda>_.
        Inr (u\<lparr>tb_rows := map relabelled (tb_rows u)\<rparr>))))"

definition migrate :: "database \<Rightarrow> fail + database" where
  "migrate d =
     (let d1 = retire_old_lapse_state d;
          lapse = create_missing lapse_columns (db_lapse d1)
      in
      and_then (migrate_operation_outcomes (create_missing outcome_columns (db_outcomes d1))) (\<lambda>outcomes.
        Inr \<lparr>db_outcomes = Some outcomes, db_lapse = Some lapse\<rparr>))"

section \<open>The current shape\<close>

definition outcome_cells :: "outcome_row \<Rightarrow> sql_row" where
  "outcome_cells r =
     [''operation_id'' \<mapsto> oc_operation r, ''holder_handle'' \<mapsto> oc_holder r, ''subject'' \<mapsto> oc_subject r,
      ''status'' \<mapsto> oc_status r, ''recorded_at'' \<mapsto> oc_recorded_at r](''receipt_ids'' := oc_receipt_ids r)"

definition lapse_cells :: "lapse_row \<Rightarrow> sql_row" where
  "lapse_cells r =
     [''holder_handle'' \<mapsto> lp_holder r, ''lapsed_at'' \<mapsto> lp_lapsed_at r,
      ''grace_expires_at'' \<mapsto> lp_grace_expires_at r, ''post_grace_action'' \<mapsto> lp_post_grace_action r]"

definition database_of :: "store \<Rightarrow> database" where
  "database_of s =
     \<lparr>db_outcomes = Some \<lparr>tb_columns = outcome_columns, tb_rows = map outcome_cells (t_outcomes s)\<rparr>,
      db_lapse = Some \<lparr>tb_columns = lapse_columns, tb_rows = map lapse_cells (t_lapse s)\<rparr>\<rparr>"

text \<open>The word an earlier version used for an acknowledged erasure is not written any more.\<close>

definition outcomes_current :: "store \<Rightarrow> bool" where
  "outcomes_current s \<longleftrightarrow> (\<forall>r \<in> set (t_outcomes s). oc_status r \<noteq> ''erased'')"

lemma migrate_current: "outcomes_current s \<Longrightarrow> migrate (database_of s) = Inr (database_of s)"
proof -
  assume s: "outcomes_current s"
  have "relabelled (outcome_cells r) = outcome_cells r" if "r \<in> set (t_outcomes s)" for r
    using that s by (simp add: relabelled_def outcome_cells_def outcomes_current_def)
  then have "map (relabelled \<circ> outcome_cells) (t_outcomes s) = map outcome_cells (t_outcomes s)" by simp
  then show ?thesis
    by (simp add: migrate_def database_of_def retire_old_lapse_state_def table_info_def create_missing_def
        migrate_operation_outcomes_def outcome_columns_def lapse_columns_def Let_def)
qed

section \<open>Earlier shapes\<close>

text \<open>An outcome of the first shape, and what becomes of it.\<close>

definition first_cells :: "outcome_row \<Rightarrow> sql_row" where
  "first_cells r =
     [''operation_id'' \<mapsto> oc_operation r, ''holder_handle'' \<mapsto> oc_holder r, ''digest'' \<mapsto> oc_subject r,
      ''status'' \<mapsto> oc_status r, ''recorded_at'' \<mapsto> oc_recorded_at r]"

definition upgraded :: "outcome_row \<Rightarrow> outcome_row" where
  "upgraded r = r\<lparr>oc_receipt_ids := None,
     oc_status := (if oc_status r = ''erased'' then ''erasure_acknowledged'' else oc_status r)\<rparr>"

lemma copied_first: "relabelled (copied_outcome (first_cells r)) = outcome_cells (upgraded r)"
  by (auto simp: relabelled_def copied_outcome_def first_cells_def outcome_cells_def upgraded_def fun_eq_iff)

lemma upgrade_keeps_outcomes:
  assumes "keyed oc_key rows" "set columns = {''operation_id'', ''holder_handle'', ''digest'', ''status'', ''recorded_at''}"
  shows "migrate_operation_outcomes \<lparr>tb_columns = columns, tb_rows = map first_cells rows\<rparr> =
    Inr \<lparr>tb_columns = outcome_columns, tb_rows = map (outcome_cells \<circ> upgraded) rows\<rparr>"
proof -
  let ?key = "\<lambda>r :: sql_row. (r ''holder_handle'', r ''operation_id'')"
  have key: "?key (copied_outcome (first_cells r)) = (\<lambda>(h, i). (Some h, Some i)) (oc_key r)" for r
    by (simp add: copied_outcome_def first_cells_def oc_key_def)
  have "inj (\<lambda>(h :: string, i :: string). (Some h, Some i))" by (auto intro: injI)
  then have "distinct (map (\<lambda>(h, i). (Some h, Some i)) (map oc_key rows))"
    using assms(1) unfolding keyed_def distinct_map by (meson inj_on_subset subset_UNIV)
  then have "keyed ?key (map (copied_outcome \<circ> first_cells) rows)"
    by (simp add: keyed_def comp_def key)
  moreover have "list_all (\<lambda>r. list_all (\<lambda>column. r column \<noteq> None)
      [''operation_id'', ''holder_handle'', ''subject'', ''status'', ''recorded_at'']) (map (copied_outcome \<circ> first_cells) rows)"
    by (simp add: list_all_iff copied_outcome_def first_cells_def)
  ultimately show ?thesis
    using assms(2)
    by (simp add: migrate_operation_outcomes_def rebuild_outcomes_def outcome_columns_def comp_def copied_first Let_def)
qed

text \<open>Opening twice is opening once.\<close>

lemma relabelled_twice [simp]: "relabelled (relabelled r) = relabelled r"
  by (simp add: relabelled_def)

lemma rebuilt_columns: "rebuild_outcomes t = Inr u \<Longrightarrow> tb_columns u = outcome_columns"
  by (auto simp: rebuild_outcomes_def Let_def split: if_splits)

lemma relabelled_map [simp]: "map (relabelled \<circ> relabelled) rows = map relabelled rows"
  by simp

lemma settled_outcomes:
  assumes "''subject'' \<in> set (tb_columns u) \<longrightarrow> ''receipt_ids'' \<in> set (tb_columns u)"
    "''digest'' \<in> set (tb_columns u) \<longrightarrow> ''subject'' \<in> set (tb_columns u)"
    "''status'' \<in> set (tb_columns u)"
  shows "migrate_operation_outcomes (u\<lparr>tb_rows := map relabelled rows\<rparr>) = Inr (u\<lparr>tb_rows := map relabelled rows\<rparr>)"
  using assms by (auto simp: migrate_operation_outcomes_def Let_def)

lemma migrated_outcomes:
  assumes "migrate_operation_outcomes t = Inr u" shows "migrate_operation_outcomes u = Inr u"
proof -
  let ?step = "if ''subject'' \<notin> set (tb_columns t) \<and> ''digest'' \<in> set (tb_columns t) then rebuild_outcomes t
     else if ''subject'' \<in> set (tb_columns t) \<and> ''receipt_ids'' \<notin> set (tb_columns t)
     then Inr \<lparr>tb_columns = tb_columns t @ [''receipt_ids''], tb_rows = map (\<lambda>r. r(''receipt_ids'' := None)) (tb_rows t)\<rparr>
     else Inr t"
  obtain v where v: "?step = Inr v" "''status'' \<in> set (tb_columns v)" and u: "u = v\<lparr>tb_rows := map relabelled (tb_rows v)\<rparr>"
    using assms unfolding migrate_operation_outcomes_def Let_def and_then_Inr_iff guard_or_simps by auto
  have "''subject'' \<in> set (tb_columns v) \<longrightarrow> ''receipt_ids'' \<in> set (tb_columns v)"
    "''digest'' \<in> set (tb_columns v) \<longrightarrow> ''subject'' \<in> set (tb_columns v)"
    using v(1) by (auto split: if_splits dest: rebuilt_columns simp: outcome_columns_def)
  with v(2) show ?thesis unfolding u by (intro settled_outcomes)
qed

lemma migrate_twice:
  assumes "migrate d = Inr d'" shows "migrate d' = Inr d'"
proof -
  obtain outcomes lapse where d': "d' = \<lparr>db_outcomes = Some outcomes, db_lapse = Some lapse\<rparr>"
    and o: "migrate_operation_outcomes outcomes = Inr outcomes"
    and l: "lapse = create_missing lapse_columns (db_lapse (retire_old_lapse_state d))"
    using assms by (auto simp: migrate_def Let_def dest: migrated_outcomes)
  have "tb_columns lapse = [] \<or> ''post_grace_action'' \<in> set (tb_columns lapse)"
    unfolding l by (auto simp: retire_old_lapse_state_def create_missing_def lapse_columns_def table_info_def split: option.splits)
  then have "retire_old_lapse_state d' = d'"
    by (auto simp: d' retire_old_lapse_state_def table_info_def)
  then show ?thesis by (simp add: migrate_def d' o create_missing_def)
qed

text \<open>A lapse table of the current shape, which holds the running windows, is not touched.\<close>

lemma grace_windows_kept:
  "migrate d = Inr d' \<Longrightarrow> db_lapse d = Some t \<Longrightarrow> ''post_grace_action'' \<in> set (tb_columns t) \<Longrightarrow> db_lapse d' = Some t"
  by (auto simp: migrate_def retire_old_lapse_state_def table_info_def create_missing_def Let_def)

end
