(* ===== verification/Schema.thy ===== *)
theory Schema
  imports Sweep_Facts Migrate
begin

text \<open>
  The schema of the tables that \<open>Soundness\<close> leaves out, the expiry texts of the stored
  credentials, and the revocation epoch in force: an invariant of every request, poll, sweep and
  boot, under every fault schedule.
\<close>

section \<open>The other tables\<close>

definition tables_ok :: "crates \<Rightarrow> store \<Rightarrow> bool" where
  "tables_ok X s \<longleftrightarrow>
     keyed cov_key (t_coverage s) \<and> keyed ent_id (t_entitlements s) \<and> keyed nc_key (t_nonces s) \<and>
     keyed lp_holder (t_lapse s) \<and> keyed ep_epoch (t_epochs s) \<and> rows_stamped X s \<and> outcomes_current s"

text \<open>The epoch in force is one that verified against the issuers this process pins.\<close>

definition authentic :: "app \<Rightarrow> world \<Rightarrow> bool" where
  "authentic A w \<longleftrightarrow> (\<forall>e at. epoch w = Some (e, at) \<longrightarrow> parse_epoch A (e_raw e) = Inr e)"

definition schema_ok :: "app \<Rightarrow> world \<Rightarrow> bool" where
  "schema_ok A w \<longleftrightarrow> tables_ok (lib A) (store w) \<and> authentic A w"

text \<open>What that means, without the parser.\<close>

definition epoch_signed :: "app \<Rightarrow> epoch \<Rightarrow> bool" where
  "epoch_signed A e \<longleftrightarrow>
     (\<exists>document signed sig64 sig reference key.
        json_parse (lib A) (e_raw e) = Some document \<and> jget document ''signature'' = Some (JStr sig64) \<and>
        b64_decode (lib A) sig64 = Some sig \<and> canonical_bytes document [''signature''] = Inr signed \<and>
        reference \<in> set (entitlement_issuers (cfg A)) \<and> issuer_key (lib A) reference = Inr key \<and>
        ed_verify (lib A) key signed sig)"

lemma authentic_signed: "authentic A w \<Longrightarrow> epoch w = Some (e, at) \<Longrightarrow> epoch_signed A e"
  using parse_epoch_signed unfolding authentic_def epoch_signed_def by blast

lemma schema_data: "data_pred (schema_ok A)"
  by (auto simp: data_pred_def same_data_def schema_ok_def authentic_def)

lemma schema_store: "schema_ok A w \<Longrightarrow> tables_ok (lib A) (store w') \<Longrightarrow> epoch w' = epoch w \<Longrightarrow> schema_ok A w'"
  by (simp add: schema_ok_def authentic_def)

lemma schema_execute:
  "(\<And>s. tables_ok (lib A) s \<Longrightarrow> tables_ok (lib A) (snd (f s))) \<Longrightarrow> keeps (schema_ok A) (execute f)"
  by (rule keeps_execute [OF schema_data]) (auto simp: schema_ok_def authentic_def)

lemma schema_statement:
  "(\<And>s. tables_ok (lib A) s \<Longrightarrow> tables_ok (lib A) (f s)) \<Longrightarrow> keeps (schema_ok A) (statement f)"
  unfolding statement_def by (rule schema_execute) simp

lemma schema_quiet: "quiet m \<Longrightarrow> keeps (schema_ok A) m"
  by (rule data_quiet [OF schema_data])

lemma schema_store_only:
  assumes "\<And>w r w'. m w = (r, w') \<Longrightarrow> store w' = store w \<and> epoch w' = epoch w"
  shows "keeps (schema_ok A) m"
  unfolding keeps_def
proof (intro allI impI)
  fix w assume w: "schema_ok A w"
  have "store (snd (m w)) = store w \<and> epoch (snd (m w)) = epoch w" by (rule assms) (rule prod.collapse [symmetric])
  with w show "schema_ok A (snd (m w))" by (simp add: schema_ok_def authentic_def)
qed

section \<open>Every statement\<close>

lemma tables_untouched [simp]:
  "tables_ok X s \<Longrightarrow> st \<noteq> ''erased'' \<Longrightarrow> tables_ok X (record_outcome op h sj st i t s)"
  "tables_ok X s \<Longrightarrow> tables_ok X (drop_upload uid s)"
  "tables_ok X s \<Longrightarrow> tables_ok X (retain u t s)"
  "tables_ok X s \<Longrightarrow> tables_ok X (snd (mark_unavailable h d t s))"
  "tables_ok X s \<Longrightarrow> tables_ok X (snd (sweep_erased_references X t s))"
  "tables_ok X s \<Longrightarrow> tables_ok X (remember_terms tid raw sig t s)"
  by (simp_all add: tables_ok_def rows_stamped_def outcomes_current_def record_outcome_def drop_upload_def retain_def
      Let_def mark_unavailable_def sweep_erased_references_def remember_terms_def set_insert_or_replace)

lemma tables_changed [simp]:
  "tables_ok X s \<Longrightarrow> tables_ok X (snd (forget_lapse_state h s))"
  "tables_ok X s \<Longrightarrow> tables_ok X (record_lapse_state h ls s)"
  "tables_ok X s \<Longrightarrow> tables_ok X (snd (sweep_entitlements X h t s))"
  "tables_ok X s \<Longrightarrow> tables_ok X (snd (sweep_superseded_entitlements X t s))"
  "tables_ok X s \<Longrightarrow> tables_ok X (snd (sweep_outcomes_and_receipts X a b s))"
  "tables_ok X s \<Longrightarrow> tables_ok X (snd (sweep_nonces X t s))"
  "tables_ok X s \<Longrightarrow> tables_ok X (snd (record_nonce h n t s))"
  "tables_ok X s \<Longrightarrow> tables_ok X (insert_epoch k t raw s)"
  "tables_ok X s \<Longrightarrow> tables_ok X (s\<lparr>t_epochs := delete_where p (t_epochs s)\<rparr>)"
  "tables_ok X s \<Longrightarrow> rfc_format X x = Some b \<Longrightarrow> tables_ok X (insert_entitlement h v a b t s)"
  by (auto simp: tables_ok_def rows_stamped_def outcomes_current_def forget_lapse_state_def record_lapse_state_def sweep_entitlements_def
      sweep_superseded_entitlements_def sweep_outcomes_and_receipts_def sweep_nonces_def record_nonce_def
      insert_epoch_def insert_entitlement_def set_insert_or_replace Let_def)

lemma tables_erasure [simp]: "tables_ok X s \<Longrightarrow> tables_ok X (commit_erasure Y h scope ds ms op at s)"
proof -
  have cov: "keyed cov_key c \<Longrightarrow> keyed cov_key (fold (\<lambda>d. insert_or_ignore cov_key (f d)) ds c)" for f :: "string \<Rightarrow> coverage_row" and ds c
    by (induction ds arbitrary: c) simp_all
  have "tables_ok X s \<Longrightarrow> tables_ok X (insert_receipt h scope at m s)" for m s
    by (simp add: tables_ok_def rows_stamped_def outcomes_current_def insert_receipt_def cov)
  then have 1: "tables_ok X s \<Longrightarrow> tables_ok X (fold (insert_receipt h scope at) ms s)" for s
    by (induction ms arbitrary: s) simp_all
  have "tables_ok X s \<Longrightarrow> tables_ok X (mark_erased h at d s)" for d s
    by (simp add: tables_ok_def rows_stamped_def outcomes_current_def mark_erased_def)
  then have "tables_ok X s \<Longrightarrow> tables_ok X (fold (mark_erased h at) ds s)" for s
    by (induction ds arbitrary: s) simp_all
  then show "tables_ok X s \<Longrightarrow> tables_ok X (commit_erasure Y h scope ds ms op at s)"
    using 1 by (simp add: commit_erasure_def)
qed

section \<open>Every handler\<close>

lemma keeps_lift_bind: "(\<And>x. r = Inr x \<Longrightarrow> keeps I (f x)) \<Longrightarrow> keeps I (bindE (liftE r) f)"
  by (auto simp: keeps_def bindE_run liftE_run split: sum.splits)

lemma schema_disk:
  "keeps (schema_ok A) (discard_upload root uid)" "keeps (schema_ok A) (erase_blob root h hex)"
  "keeps (schema_ok A) (write_chunk root uid i b)" "keeps (schema_ok A) (commit_blob X root uid h hex n size_bytes)"
  by (rule schema_store_only; drule discard_upload_spec erase_blob_spec write_chunk_spec commit_blob_spec;
      simp add: same_store_def)+

lemma schema_begin: "keeps (schema_ok A) (begin_incoming root uid)"
proof -
  have "keeps (schema_ok A) (set_disk f)" for f
    unfolding set_disk_def by (rule keeps_modify) (simp add: schema_ok_def authentic_def)
  then show ?thesis
    unfolding begin_incoming_def by (intro keeps_bind schema_quiet [OF quiet_io(1)] schema_quiet [OF quiet_io(2)])
qed

lemma schema_register: "keeps (schema_ok A) (register_entitlement (lib A) h v t)"
  unfolding register_entitlement_def
  by (intro keeps_lift_bind keeps_bind schema_statement schema_execute keeps_return) simp_all

lemmas schema_rules = valid_rules keeps_case_prod schema_data schema_quiet [OF quiet_arrival]
  schema_quiet [OF quiet_digest_of] schema_quiet [OF quiet_inspect] schema_disk schema_begin schema_register
  keeps_query [OF schema_data] keeps_select [OF schema_data]

lemma schema_authenticate: "keeps (schema_ok A) (authenticate A hs verb path body now)"
  unfolding authenticate_def by (intro schema_rules schema_execute) simp_all

lemma schema_require: "keeps (schema_ok A) (require A who hs operation now)"
  unfolding require_def evaluate_def by (intro schema_rules)

lemma schema_insert:
  "keeps (schema_ok A) (bindE (query (begin_upload row)) (\<lambda>s. bindE (modifyE (\<lambda>w. w\<lparr>store := s\<rparr>)) (\<lambda>_. returnE x)))"
  unfolding keeps_def
proof (intro allI impI)
  fix w assume w: "schema_ok A w"
  obtain r w1 where r: "query (begin_upload row) w = (r, w1)" by (cases "query (begin_upload row) w")
  have same: "same_data w w1" "r = begin_upload row (store w) \<or> r = Inl (internal ''sqlite'')"
    using query_same [OF r] by simp_all
  have "schema_ok A w1" using w data_predD [OF schema_data same(1)] by blast
  moreover have "tables_ok (lib A) s" if "r = Inr s" for s
    using that same w by (auto simp: begin_upload_def schema_ok_def tables_ok_def rows_stamped_def outcomes_current_def split: if_splits)
  ultimately show "schema_ok A (snd (bindE (query (begin_upload row))
      (\<lambda>s. bindE (modifyE (\<lambda>w. w\<lparr>store := s\<rparr>)) (\<lambda>_. returnE x)) w))"
    by (auto simp: bindE_run r modifyE_run returnE_run schema_ok_def authentic_def split: sum.split)
qed

lemma schema_request: "keeps (schema_ok A) (handle_request A req c)"
proof -
  note parts = schema_rules schema_authenticate schema_require schema_insert schema_statement schema_execute
  have grant: "keeps (schema_ok A) (resume_grant A u n)" "keeps (schema_ok A) (new_grant A who hs q now t uid)" for u n who hs q now t uid
    unfolding resume_grant_def new_grant_def mint_grant_def Let_def by (intro parts; simp)+
  have place: "keeps (schema_ok A) (commit_verify A u)" "keeps (schema_ok A) (commit_place A u hex now)" for u hex now
    unfolding commit_verify_def commit_place_def commit_quota_def abandon_def Let_def by (intro parts; simp)+
  have erase: "keeps (schema_ok A) (erase_again A who q at)" "keeps (schema_ok A) (erase_targets A who q targets at ids)"
    "keeps (schema_ok A) (unlink_erased A h doomed)" for who q at targets ids h doomed
    unfolding erase_again_def erase_targets_def unlink_erased_def Let_def by (intro parts; simp)+
  have stream: "keeps (schema_ok A) (download_open A who row d now)" "keeps (schema_ok A) (export_open A who row d now)" for who row d now
    unfolding download_open_def export_open_def expire_missing_def by (intro parts; simp)+
  show ?thesis
    unfolding handle_request_def Let_def
  proof (cases req, simp_all only: request.case)
  qed (unfold register_def preflight_def put_chunk_def commit_def commit_lookup_def granted_upload_def
      list_snapshots_def download_def download_lookup_def erase_def export_manifest_def export_receipt_def
      export_snapshot_def export_lookup_def query_operation_def health_def terms_route_def Let_def,
      (intro parts grant place erase stream; simp)+)
qed

section \<open>Polls, sweeps and boots\<close>

lemma parse_epoch_raw: "parse_epoch A raw = Inr e \<Longrightarrow> parse_epoch A (e_raw e) = Inr e"
  using parse_epoch_signed by metis

lemma schema_install: "parse_epoch A raw = Inr e \<Longrightarrow> schema_ok A w \<Longrightarrow> schema_ok A (snd (install_epoch e at w))"
  by (auto simp: schema_ok_def authentic_def install_epoch_def dest: parse_epoch_raw
      split: option.splits prod.splits if_splits)

lemma schema_cache: "keeps (schema_ok A) (cache_epoch n t raw)"
  unfolding cache_epoch_def by (intro keeps_bind schema_statement) simp_all

lemma schema_poll: "keeps (schema_ok A) (poll_epoch A fetched now)"
proof -
  have "keeps (schema_ok A) (\<lambda>v. case install_epoch e at v of (b, v') \<Rightarrow> (Inr b, v'))" if "fetch_epoch A fetched = Inr e" for e at
    using fetched_parsed [OF that] unfolding keeps_def by (auto simp: case_prod_beta intro: schema_install)
  then show ?thesis
    unfolding poll_epoch_def
    by (auto intro!: keeps_bind keeps_if keeps_match keeps_return schema_cache split: sum.splits)
qed

interpretation schema: sweep_invariant "lib A" "schema_ok A" for A
  by unfold_locales (rule schema_data schema_disk schema_statement schema_execute; simp)+

lemma schema_sweep: "keeps (schema_ok A) (sweep_task A now)"
  by (rule schema.keeps_task) simp

lemma schema_restore: "keeps (schema_ok A) (restore_epoch A)"
proof -
  have "keeps (schema_ok A) (modifyE (\<lambda>w. snd (install_epoch e at w)))" if "parse_epoch A raw = Inr e" for raw e at
    by (rule keeps_modify) (rule schema_install [OF that])
  then show ?thesis
    unfolding restore_epoch_def
    by (auto intro!: keeps_match keeps_return keeps_select [OF schema_data] split: option.splits sum.splits)
qed

lemma schema_boot:
  assumes "boot A now w = (Inr (), w')" "tables_ok (lib A) (store w)"
  shows "schema_ok A w'"
proof -
  obtain at w1 where b: "remember_boot_terms A at (w\<lparr>epoch := None\<rparr>) = (Inr (), w1)"
    and r: "(if revocation_url (cfg A) = None then returnE () else restore_epoch A) w1 = (Inr (), w')"
    using assms(1) unfolding boot_def by (auto elim!: bindE_Inr_E simp: liftE_run modifyE_run)
  have "schema_ok A (w\<lparr>epoch := None\<rparr>)" using assms(2) by (simp add: schema_ok_def authentic_def)
  moreover have "keeps (schema_ok A) (remember_boot_terms A at)"
    unfolding remember_boot_terms_def by (rule schema_statement) simp
  ultimately have "schema_ok A w1" using b by (blast intro: keepsD)
  then show ?thesis using r by (auto simp: returnE_run intro: keepsD [OF schema_restore] split: if_splits)
qed

lemma schema_faults [simp]: "schema_ok A (with_faults fs w) = schema_ok A w"
  by (simp add: schema_ok_def authentic_def)

lemma operates_schema: "operates X root A w \<Longrightarrow> schema_ok A w"
proof (induction rule: operates.induct)
  case (Start t env A now fs w)
  have "tables_ok (lib A) (store (with_faults f blank))" for f
    by (simp add: blank_def tables_ok_def rows_stamped_def outcomes_current_def empty_store_def keyed_def)
  with Start show ?case by (blast intro: schema_boot)
next
  case (Restart A w t env B fs now w')
  have "lib B = lib A" using operates_lib [OF Restart(1)] boot_app_Inr [OF Restart(2)] by simp
  with Restart(5) have "tables_ok (lib B) (store (with_faults f w))" for f by (simp add: schema_ok_def)
  with Restart show ?case by (blast intro: schema_boot)
next
  case (Serve A w c req fs answer w')
  then have I: "schema_ok A (with_faults fs w)" by simp
  from Serve(3) show ?case
    by (rule respond_state) (use Serve in simp, rule keepsD [OF schema_request I])
next
  case (Poll A w fetched now fs r w')
  show ?case by (rule keepsD [OF schema_poll _ Poll(2)]) (simp add: Poll(3))
next
  case (Tidy A w now fs s w')
  show ?case by (rule keepsD [OF schema_sweep _ Tidy(2)]) (simp add: Tidy(3))
qed

end
