(* ===== verification/Clearing.thy ===== *)
theory Clearing
  imports Sweep_Facts
begin

text \<open>
  What a sweep that meets no fault achieves: no directory is left without the row it belongs to, and
  no snapshot outlives its overdue window.
\<close>

section \<open>What a sweep that meets no fault clears away\<close>

lemma calm_match: "calm_op m \<Longrightarrow> (\<And>e. calm_op (h e)) \<Longrightarrow> (\<And>x. calm_op (f x)) \<Longrightarrow> calm_op (matchE m h f)"
  unfolding calm_op_def by (auto simp: matchE_run split: prod.splits sum.splits)

lemma calm_fold: "(\<And>x acc. calm_op (f x acc)) \<Longrightarrow> calm_op (foldE f xs acc)"
  by (induction xs arbitrary: acc) (auto intro: calm_bind)

lemma calm_or_else: "calm_op m \<Longrightarrow> calm_op (or_else d m)"
  unfolding or_else_def by (intro calm_match calm_ops)

lemma calm_counted: "calm_op m \<Longrightarrow> calm_op (counted n m)"
  unfolding counted_def by (intro calm_match calm_ops)

lemma discard_calm:
  "faults w = [] \<Longrightarrow> discard_upload root uid w = (Inr (), w\<lparr>disk := dir_remove (incoming_dir root uid) (disk w)\<rparr>)"
  by (simp add: discard_upload_def remove_dir_all_def take_fault_def sync_dir_def run_simps)

lemma walk_calm: "faults w = [] \<Longrightarrow> walk f w = (Inr (f (disk w)), w)"
  by (simp add: walk_def take_fault_def)

lemma calm_disk: "calm_op (discard_upload root uid)" "calm_op (erase_blob root h hex)" "calm_op (walk f)"
  "calm_op (inspect g)"
  by (simp_all add: calm_op_def discard_calm erase_blob_calm walk_calm inspect_def run_simps)

lemma calm_option: "calm_op n \<Longrightarrow> (\<And>x. calm_op (s x)) \<Longrightarrow> calm_op (case p of None \<Rightarrow> n | Some x \<Rightarrow> s x)"
  and calm_sum: "(\<And>e. calm_op (n' e)) \<Longrightarrow> (\<And>x. calm_op (s' x)) \<Longrightarrow> calm_op (case v of Inl e \<Rightarrow> n' e | Inr x \<Rightarrow> s' x)"
  by (simp_all split: option.splits sum.splits)

lemmas calm_rules = calm_ops calm_bind calm_match calm_fold calm_or_else calm_counted calm_if calm_option calm_sum calm_disk

lemma calm_sweep_steps:
  "calm_op (sweep_post_grace X revoked now_at t)" "calm_op (sweep_grants X root t)" "calm_op (sweep_incoming root)"
  "calm_op (sweep_claimed root t)" "calm_op (sweep_records X revoked t)"
  "calm_op (adopt_unrecorded X revoked charges now_at)" "calm_op (sweep_lapse_rows X revoked now_at)"
  "calm_op (sweep_orphans root live_keys)"
  unfolding sweep_post_grace_def expire_holder_def expire_due_def sweep_grants_def drop_expired_def
    sweep_incoming_def drop_orphan_incoming_def incoming_on_disk_def sweep_claimed_def check_claimed_def
    sweep_records_def drop_records_def carry_over_def adopt_unrecorded_def adopt_holder_def
    sweep_lapse_rows_def refresh_row_def retire_row_def sweep_orphans_def drop_orphan_snapshot_def
    retained_on_disk_def Let_def
  by (intro calm_rules)+

text \<open>After the second step every incoming directory has its grant.\<close>

definition incoming_granted :: "string \<Rightarrow> world \<Rightarrow> bool" where
  "incoming_granted root w \<longleftrightarrow>
     (\<forall>uid. dir_lookup (disk w) (incoming_dir root uid) \<noteq> None \<longrightarrow> upload uid (store w) \<noteq> None)"

lemma incoming_ids_complete: "dir_lookup d (incoming_dir root uid) \<noteq> None \<Longrightarrow> uid \<in> set (incoming_ids root d)"
  by (auto simp: dir_lookup_def incoming_ids_def incoming_dir_def map_filter_def dest!: map_of_SomeD intro!: image_eqI)

lemma drop_incoming_calm:
  "faults w = [] \<Longrightarrow> drop_orphan_incoming root uid n w =
     (if upload uid (store w) \<noteq> None then (Inr n, w)
      else (Inr (n + 1), w\<lparr>disk := dir_remove (incoming_dir root uid) (disk w)\<rparr>))"
  by (simp add: drop_orphan_incoming_def matchE_run select_calm discard_calm returnE_run)

lemma drop_incoming_fold:
  assumes "faults w = []"
  shows "\<exists>k. foldE (drop_orphan_incoming root) ids n w = (Inr k, w\<lparr>disk := fold (\<lambda>uid d.
    if upload uid (store w) = None then dir_remove (incoming_dir root uid) d else d) ids (disk w)\<rparr>)"
  using assms
proof (induction ids arbitrary: n w)
  case (Cons uid ids)
  note run = drop_incoming_calm [OF Cons.prems, of root uid n]
  show ?case
  proof (cases "upload uid (store w)")
    case None
    let ?w = "w\<lparr>disk := dir_remove (incoming_dir root uid) (disk w)\<rparr>"
    from Cons.IH [of ?w "n + 1"] Cons.prems None run show ?thesis by (simp add: bindE_run)
  next
    case (Some u)
    from Cons.IH [OF Cons.prems, of n] Some run show ?thesis by (simp add: bindE_run)
  qed
qed (simp add: returnE_run)

lemma drop_incoming_lookup:
  "dir_lookup (fold (\<lambda>uid d. if P uid then dir_remove (incoming_dir root uid) d else d) ids d) (incoming_dir root uid) =
     (if uid \<in> set ids \<and> P uid then None else dir_lookup d (incoming_dir root uid))"
  by (induction ids arbitrary: d) (auto simp: dirs.lookup_remove)

lemma incoming_swept:
  assumes "faults w = []" "sweep_incoming root w = (r, w')"
  shows "incoming_granted root w' \<and> faults w' = []"
proof -
  obtain k where "sweep_incoming root w = (Inr k, w\<lparr>disk := fold (\<lambda>uid d.
      if upload uid (store w) = None then dir_remove (incoming_dir root uid) d else d) (incoming_ids root (disk w)) (disk w)\<rparr>)"
    using drop_incoming_fold [OF assms(1), of root "incoming_ids root (disk w)" 0] assms(1)
    by (auto simp: sweep_incoming_def incoming_on_disk_def bindE_run walk_calm)
  with assms incoming_ids_complete [of "disk w" root] show ?thesis
    by (auto simp: incoming_granted_def drop_incoming_lookup split: if_splits)
qed

text \<open>The later steps open no incoming directory and end no grant.\<close>

lemma granted_data: "data_pred (incoming_granted root)"
  by (auto simp: data_pred_def same_data_def incoming_granted_def)

lemma granted_execute:
  "(\<And>s. t_uploads (snd (f s)) = t_uploads s) \<Longrightarrow> keeps (incoming_granted root) (execute f)"
  by (rule keeps_execute [OF granted_data]) (simp add: incoming_granted_def upload_def)

lemma granted_statement:
  "(\<And>s. t_uploads (f s) = t_uploads s) \<Longrightarrow> keeps (incoming_granted root) (statement f)"
  unfolding statement_def by (rule granted_execute) simp

lemma granted_erase: "keeps (incoming_granted root) (erase_blob root h hex)"
  unfolding keeps_def
proof (intro allI impI)
  fix w :: world assume "incoming_granted root w"
  moreover obtain r w' where e: "erase_blob root h hex w = (r, w')" by fastforce
  moreover have "dir_lookup (disk w') (incoming_dir root uid) = dir_lookup (disk w) (incoming_dir root uid)" for uid
    using erase_blob_spec [OF e] by (simp add: shrunk_def only_at_def)
  moreover have "store w' = store w" using erase_blob_spec [OF e] by (simp add: same_store_def)
  ultimately show "incoming_granted root (snd (erase_blob root h hex w))" by (simp add: incoming_granted_def)
qed

lemma granted_quiet: "quiet m \<Longrightarrow> keeps (incoming_granted root) m"
  by (rule data_quiet [OF granted_data])

lemmas granted_rules = keeps_bind keeps_fold keeps_if keeps_match keeps_return framed_or_else framed_counted
  keeps_option keeps_sum keeps_case_prod keeps_query [OF granted_data] keeps_select [OF granted_data]
  granted_quiet [OF quiet_inspect] granted_quiet [OF quiet_walk] granted_erase granted_statement granted_execute

lemma granted_steps:
  "keeps (incoming_granted root) (sweep_claimed root t)" "keeps (incoming_granted root) (sweep_records X revoked t)"
  "keeps (incoming_granted root) (adopt_unrecorded X revoked charges now_at)"
  "keeps (incoming_granted root) (sweep_lapse_rows X revoked now_at)"
  "keeps (incoming_granted root) (sweep_orphans root live_keys)"
  "keeps (incoming_granted root) (sweep_metadata X limits counts)"
  unfolding sweep_claimed_def check_claimed_def
    sweep_records_def drop_records_def carry_over_def adopt_unrecorded_def adopt_holder_def
    sweep_lapse_rows_def refresh_row_def retire_row_def sweep_orphans_def drop_orphan_snapshot_def
    retained_on_disk_def sweep_metadata_def Let_def
  by (intro granted_rules; simp add: mark_unavailable_def forget_lapse_state_def record_lapse_state_def
      sweep_entitlements_def sweep_superseded_entitlements_def sweep_nonces_def sweep_outcomes_and_receipts_def
      sweep_erased_references_def Let_def)+

section \<open>Snapshot directories\<close>

definition directories_live :: "string \<Rightarrow> world \<Rightarrow> bool" where
  "directories_live root w \<longleftrightarrow> (\<forall>h hex. dir_lookup (disk w) (snapshot_dir root h hex) \<noteq> None \<longrightarrow>
     snapshot_exists h (''sha256:'' @ hex) (store w))"

lemma retained_paths_complete:
  "dir_lookup d (snapshot_dir root h hex) \<noteq> None \<Longrightarrow> (h, hex) \<in> set (retained_paths root d)"
proof -
  assume "dir_lookup d (snapshot_dir root h hex) \<noteq> None"
  then obtain fs where "([root, take 2 h, h, hex], fs) \<in> set d"
    by (auto simp: dir_lookup_def snapshot_dir_def holder_dir_def dest!: map_of_SomeD)
  moreover have "take 2 h \<noteq> ''incoming''"
  proof
    assume "take 2 h = ''incoming''"
    then have "length (take 2 h) = 8" by simp
    then show False by simp
  qed
  ultimately show ?thesis
    by (force simp: retained_paths_def map_filter_def image_iff)
qed

text \<open>What a live key of the list stands for.\<close>

definition listed_live :: "(string \<times> string) list \<Rightarrow> store \<Rightarrow> bool" where
  "listed_live live_keys s \<longleftrightarrow> (\<forall>(h, hex) \<in> set live_keys. snapshot_exists h (''sha256:'' @ hex) s)"

lemma all_retained_live:
  assumes "sound A w"
  shows "listed_live (all_retained_keys (store w)) (store w)"
  unfolding listed_live_def all_retained_keys_def
proof clarsimp
  fix r assume r: "r \<in> set (t_snapshots (store w))" "live r"
  obtain hex where "digest_hex (snap_digest r) = Inr hex"
    using sound_row_intact [OF assms r] by (auto simp: row_intact_def)
  from digest_hex_Inr [OF this] r show "snapshot_exists (snap_holder r) (CHR ''s'' # CHR ''h'' # CHR ''a'' # CHR ''2'' #
      CHR ''5'' # CHR ''6'' # CHR '':'' # strip_sha (snap_digest r)) (store w)"
    by (auto simp: snapshot_exists_iff strip_sha_def)
qed

lemma drop_snapshot_calm:
  "faults w = [] \<Longrightarrow> listed_live live_keys (store w) \<Longrightarrow> \<exists>k. drop_orphan_snapshot root live_keys found n w =
     (Inr k, if snapshot_exists (fst found) (''sha256:'' @ snd found) (store w) then w
      else w\<lparr>disk := dir_remove (snapshot_dir root (fst found) (snd found)) (disk w)\<rparr>)"
  by (cases found) (fastforce simp: drop_orphan_snapshot_def matchE_run select_calm erase_blob_calm returnE_run listed_live_def)

lemma drop_snapshot_fold:
  assumes "faults w = []" "listed_live live_keys (store w)"
  shows "\<exists>k. foldE (drop_orphan_snapshot root live_keys) found n w = (Inr k, w\<lparr>disk := fold (\<lambda>p d.
    if snapshot_exists (fst p) (''sha256:'' @ snd p) (store w) then d
    else dir_remove (snapshot_dir root (fst p) (snd p)) d) found (disk w)\<rparr>)"
  using assms
proof (induction found arbitrary: n w)
  case (Cons p found)
  obtain k where run: "drop_orphan_snapshot root live_keys p n w =
     (Inr k, if snapshot_exists (fst p) (''sha256:'' @ snd p) (store w) then w
      else w\<lparr>disk := dir_remove (snapshot_dir root (fst p) (snd p)) (disk w)\<rparr>)"
    using drop_snapshot_calm [OF Cons.prems] by blast
  show ?case
  proof (cases "snapshot_exists (fst p) (''sha256:'' @ snd p) (store w)")
    case True
    from Cons.IH [OF Cons.prems, of k] run [unfolded if_P [OF True]] True show ?thesis
      by (simp add: bindE_run del: append_Cons)
  next
    case False
    let ?w = "w\<lparr>disk := dir_remove (snapshot_dir root (fst p) (snd p)) (disk w)\<rparr>"
    from Cons.IH [of ?w k] Cons.prems run [unfolded if_not_P [OF False]] False show ?thesis
      by (simp add: bindE_run del: append_Cons)
  qed
qed (simp add: returnE_run)

lemma drop_snapshot_lookup:
  "dir_lookup (fold (\<lambda>p d. if P p then d else dir_remove (snapshot_dir root (fst p) (snd p)) d) found d)
      (snapshot_dir root h hex) =
     (if (h, hex) \<in> set found \<and> \<not> P (h, hex) then None else dir_lookup d (snapshot_dir root h hex))"
  by (induction found arbitrary: d) (auto simp: dirs.lookup_remove)

lemma orphans_swept:
  assumes "faults w = []" "listed_live live_keys (store w)" "sweep_orphans root live_keys w = (r, w')"
  shows "directories_live root w'"
proof -
  let ?P = "\<lambda>p. snapshot_exists (fst p) (''sha256:'' @ snd p) (store w)"
  obtain k where k: "foldE (drop_orphan_snapshot root live_keys) (retained_paths root (disk w)) 0 w =
      (Inr k, w\<lparr>disk := fold (\<lambda>p d. if ?P p then d else dir_remove (snapshot_dir root (fst p) (snd p)) d)
        (retained_paths root (disk w)) (disk w)\<rparr>)"
    using drop_snapshot_fold [OF assms(1,2)] by blast
  have "w' = w\<lparr>disk := fold (\<lambda>p d. if ?P p then d else dir_remove (snapshot_dir root (fst p) (snd p)) d)
        (retained_paths root (disk w)) (disk w)\<rparr>"
    using assms(1,3) k by (simp only: sweep_orphans_def retained_on_disk_def bindE_run walk_calm) simp
  then show ?thesis
    using drop_snapshot_lookup [of ?P root "retained_paths root (disk w)" "disk w"]
      retained_paths_complete [of "disk w" root]
    unfolding directories_live_def by (simp del: append_Cons)
qed

lemma directories_metadata: "keeps (directories_live root) (sweep_metadata X limits counts)"
proof -
  have data: "data_pred (directories_live root)"
    by (auto simp: data_pred_def same_data_def directories_live_def)
  have step: "keeps (directories_live root) (execute f)"
    if "\<And>s h d. snapshot_exists h d s \<Longrightarrow> snapshot_exists h d (snd (f s))" for f :: "store \<Rightarrow> 'b \<times> store"
    by (rule keeps_execute [OF data]) (use that in \<open>auto simp: directories_live_def\<close>)
  have "snapshot_exists h d (snd (sweep_erased_references X t s))" if "snapshot_exists h d s" for t s h d
    using that by (force simp: snapshot_exists_iff sweep_erased_references_def live_def Let_def)
  then show ?thesis
    unfolding sweep_metadata_def
    by (intro keeps_bind keeps_case_prod keeps_return framed_or_else step;
      simp add: snapshot_exists_iff sweep_nonces_def sweep_outcomes_and_receipts_def Let_def)
qed

section \<open>The whole pass\<close>

lemma valid_keeps: "keeps I m \<Longrightarrow> valid I m (\<lambda>_. I) (\<lambda>_ _. True)"
  unfolding keeps_valid by (erule valid_conseq) simp_all

lemma valid_both:
  "keeps I m \<Longrightarrow> calm_op m \<Longrightarrow> keeps J m \<Longrightarrow>
     valid (\<lambda>w. I w \<and> faults w = [] \<and> J w) m (\<lambda>_ w. I w \<and> faults w = [] \<and> J w) (\<lambda>_ _. True)"
  by (rule valid_keeps) (auto simp: keeps_def calm_op_def)

lemma sweep_clears:
  "valid (\<lambda>w. sound A w \<and> faults w = []) (reconcile (lib A) (blob_root (cfg A)) revoked charges at limits)
     (\<lambda>_ w. incoming_granted (blob_root (cfg A)) w \<and> directories_live (blob_root (cfg A)) w) (\<lambda>_ _. True)"
proof -
  let ?root = "blob_root (cfg A)" and ?X = "lib A"
  let ?S = "\<lambda>w. sound A w \<and> faults w = []" and ?T = "\<lambda>w. sound A w \<and> faults w = [] \<and> incoming_granted (blob_root (cfg A)) w"
  let ?D = "\<lambda>w. incoming_granted (blob_root (cfg A)) w \<and> directories_live (blob_root (cfg A)) w"
  have first: "valid ?S m (\<lambda>_. ?S) (\<lambda>_ _. True)" if "keeps (sound A) m" "calm_op m" for m :: "int op"
    by (rule valid_keeps) (use that in \<open>auto simp: keeps_def calm_op_def\<close>)
  have incoming: "valid ?S (sweep_incoming ?root) (\<lambda>_. ?T) (\<lambda>_ _. True)"
  proof (rule validI)
    fix w x w' assume "?S w" "sweep_incoming ?root w = (Inr x, w')"
    then show "?T w'" using incoming_swept keepsD [OF sound.keeps_incoming] by blast
  qed simp
  have listing: "valid ?T (matchE (select all_retained_keys) h f) (\<lambda>_. ?D) (\<lambda>_ _. True)"
    if "\<And>live_keys. valid (\<lambda>w. ?T w \<and> listed_live live_keys (store w)) (f live_keys) (\<lambda>_. ?D) (\<lambda>_ _. True)" for h and f :: "_ \<Rightarrow> swept op"
  proof (rule validI)
    fix w x w' assume w: "?T w" "matchE (select all_retained_keys) h f w = (Inr x, w')"
    then have "f (all_retained_keys (store w)) w = (Inr x, w')" by (simp add: matchE_run select_calm)
    then show "?D w'" by (rule validD [OF that, rotated]) (use w(1) all_retained_live in blast)
  qed simp
  have orphans: "valid (\<lambda>w. ?T w \<and> listed_live live_keys (store w)) (sweep_orphans ?root live_keys) (\<lambda>_. ?D) (\<lambda>_ _. True)" for live_keys
  proof (rule validI)
    fix w x w' assume "?T w \<and> listed_live live_keys (store w)" "sweep_orphans ?root live_keys w = (Inr x, w')"
    then show "?D w'" using orphans_swept keepsD [OF granted_steps(5)] by blast
  qed simp
  have metadata: "valid ?D (sweep_metadata ?X limits counts) (\<lambda>_. ?D) (\<lambda>_ _. True)" for counts
    by (rule valid_keeps) (use granted_steps(6) directories_metadata in \<open>auto simp: keeps_def\<close>)
  note middle = valid_both [OF sound.keeps_claimed calm_sweep_steps(4) granted_steps(1)]
    valid_both [OF sound.keeps_records calm_sweep_steps(5) granted_steps(2)]
    valid_both [OF sound.keeps_adopt calm_sweep_steps(6) granted_steps(3)]
    valid_both [OF sound.keeps_lapse_rows calm_sweep_steps(7) granted_steps(4)]
  show ?thesis
    unfolding reconcile_def Let_def
    by (rule valid_bind [OF first [OF sound.keeps_post_grace calm_sweep_steps(1)]],
        rule valid_bind [OF first [OF sound.keeps_grants calm_sweep_steps(2)]],
        rule valid_bind [OF incoming], rule valid_bind [OF middle(1)], rule valid_bind [OF middle(2)],
        rule valid_bind [OF middle(3)], rule valid_bind [OF middle(4)], rule listing,
        rule valid_bind [OF orphans], rule metadata)
qed

section \<open>Overdue snapshots do expire\<close>

definition gone :: "string \<Rightarrow> string \<Rightarrow> world \<Rightarrow> bool" where
  "gone h d w \<longleftrightarrow> \<not> snapshot_exists h d (store w)"

lemma gone_data: "data_pred (gone h d)"
  by (auto simp: data_pred_def same_data_def gone_def)

lemma gone_execute:
  "(\<And>s. snapshot_exists h d (snd (f s)) \<Longrightarrow> snapshot_exists h d s) \<Longrightarrow> keeps (gone h d) (execute f)"
  by (rule keeps_execute [OF gone_data]) (auto simp: gone_def)

lemma gone_disk: "keeps (gone h d) (discard_upload root uid)" "keeps (gone h d) (erase_blob root g hex)"
  unfolding keeps_def gone_def
  by (metis discard_upload_spec erase_blob_spec prod.collapse same_store_def)+

interpretation gone: sweep_invariant X "gone h d" for X h d
  by unfold_locales
    (rule gone_data gone_disk gone_execute gone_execute [where f = "\<lambda>s. ((), f s)" for f, folded statement_def];
      auto simp: snapshot_exists_iff mark_unavailable_def update_where_def live_def drop_upload_def
        record_lapse_state_def forget_lapse_state_def sweep_entitlements_def sweep_superseded_entitlements_def
        sweep_nonces_def sweep_outcomes_and_receipts_def sweep_erased_references_def Let_def split: if_splits)+

text \<open>The rest of the pass brings nothing back.\<close>

lemma gone_after:
  assumes "valid P (sweep_post_grace X revoked at (cut_now limits)) (\<lambda>_. gone h d) (\<lambda>_ _. True)"
  shows "valid P (reconcile X root revoked charges at limits) (\<lambda>_. gone h d) (\<lambda>_ _. True)"
  unfolding reconcile_def
proof (rule valid_bind [OF assms], rule valid_keeps)
  fix c0
  show "keeps (gone h d) (bindE (sweep_grants X root (cut_now limits)) (\<lambda>c1.
     bindE (sweep_incoming root) (\<lambda>c2.
     bindE (sweep_claimed root (cut_now limits)) (\<lambda>c3.
     bindE (sweep_records X revoked (cut_entitlement limits)) (\<lambda>c3b.
     bindE (adopt_unrecorded X revoked charges at) (\<lambda>_.
     bindE (sweep_lapse_rows X revoked at) (\<lambda>c3d.
     let counts = nothing_swept\<lparr>post_grace_snapshots := c0, expired_grants := c1, orphan_incoming := c2,
           unavailable_snapshots := c3, aged_entitlements := c3b, forgotten_lapse_state := c3d\<rparr> in
     matchE (select all_retained_keys) (\<lambda>_. returnE counts) (\<lambda>live_keys.
     bindE (sweep_orphans root live_keys) (\<lambda>c4.
       sweep_metadata X limits (counts\<lparr>orphan_snapshots := c4\<rparr>))))))))))"
    unfolding sweep_grants_def drop_expired_def
      sweep_incoming_def drop_orphan_incoming_def incoming_on_disk_def sweep_claimed_def check_claimed_def
      sweep_records_def drop_records_def carry_over_def adopt_unrecorded_def adopt_holder_def
      sweep_lapse_rows_def refresh_row_def retire_row_def sweep_orphans_def drop_orphan_snapshot_def
      retained_on_disk_def sweep_metadata_def Let_def
    by (intro gone.rules)
qed

text \<open>What the first step reads of a holder, which another holder's turn leaves alone.\<close>

definition same_holder :: "string \<Rightarrow> store \<Rightarrow> store \<Rightarrow> bool" where
  "same_holder h s0 s \<longleftrightarrow> t_entitlements s = t_entitlements s0 \<and> t_lapse s = t_lapse s0 \<and> t_terms s = t_terms s0 \<and>
     filter (\<lambda>r. snap_holder r = h) (t_snapshots s) = filter (\<lambda>r. snap_holder r = h) (t_snapshots s0)"

lemma windows_terms: "t_terms s = t_terms s0 \<Longrightarrow> windows X t s rows = windows X t s0 rows"
proof -
  assume "t_terms s = t_terms s0"
  then have "end_of_payment X terms_id s = end_of_payment X terms_id s0" for terms_id
    by (simp add: end_of_payment_def terms_document_def)
  then show ?thesis by (induction rows) (simp_all cong: option.case_cong)
qed

lemma snapshots_filter:
  "snapshots X h s = sort_key (\<lambda>r. jd_desc X (snap_retained_at r)) (filter live (filter (\<lambda>r. snap_holder r = h) (t_snapshots s)))"
  by (simp add: snapshots_def listed_def conj_commute)

lemma post_grace_same:
  assumes "same_holder h s0 s"
  shows "post_grace_due X h revoked now s = post_grace_due X h revoked now s0"
proof -
  have "entitlement_horizon X h revoked s = entitlement_horizon X h revoked s0" "stored_lapse_state h s = stored_lapse_state h s0"
    using assms by (simp_all add: same_holder_def entitlement_horizon_def stored_lapse_state_def)
  then have "lifecycle_horizon X h revoked s = lifecycle_horizon X h revoked s0"
    by (simp add: lifecycle_horizon_def cong: option.case_cong)
  moreover have "snapshots X h s = snapshots X h s0"
    using assms unfolding snapshots_filter same_holder_def by argo
  moreover have "t_terms s = t_terms s0" using assms by (simp add: same_holder_def)
  ultimately have "lifecycle_horizon X h revoked s = lifecycle_horizon X h revoked s0"
    "holder_windows X h t s = holder_windows X h t s0" for t
    using windows_terms [of s s0] by (simp_all add: holder_windows_def)
  then show ?thesis by (simp add: post_grace_due_def cong: option.case_cong if_cong)
qed

lemma same_holder_marked: "same_holder h s0 s \<Longrightarrow> g \<noteq> h \<Longrightarrow> same_holder h s0 (snd (mark_unavailable g d t s))"
  by (simp add: same_holder_def mark_unavailable_def update_where_def Let_def filter_map_other)

lemma other_turn:
  assumes "g \<noteq> h"
  shows "keeps (\<lambda>w. same_holder h s0 (store w)) (expire_holder X revoked now at g n)"
proof -
  note marked = same_holder_marked [OF _ assms]
  have "keeps (\<lambda>w. same_holder h s0 (store w)) (execute (mark_unavailable g d at))" for d
    by (rule keeps_execute [OF store_data]) (simp add: marked)
  then show ?thesis
    unfolding expire_holder_def expire_due_def
    by (intro keeps_match keeps_fold keeps_if keeps_return framed_counted keeps_query [OF store_data])
qed

lemma marks_gone: "gone h d (w\<lparr>store := snd (mark_unavailable h d t (store w))\<rparr>)"
  using mark_unavailable_live [of _ h d t "store w"] by (auto simp: gone_def snapshot_exists_iff)

lemma own_turn:
  assumes "post_grace_due X h revoked now s0 = Inr due" "(d, ''erase'') \<in> set due"
  shows "valid (\<lambda>w. faults w = [] \<and> (gone h d w \<or> same_holder h s0 (store w))) (expire_holder X revoked now at h n)
    (\<lambda>_ w. faults w = [] \<and> gone h d w) (\<lambda>_ _. True)"
proof -
  let ?G = "\<lambda>w. faults w = [] \<and> gone h d w"
  have calm: "calm_op (expire_due h at p k)" for p k
    unfolding expire_due_def by (intro calm_rules)
  have stays: "valid ?G (expire_due h at p k) (\<lambda>_. ?G) (\<lambda>_ _. True)" for p k
  proof (rule valid_keeps)
    have "keeps (gone h d) (expire_due h at p k)"
      unfolding expire_due_def by (intro gone.rules)
    with calm show "keeps ?G (expire_due h at p k)" by (auto simp: keeps_def calm_op_def)
  qed
  have stay_all: "valid ?G (foldE (expire_due h at) ps k) (\<lambda>_. ?G) (\<lambda>_ _. True)" for ps k
  proof (rule valid_keeps)
    have "keeps (gone h d) (foldE (expire_due h at) ps k)" unfolding expire_due_def by (intro gone.rules)
    moreover have "calm_op (foldE (expire_due h at) ps k)" by (intro calm_fold calm)
    ultimately show "keeps ?G (foldE (expire_due h at) ps k)" by (auto simp: keeps_def calm_op_def)
  qed
  have hit: "valid (\<lambda>w. faults w = []) (expire_due h at (d, ''erase'') k) (\<lambda>_. ?G) (\<lambda>_ _. True)" for k
    by (rule validI) (auto simp: expire_due_def counted_def matchE_run execute_calm returnE_run marks_gone)
  have all: "valid (\<lambda>w. faults w = []) (foldE (expire_due h at) ps k) (\<lambda>_. ?G) (\<lambda>_ _. True)"
    if "(d, ''erase'') \<in> set ps" for ps k
    using that
  proof (induction ps arbitrary: k)
    case (Cons p ps)
    show ?case
    proof (cases "p = (d, ''erase'')")
      case True
      then show ?thesis using valid_bind [OF hit stay_all] by simp
    next
      case False
      have "valid (\<lambda>w. faults w = []) (expire_due h at p k) (\<lambda>_ w. faults w = []) (\<lambda>_ _. True)"
        by (rule valid_keeps) (use calm in \<open>auto simp: keeps_def calm_op_def\<close>)
      moreover have "(d, ''erase'') \<in> set ps" using Cons.prems False by auto
      ultimately show ?thesis using Cons.IH by (auto intro: valid_bind)
    qed
  qed simp
  show ?thesis
  proof (rule validI)
    fix w x w' assume w: "faults w = [] \<and> (gone h d w \<or> same_holder h s0 (store w))"
      and run: "expire_holder X revoked now at h n w = (Inr x, w')"
    show "?G w'"
    proof (cases "post_grace_due X h revoked now (store w)")
      case (Inl e)
      then have "\<not> same_holder h s0 (store w)" using post_grace_same assms(1) by fastforce
      with w run Inl show ?thesis by (simp add: expire_holder_def matchE_run query_calm returnE_run)
    next
      case (Inr found)
      then have fold: "foldE (expire_due h at) found n w = (Inr x, w')"
        using run w by (simp add: expire_holder_def matchE_run query_calm)
      show ?thesis
      proof (cases "gone h d w")
        case True
        then show ?thesis using w validD [OF stay_all _ fold] by blast
      next
        case False
        then have "found = due" using w post_grace_same [of h s0 "store w" X revoked now] assms(1) Inr by simp
        with assms(2) w validD [OF all _ fold] show ?thesis by blast
      qed
    qed
  qed simp
qed

lemma gone_turn: "valid (\<lambda>w. faults w = [] \<and> gone h d w) (expire_holder X revoked now at g n)
    (\<lambda>_ w. faults w = [] \<and> gone h d w) (\<lambda>_ _. True)"
proof (rule valid_keeps)
  have "keeps (gone h d) (expire_holder X revoked now at g n)"
    unfolding expire_holder_def expire_due_def by (intro gone.rules)
  moreover have "calm_op (expire_holder X revoked now at g n)"
    unfolding expire_holder_def expire_due_def by (intro calm_rules)
  ultimately show "keeps (\<lambda>w. faults w = [] \<and> gone h d w) (expire_holder X revoked now at g n)"
    by (auto simp: keeps_def calm_op_def)
qed

lemma turns:
  assumes "post_grace_due X h revoked now s0 = Inr due" "(d, ''erase'') \<in> set due" "h \<in> set hs"
  shows "valid (\<lambda>w. faults w = [] \<and> (gone h d w \<or> same_holder h s0 (store w))) (foldE (expire_holder X revoked now at) hs n)
    (\<lambda>_ w. faults w = [] \<and> gone h d w) (\<lambda>_ _. True)"
  using assms(3)
proof (induction hs arbitrary: n)
  case (Cons g hs)
  let ?K = "\<lambda>w. faults w = [] \<and> (gone h d w \<or> same_holder h s0 (store w))"
  let ?G = "\<lambda>w. faults w = [] \<and> gone h d w"
  have settled: "valid ?G (foldE (expire_holder X revoked now at) hs k) (\<lambda>_. ?G) (\<lambda>_ _. True)" for k
    by (induction hs arbitrary: k) (auto intro: valid_bind gone_turn validI simp: returnE_run)
  show ?case
  proof (cases "g = h")
    case True
    then show ?thesis using valid_bind [OF own_turn [OF assms(1,2)] settled] by simp
  next
    case False
    have "keeps (gone h d) (expire_holder X revoked now at g n)" "calm_op (expire_holder X revoked now at g n)"
      unfolding expire_holder_def expire_due_def by (intro gone.rules calm_rules)+
    with other_turn [OF False, of s0 X revoked now at n]
    have "valid ?K (expire_holder X revoked now at g n) (\<lambda>_. ?K) (\<lambda>_ _. True)"
      by (intro valid_keeps) (auto simp: keeps_def calm_op_def)
    moreover have "h \<in> set hs" using Cons.prems False by simp
    ultimately show ?thesis using Cons.IH by (auto intro: valid_bind)
  qed
qed simp

lemma overdue_due:
  assumes "overdue X now s row" "post_grace_due X (snap_holder row) revoked now s = Inr due"
  shows "(snap_digest row, ''erase'') \<in> set due"
  using assms(1) post_grace_due_Inr [OF assms(2)] unfolding overdue_def by metis

lemma overdue_gone:
  assumes "faults w = []" "row \<in> set (t_snapshots (store w))" "live row" "overdue X now (store w) row"
    "post_grace_due X (snap_holder row) revoked now (store w) = Inr due"
    "reconcile X root revoked charges now limits w = (Inr counts, w')"
  shows "gone (snap_holder row) (snap_digest row) w'"
proof -
  let ?h = "snap_holder row" and ?P = "\<lambda>v. v = w"
  have "valid ?P (sweep_post_grace X revoked now (cut_now limits)) (\<lambda>_. gone ?h (snap_digest row)) (\<lambda>_ _. True)"
  proof (rule validI)
    fix v x v' assume v: "v = w" and run: "sweep_post_grace X revoked now (cut_now limits) v = (Inr x, v')"
    have "?h \<in> set (holders_with_snapshots (store w))" using assms(2,3) by (auto simp: holders_with_snapshots_def)
    note all = turns [OF assms(5) overdue_due [OF assms(4,5)] this, of "cut_now limits" 0]
    have "foldE (expire_holder X revoked now (cut_now limits)) (holders_with_snapshots (store w)) 0 w = (Inr x, v')"
      using run v assms(1) by (simp add: sweep_post_grace_def bindE_run or_else_def matchE_run select_calm returnE_run)
    from validD [OF all _ this] assms(1) show "gone ?h (snap_digest row) v'" by (simp add: same_holder_def)
  qed simp
  from validD [OF gone_after [OF this] refl assms(6)] show ?thesis .
qed

section \<open>Inside the task\<close>

lemma task_reconciles:
  assumes "valid P (reconcile (lib A) (blob_root (cfg A)) (revoked_ids w) (requires_entitlement (cfg A)) now limits)
      (\<lambda>_. Q) (\<lambda>_ _. True)"
    and "cutoffs_at A now = Some limits" "P w"
  shows "Q (snd (sweep_task A now w))"
proof -
  let ?pass = "reconcile (lib A) (blob_root (cfg A)) (revoked_ids w) (requires_entitlement (cfg A)) now limits"
  obtain r w' where run: "?pass w = (r, w')" by fastforce
  have task: "sweep_task A now w = (case r of Inl e \<Rightarrow> (Inl e, w') | Inr counts \<Rightarrow> (Inr (Some counts), w'))"
    using assms(2) run by (simp add: sweep_task_def bindE_run getE_run returnE_run split: sum.split)
  obtain s where "fst (sweep_task A now w) = Inr s" using sweep_finishes [of A now] unfolding finishes_def by blast
  with task obtain counts where r: "r = Inr counts" by (cases r) auto
  with validD [OF assms(1,3)] run task show ?thesis by simp
qed

end
