(* ===== verification/Billing.thy ===== *)
theory Billing
  imports Gate
begin

text \<open>
  Who is asked to pay, and with what: the payment error leaves no handler but the three gated ones
  of an operator that charges, and it always names this operator, its offers, its issuers and its
  manifest.
\<close>

section \<open>Results that never ask for payment\<close>

definition asks_payment :: "fail \<Rightarrow> bool" where
  "asks_payment e \<longleftrightarrow> (\<exists>a b c d. e = Err (PaymentRequired a b c d))"

lemma asks_simps [simp]:
  "asks_payment (payment_required A)" "\<not> asks_payment Panic" "\<not> asks_payment (internal d)"
  "\<not> asks_payment (refused A)" "\<not> asks_payment (quota_error A used grants)" "\<not> asks_payment free_operator_error"
  by (simp_all add: asks_payment_def payment_required_def internal_def refused_def quota_error_def free_operator_error_def)

lemma asks_errors [simp]:
  "asks_payment (Err (PaymentRequired a b c d))" "\<not> asks_payment (Err (BadRequest t))" "\<not> asks_payment (Err SignatureInvalid)"
  "\<not> asks_payment (Err (NotFound k))" "\<not> asks_payment (Err RetentionExpired)" "\<not> asks_payment (Err ReceiptExpired)"
  "\<not> asks_payment (Err UploadExpired)" "\<not> asks_payment (Err (UploadIncomplete m n))" "\<not> asks_payment (Err DigestMismatch)"
  "\<not> asks_payment (Err ChunkMismatch)" "\<not> asks_payment (Err (TermsChanged t))" "\<not> asks_payment (Err (SnapshotTooLarge n))"
  by (auto simp: asks_payment_def)

definition mild :: "fail + 'a \<Rightarrow> bool" where
  "mild r \<longleftrightarrow> (\<forall>e. r = Inl e \<longrightarrow> \<not> asks_payment e)"

lemma mild_rules:
  "mild (Inr x)" "\<not> asks_payment e \<Longrightarrow> mild (Inl e)" "\<not> asks_payment e \<Longrightarrow> mild (ok_or e p)"
  "\<not> asks_payment e \<Longrightarrow> mild (guard_or e b)" "\<not> asks_payment e \<Longrightarrow> mild (with_error e r')"
  "mild r \<Longrightarrow> (\<And>y. mild (f y)) \<Longrightarrow> mild (and_then r f)"
  by (auto simp: mild_def and_then_Inl_iff)

lemma mild_cases:
  "mild r \<Longrightarrow> mild r' \<Longrightarrow> mild (if b then r else r')"
  "mild r \<Longrightarrow> (\<And>y. mild (f y)) \<Longrightarrow> mild (case p of None \<Rightarrow> r | Some y \<Rightarrow> f y)"
  "(\<And>y. mild (f y)) \<Longrightarrow> mild (let y = v in f y)"
  "(\<And>y z. mild (g y z)) \<Longrightarrow> mild (case q of (y, z) \<Rightarrow> g y z)"
  by (auto split: option.splits prod.splits)

lemma mild_collect: "(\<And>x. mild (f x)) \<Longrightarrow> mild (collect_results f xs)"
  by (induction xs) (auto intro!: mild_rules)

lemma collect_results_error: "collect_results f xs = Inl e \<Longrightarrow> \<exists>x \<in> set xs. f x = Inl e"
  by (induction xs) (auto simp: and_then_Inl_iff)

lemma mild_canonical: "mild (write_canonical v)"
proof (induction v rule: write_canonical.induct)
  case (1 kvs)
  have "mild (case kv of (key, v) \<Rightarrow> and_then (write_canonical v) (\<lambda>b. Inr (write_json_string key @ CHR '':'' # b)))"
    if "kv \<in> set kvs" for kv
    using that 1 by (auto simp: mild_def and_then_Inl_iff split: prod.split)
  then show ?case by (auto simp: mild_def and_then_Inl_iff dest: collect_results_error)
next
  case (2 items)
  then show ?case by (auto simp: mild_def and_then_Inl_iff dest: collect_results_error)
qed (simp_all add: mild_def)

lemma mild_pure:
  "mild (stamp X t)" "mild (digest_hex d)" "mild (has_expired X e t)" "mild (check_preflight q)" "mild (check_erase r)"
  "mild (decode_receipts X raws)" "mild (registration_bytes A body)" "mild (sql_sum xs)" "mild (iso8601_days p)"
  unfolding stamp_def digest_hex_def has_expired_def check_preflight_def check_erase_def decode_receipts_def
    registration_bytes_def sql_sum_def canonical_bytes_def iso8601_days_def
  by (intro mild_rules mild_cases mild_collect mild_canonical asks_errors asks_simps)+

lemma mild_verified: "mild (verify_entitlement A raw r revoked now)" "mild (presented A hs r revoked now)"
  by (auto simp: mild_def dest!: verify_entitlement_Inl presented_Inl)

lemma mild_proof: "mild (request_proof A hs verb path body now)"
  unfolding request_proof_def header_def verify_request_def holder_key_def
  by (intro mild_rules mild_cases asks_errors)

lemma mild_minted: "mild (mint_receipts A scope targets at ids s)"
  unfolding mint_receipts_def mint_receipt_def compose_def sign_receipt_def sign_def signed_value_def canonical_bytes_def Let_def
  by (intro mild_rules mild_cases mild_collect mild_canonical mild_pure asks_errors asks_simps)

lemma mild_queries:
  "mild (usage h s)" "mild (open_grants X h t s)" "mild (begin_upload row s)"
  unfolding usage_def open_grants_def begin_upload_def Let_def
  by (intro mild_rules mild_cases mild_pure asks_simps)+

lemma mild_candidates: "mild (receipt_candidates X scope ds rows acc)"
  by (induction rows arbitrary: acc) (auto simp: mild_def and_then_Inl_iff split: if_splits)

lemma mild_latest: "mild (latest_receipts_for_erased_scope X h scope ds s)"
  unfolding latest_receipts_for_erased_scope_def Let_def by (intro mild_rules mild_candidates)

lemma mild_stored: "mild (stored_access X h revoked now s)"
  using not_payment by (fastforce simp: mild_def)

lemma mild_total: "mild (total_size d ps acc)"
  by (induction ps arbitrary: acc) (auto simp: mild_def and_then_Inl_iff split: option.splits)

lemma mild_stream: "mild (snapshot_stream d ps)"
  by (induction ps) (auto simp: mild_def and_then_Inl_iff split: option.splits)

lemma mild_disk: "mild (chunk_paths root h hex n size_bytes d)" "mild (digest_paths X paths d)"
  unfolding chunk_paths_def chunk_paths_unchecked_def digest_paths_def Let_def
  by (intro mild_rules mild_cases mild_total mild_stream asks_errors)+

section \<open>Programs that never ask, or only as they may\<close>

text \<open>The errors of \<open>m\<close>: a request for payment only where \<open>b\<close> holds, and then the operator's own.\<close>

definition asking :: "app \<Rightarrow> bool \<Rightarrow> fail \<Rightarrow> bool" where
  "asking A b e \<longleftrightarrow> (asks_payment e \<longrightarrow> b \<and> e = payment_required A)"

definition asks_at :: "app \<Rightarrow> bool \<Rightarrow> 'a op \<Rightarrow> bool" where
  "asks_at A b m \<longleftrightarrow> (\<forall>w e w'. m w = (Inl e, w') \<longrightarrow> asking A b e)"

lemma asking_mild: "\<not> asks_payment e \<Longrightarrow> asking A b e"
  by (simp add: asking_def)

lemma asks_basic:
  "asks_at A b (returnE x)" "asks_at A b (getE f)" "asks_at A b (modifyE g)" "\<not> asks_payment e \<Longrightarrow> asks_at A b (throwE e)"
  "mild r \<Longrightarrow> asks_at A b (liftE r)"
  by (simp_all add: asks_at_def run_simps mild_def asking_def)

lemma asks_throw: "asking A b e \<Longrightarrow> asks_at A b (throwE e)"
  by (simp add: asks_at_def run_simps)

lemma asks_bind: "asks_at A b m \<Longrightarrow> (\<And>x. asks_at A b (f x)) \<Longrightarrow> asks_at A b (bindE m f)"
  by (fastforce simp: asks_at_def bindE_run split: prod.splits sum.splits)

lemma asks_match:
  "asks_at A b m \<Longrightarrow> (\<And>e. asking A b e \<Longrightarrow> asks_at A b (h e)) \<Longrightarrow> (\<And>x. asks_at A b (f x)) \<Longrightarrow> asks_at A b (matchE m h f)"
  by (fastforce simp: asks_at_def matchE_run split: prod.splits sum.splits)

lemma asks_cases:
  "asks_at A b m \<Longrightarrow> asks_at A b m' \<Longrightarrow> asks_at A b (if c then m else m')"
  "asks_at A b m \<Longrightarrow> (\<And>x. asks_at A b (f x)) \<Longrightarrow> asks_at A b (case p of None \<Rightarrow> m | Some x \<Rightarrow> f x)"
  "(\<And>x y. asks_at A b (g x y)) \<Longrightarrow> asks_at A b (case q of (x, y) \<Rightarrow> g x y)"
  by (auto split: option.splits prod.splits)

lemma asks_fold: "(\<And>x acc. asks_at A b (f x acc)) \<Longrightarrow> asks_at A b (foldE f xs acc)"
  by (induction xs arbitrary: acc) (auto intro: asks_basic asks_bind)

lemma asks_io: "asks_at A b (io_step what)"
  by (auto simp: asks_at_def io_step_def asking_def split: prod.splits option.splits)

lemma asks_total: "(\<And>w. \<exists>x. fst (m w) = Inr x) \<Longrightarrow> asks_at A b m"
  unfolding asks_at_def by (metis fst_conv sum.distinct(1))

lemma asks_after_io: "(\<And>w r w'. g w = (r, w') \<Longrightarrow> mild r) \<Longrightarrow> asks_at A b (bindE (io_step what) (\<lambda>_. g))"
  by (rule asks_bind [OF asks_io]) (auto simp: asks_at_def mild_def asking_def)

lemma asks_query: "(\<And>s. mild (q s)) \<Longrightarrow> asks_at A b (query q)"
  unfolding query_def by (rule asks_after_io) auto

lemma asks_inspect: "(\<And>d. mild (f d)) \<Longrightarrow> asks_at A b (inspect f)"
  unfolding inspect_def by (rule asks_after_io) auto

lemma asks_store: "asks_at A b (select p)" "asks_at A b (execute g)" "asks_at A b (statement h)"
  unfolding select_def statement_def execute_def query_def
  by (rule asks_after_io; auto simp: mild_def split: prod.splits)+

lemmas asks_rules = asks_basic asks_bind asks_match asks_cases asks_fold asks_io asks_query asks_inspect asks_store
  mild_rules mild_pure mild_verified mild_proof mild_minted mild_queries mild_latest mild_stored mild_disk
  asks_errors asks_simps

lemma asks_remove: "asks_at A b (remove_dir_all what p)"
  by (auto simp: asks_at_def asking_def remove_dir_all_def split: prod.splits option.splits)

lemma asks_write: "asks_at A b (write_bytes p i bytes)"
  by (auto simp: asks_at_def asking_def write_bytes_def Let_def split: prod.splits option.splits if_splits)

lemma asks_length: "asks_at A b (chunk_length p i)"
  by (simp add: asks_at_def chunk_length_def split: prod.splits)

lemma asks_disk:
  "asks_at A b (begin_incoming root uid)" "asks_at A b (write_chunk root uid i bytes)" "asks_at A b (discard_upload root uid)"
  "asks_at A b (erase_blob root h hex)" "asks_at A b (arrival root uid n)" "asks_at A b (digest_of X root uid n)"
  unfolding begin_incoming_def write_chunk_def discard_upload_def erase_blob_def arrival_def digest_of_def sync_dir_def
    set_disk_def create_chunk_def arrival_step_def digest_step_def Let_def
  by (intro asks_rules asks_remove asks_write asks_length)+

lemma asks_commit_blob: "asks_at A b (commit_blob X root uid h hex n size_bytes)"
proof -
  have "asks_at A b (throwE (if e = Err RetentionExpired then internal t else e))" if "asking A b e" for e t
    using that by (intro asks_throw) (simp add: asking_def)
  note translated = this
  show ?thesis
    unfolding commit_blob_def sync_existing_dir_def sync_dir_def set_disk_def Let_def
    by (intro asks_rules asks_disk translated; assumption)
qed

section \<open>The gate and the handlers\<close>

lemma asks_authenticate: "asks_at A b (authenticate A hs verb path body now)"
  unfolding authenticate_def by (intro asks_rules)

lemma asks_register: "asks_at A b (register_entitlement X h v t)"
  unfolding register_entitlement_def by (intro asks_rules)

lemma asks_evaluate: "asks_at A b (evaluate A who hs now)"
  unfolding evaluate_def by (intro asks_rules asks_register)

text \<open>The gate asks only for an operation that is gated, at an operator that charges.\<close>

lemma asks_require:
  assumes "\<not> always_available operation \<Longrightarrow> requires_entitlement (cfg A) \<Longrightarrow> b"
  shows "asks_at A b (require A who hs operation now)"
proof (cases "always_available operation \<or> \<not> requires_entitlement (cfg A)")
  case True
  then show ?thesis by (simp add: require_ungated asks_basic)
next
  case False
  then have "asking A b (payment_required A)" using assms by (simp add: asking_def)
  then show ?thesis unfolding require_def by (intro asks_rules asks_evaluate asks_throw)
qed

lemma asks_missing: "asking A b e \<Longrightarrow> asks_at A b (expire_missing A h d now e)"
  unfolding expire_missing_def by (intro asks_cases asks_throw) (intro asks_rules)

lemma asks_erasure: "asks_at A b (erase_again A who q at)" "asks_at A b (erase_targets A who q targets at ids)"
  "asks_at A b (unlink_erased A h doomed)"
  unfolding erase_again_def erase_targets_def unlink_erased_def Let_def
  by (intro asks_rules asks_disk mild_collect)+

lemma asks_commit: "asks_at A b (commit_verify A u)" "asks_at A b (commit_place A u hex now)"
  unfolding commit_verify_def commit_place_def commit_quota_def abandon_def Let_def
  by (intro asks_rules asks_disk asks_commit_blob)+

lemma asks_open: "asks_at A b (download_open A who row d now)" "asks_at A b (export_open A who row d now)"
  unfolding download_open_def export_open_def by (rule asks_match; (intro asks_rules asks_missing)?; assumption?)+

lemma asks_grant: "asks_at A b (resume_grant A u n)"
  "requires_entitlement (cfg A) \<longrightarrow> b \<Longrightarrow> asks_at A b (new_grant A who hs q now t uid)"
  unfolding resume_grant_def new_grant_def mint_grant_def Let_def
  by (intro asks_rules asks_disk asks_require; simp)+

text \<open>The routes the gate stands before.\<close>

definition gated :: "request \<Rightarrow> bool" where
  "gated req \<longleftrightarrow> (case req of Post_preflight \<Rightarrow> True | Post_erasure \<Rightarrow> True | Get_snapshot _ \<Rightarrow> True | _ \<Rightarrow> False)"

lemma asks_request: "asks_at A (requires_entitlement (cfg A) \<and> gated req) (handle_request A req c)"
proof -
  note parts = asks_rules asks_authenticate asks_require asks_register asks_grant asks_commit asks_open asks_erasure asks_disk
  show ?thesis
    unfolding handle_request_def Let_def
  proof (cases req, simp_all only: request.case gated_def simp_thms)
  qed (unfold register_def preflight_def put_chunk_def commit_def commit_lookup_def granted_upload_def
      list_snapshots_def download_def download_lookup_def erase_def export_manifest_def export_receipt_def
      export_snapshot_def export_lookup_def query_operation_def health_def terms_route_def Let_def,
      (intro parts; simp)+)
qed

lemma asked_for_payment:
  assumes "handle_request A req c w = (Inl (Err (PaymentRequired a b d e)), w')"
  shows "requires_entitlement (cfg A)" "gated req" "Err (PaymentRequired a b d e) = payment_required A"
proof -
  have "asking A (requires_entitlement (cfg A) \<and> gated req) (Err (PaymentRequired a b d e))"
    using asks_request assms unfolding asks_at_def by blast
  then show "requires_entitlement (cfg A)" "gated req" "Err (PaymentRequired a b d e) = payment_required A"
    by (simp_all add: asking_def)
qed

end
