(* ===== verification/Interleaving.thy ===== *)
theory Interleaving
  imports Quota
begin

text \<open>
  Commits that overlap.  \<open>commit\<close> of \<open>uploads.rs\<close> gives up its locks between the verification
  of the bytes and the placing of the snapshot, so that other requests, polls, sweeps and commits run
  in between.  Here a commit is the two phases that the source separates by its locks, and the
  invariants of the operator are shown to hold at every point of such a run.

  What the second phase relies on is stated with its step: the bytes that were verified are still
  there, or the directory is gone.  A removal that stops half way breaks that; the sample run in
  \<open>Sample\<close> shows what follows.
\<close>

section \<open>The phases\<close>

definition commit_enter :: "app \<Rightarrow> headers \<Rightarrow> string \<Rightarrow> bytes \<Rightarrow> instant \<Rightarrow> (upload_row \<times> string) op" where
  "commit_enter A hs upload_id body now =
     bindE (commit_lookup A hs upload_id body now) (\<lambda>u.
     bindE (commit_verify A u) (\<lambda>hex. returnE (u, hex)))"

lemma bind_return: "bindE (returnE x) f = f x"
  by (simp add: fun_eq_iff bindE_run returnE_run)

lemma commit_phases:
  "commit A hs uid body now = bindE (commit_enter A hs uid body now) (\<lambda>(u, hex). commit_place A u hex now)"
  by (simp add: commit_def commit_enter_def bindE_assoc bind_return)

text \<open>A commit between its phases: its grant, the hex of its digest, its clock.\<close>

type_synonym pending = "upload_row \<times> string \<times> instant"

definition steady :: "app \<Rightarrow> upload_row \<Rightarrow> world \<Rightarrow> bool" where
  "steady A u w \<longleftrightarrow> dir_lookup (disk w) (incoming_dir (blob_root (cfg A)) (up_id u)) = None \<or>
     complete_incoming (lib A) (blob_root (cfg A)) (disk w) u"

text \<open>
  One process from \<open>w0\<close>: whole requests, polls and sweeps under every fault schedule, and commits
  that enter and leave in any order.
\<close>

inductive interleaves :: "app \<Rightarrow> world \<Rightarrow> pending list \<Rightarrow> world \<Rightarrow> bool" for A w0 where
  Begins: "interleaves A w0 [] w0"
| Answers: "interleaves A w0 ps w \<Longrightarrow> fresh_ids A c w \<Longrightarrow>
    respond A req c (with_faults fs w) = (answer, w') \<Longrightarrow> interleaves A w0 ps w'"
| Fetches: "interleaves A w0 ps w \<Longrightarrow> poll_epoch A fetched now (with_faults fs w) = (r, w') \<Longrightarrow>
    interleaves A w0 ps w'"
| Sweeps: "interleaves A w0 ps w \<Longrightarrow> sweep_task A now (with_faults fs w) = (s, w') \<Longrightarrow> interleaves A w0 ps w'"
| Enters: "interleaves A w0 ps w \<Longrightarrow>
    commit_enter A hs uid body now (with_faults fs w) = (Inr (u, hex), w') \<Longrightarrow>
    interleaves A w0 ((u, hex, now) # ps) w'"
| Leaves: "interleaves A w0 ps w \<Longrightarrow> (u, hex, now) \<in> set ps \<Longrightarrow> steady A u w \<Longrightarrow>
    commit_place A u hex now (with_faults fs w) = (answer, w') \<Longrightarrow>
    interleaves A w0 (remove1 (u, hex, now) ps) w'"

text \<open>A request of another holder leaves the verified bytes of a pending commit alone.\<close>

lemma steady_among_others:
  assumes "sound A w" "u \<in> set (t_uploads (store w))" "claimed A (ctx_headers c) \<noteq> Some (up_holder u)" "fresh_ids A c w"
    "steady A u w" "respond A req c w = (answer, w')"
  shows "steady A u w'"
proof -
  have "untouched A (up_holder u) w w" using assms(1) by (simp add: untouched_def)
  then have "untouched A (up_holder u) w w'"
    using untouched.respond_keeps [of A c "up_holder u" w w req answer w'] assms(3,4,6) by auto
  then have "dir_lookup (disk w') (incoming_dir (blob_root (cfg A)) (up_id u)) = dir_lookup (disk w) (incoming_dir (blob_root (cfg A)) (up_id u))"
    using assms(2) by (auto simp: untouched_def)
  with assms(5) show ?thesis by (simp add: steady_def complete_incoming_def)
qed

section \<open>The invariant\<close>

definition safe :: "app \<Rightarrow> string \<Rightarrow> int \<Rightarrow> world \<Rightarrow> bool" where
  "safe A h k w \<longleftrightarrow> pinned A w \<and> within A h k w"

lemma safeD: "safe A h k w \<Longrightarrow> pinned A w" "safe A h k w \<Longrightarrow> within A h k w"
  by (simp_all add: safe_def)

lemma safe_framed: "framed (safe A h k)"
  unfolding safe_def by (rule framed_conj [OF pinned_framed within_framed])

lemma safe_sound: "safe A h k w \<Longrightarrow> sound A w"
  by (rule pinnedD(1) [OF safeD(1)])

interpretation safe: operator_invariant A "\<lambda>_. True" "safe A h k" for A h k
  by unfold_locales
    ((rule TrueI soundD [OF safe_sound] safe_framed; assumption) |
     (unfold safe_def, erule conjE, rule conjI; rule pinned_changes within_changes; assumption))+

section \<open>The second phase\<close>

text \<open>What the first phase found stays true however the other requests go.\<close>

definition checked :: "app \<Rightarrow> pending \<Rightarrow> world \<Rightarrow> bool" where
  "checked A p w \<longleftrightarrow> (case p of (u, hex, _) \<Rightarrow>
     digest_hex (up_digest u) = Inr hex \<and> grant_ok u \<and> kept_terms (up_terms u) (store w))"

lemma pinned_revived:
  assumes "pinned A w" "kept_terms (up_terms u) (store w)" "digest_hex (up_digest u) = Inr hex"
    "intact (lib A) (blob_root (cfg A)) (disk w) (up_holder u) hex (up_chunk_count u) (up_size u)"
    "store w' = retain u t (store w)" "disk w' = disk w"
  shows "pinned A w'"
proof (rule pinned_change [OF assms(1) sound_retained [OF pinnedD(1) [OF assms(1)] assms(3-6)]])
  show "kept_terms (snap_terms r) (store w)" if "r \<in> set (t_snapshots (store w'))" for r
    using retain_rows [of r u t "store w"] that assms(2,5) pins_rows(1) [OF assms(1)] by (auto simp: row_of_def)
qed (use assms(5) pins_rows [OF assms(1)] in auto)

lemma safe_quota: "keeps (safe A h k) (commit_quota A u now)"
proof -
  have discard: "keeps (safe A h k) (discard_upload (blob_root (cfg A)) uid)" for uid
    using safe.preserves_discard by simp
  have drop: "keeps (safe A h k) (statement (drop_upload uid))" for uid
    using safe.preserves_drop by simp
  show ?thesis
    unfolding commit_quota_def by (intro safe.read_rules discard drop)
qed

lemma safe_commit_blob:
  "keeps (safe A h k) (commit_blob X (blob_root (cfg A)) uid g hex n size_bytes)"
  unfolding keeps_def
proof (intro allI impI)
  fix w assume s: "safe A h k w"
  let ?m = "commit_blob X (blob_root (cfg A)) uid g hex n size_bytes w"
  have "same_store w (snd ?m)" and d: "shrunk (incoming_dir (blob_root (cfg A)) uid) (disk w) (disk (snd ?m)) \<or>
      moved (incoming_dir (blob_root (cfg A)) uid) (snapshot_dir (blob_root (cfg A)) g hex) (disk w) (disk (snd ?m))"
    using commit_blob_spec [of X "blob_root (cfg A)" uid g hex n size_bytes w "fst ?m" "snd ?m"] by auto
  then have same: "store (snd ?m) = store w" by (simp add: same_store_def)
  have "sound A (snd ?m)"
    using d sound_discarded [OF safe_sound [OF s] same] sound_placed [OF safe_sound [OF s] same] by blast
  then show "safe A h k (snd ?m)"
    using pinned_disk [OF safeD(1) [OF s] same] within_disk [OF safeD(2) [OF s] same] by (simp add: safe_def)
qed

lemma blob_in_place:
  assumes "commit_blob (lib A) (blob_root (cfg A)) (up_id u) (up_holder u) hex (up_chunk_count u) (up_size u) w = (Inr (), w')"
    "steady A u w" "grant_ok u" "digest_hex (up_digest u) = Inr hex"
  shows "store w' = store w \<and>
    intact (lib A) (blob_root (cfg A)) (disk w') (up_holder u) hex (up_chunk_count u) (up_size u)"
proof (cases "dir_lookup (disk w) (incoming_dir (blob_root (cfg A)) (up_id u)) = None")
  case True
  with commit_blob_spec [OF assms(1)] show ?thesis
    by (auto simp: same_store_def shrunk_def only_at_def moved_def
        intact_frame [of "disk w'" "blob_root (cfg A)" "up_holder u" hex "disk w"])
next
  case False
  with assms(2) have "complete_incoming (lib A) (blob_root (cfg A)) (disk w) u" by (simp add: steady_def)
  from commit_blob_intact [OF assms(1) this assms(3,4)] show ?thesis .
qed

lemma safe_statement:
  "keeps (safe A h k) (statement (drop_upload uid))" "keeps (safe A h k) (statement (record_outcome op g sj st ids t))"
  using safe.preserves_drop safe.keeps_note by simp_all

lemma safe_place:
  "preserves (\<lambda>w. steady A u w \<and> checked A (u, hex, now) w) (safe A h k) (commit_place A u hex now)"
  (is "preserves ?ready _ _")
proof -
  let ?placed = "\<lambda>w. kept_terms (up_terms u) (store w) \<and> admitted A u (store w) \<and> digest_hex (up_digest u) = Inr hex \<and>
    intact (lib A) (blob_root (cfg A)) (disk w) (up_holder u) hex (up_chunk_count u) (up_size u)"
  have book: "preserves ?placed (safe A h k) (bindE (statement (retain u t)) (\<lambda>_.
      bindE (statement (drop_upload (up_id u))) (\<lambda>_.
      bindE (statement (record_outcome op (up_holder u) (up_digest u) ''retained'' None t)) (\<lambda>_. returnE x))))" for t op x
  proof (rule preserves_bind [where Q = "\<lambda>_ _. True"])
    show "preserves ?placed (safe A h k) (statement (retain u t))"
    proof (rule preserves_statement [OF safe_framed])
      fix w w' :: world assume "safe A h k w" "?placed w" "store w' = retain u t (store w)" "disk w' = disk w"
      then show "safe A h k w'"
        using pinned_revived [of A w u hex w' t] within_retained [of A h k w u hex w' t] by (simp add: safe_def)
    qed
  qed (simp_all, intro keeps_bind safe_statement keeps_return)
  show ?thesis
    unfolding commit_place_def
  proof (rule preserves_lift_bind, rule preserves_bind [where Q = "\<lambda>_ w. ?ready w \<and> admitted A u (store w)"])
    show "preserves ?ready (safe A h k) (commit_quota A u now)" by (rule keeps_preserves [OF safe_quota])
    fix t and z :: unit
    show "preserves (\<lambda>w. ?ready w \<and> admitted A u (store w)) (safe A h k)
      (bindE (commit_blob (lib A) (blob_root (cfg A)) (up_id u) (up_holder u) hex (up_chunk_count u) (up_size u)) (\<lambda>_.
       bindE (statement (retain u t)) (\<lambda>_. bindE (statement (drop_upload (up_id u))) (\<lambda>_.
       bindE (statement (record_outcome (up_operation u) (up_holder u) (up_digest u) ''retained'' None t)) (\<lambda>_.
       returnE (RJson 200 (outcome_json A ''retained'' (reference_json digest_suite (up_digest u) (up_size u)) (up_terms u))))))))"
    proof (rule preserves_bind [where Q = "\<lambda>_. ?placed", OF keeps_preserves [OF safe_commit_blob]])
      fix w w' :: world and y assume "?ready w \<and> admitted A u (store w)"
        "commit_blob (lib A) (blob_root (cfg A)) (up_id u) (up_holder u) hex (up_chunk_count u) (up_size u) w = (Inr y, w')"
      then show "?placed w'" using blob_in_place [of A u hex w w'] by (simp add: checked_def)
    qed (rule book)
  next
    fix w w' :: world and y :: unit
    assume "?ready w" "commit_quota A u now w = (Inr y, w')"
    then show "?ready w' \<and> admitted A u (store w')"
      using commit_quota_Inr [of A u now w w'] by (simp add: steady_def checked_def same_data_def)
  qed
qed

section \<open>Every point of an interleaved run\<close>

lemma kept_terms_rows: "set (t_terms s) \<subseteq> set (t_terms s') \<Longrightarrow> kept_terms t s \<Longrightarrow> kept_terms t s'"
  by (auto simp: kept_terms_def)

lemma terms_kept_by_place: "keeps (\<lambda>w. kept_terms t (store w)) (commit_place A u hex now)"
proof -
  let ?I = "\<lambda>w :: world. kept_terms t (store w)"
  have d: "data_pred ?I" by (auto simp: data_pred_def same_data_def)
  have st: "keeps ?I (statement f)" if "\<And>s. t_terms (f s) = t_terms s" for f
    unfolding statement_def by (rule keeps_execute [OF d]) (auto simp: kept_terms_def that)
  have disk: "keeps ?I (discard_upload root uid)" "keeps ?I (commit_blob X root uid g hx n b)" for root uid X g hx n b
    unfolding keeps_def using discard_upload_spec commit_blob_spec by (auto simp: same_store_def) (metis prod.collapse)+
  show ?thesis
    unfolding commit_place_def commit_quota_def
    by (intro valid_rules keeps_query [OF d] keeps_select [OF d] st disk)
      (simp_all add: retain_def drop_upload_def record_outcome_def Let_def)
qed

lemma enter_safe:
  assumes "commit_enter A hs uid body now w = (Inr (u, hex), w')" "safe A h k w"
  shows "safe A h k w'" "checked A (u, hex, t) w'" "t_terms (store w') = t_terms (store w)"
proof -
  obtain w1 where g: "granted_upload A hs ''POST'' (upload_path uid @ ''/commit'') body now uid w = (Inr u, w1)"
    and v: "commit_verify A u w1 = (Inr hex, w')"
    using assms(1) unfolding commit_enter_def commit_lookup_def by (auto elim!: bindE_Inr_E simp: returnE_run)
  note spec = granted_upload_spec [OF g]
  have s1: "safe A h k w1" by (rule keepsD [OF framed_granted_upload [OF safe_framed] assms(2) g])
  have "grant_ok u" "incoming_ok (blob_root (cfg A)) (disk w1) u"
    using soundD(3) [OF safe_sound [OF s1]] spec by (auto simp: grants_ok_def)
  with commit_verify_Inr [OF v] have same: "same_data w1 w'" and c: "digest_hex (up_digest u) = Inr hex" "grant_ok u" by auto
  show "safe A h k w'" using data_predD [OF framed_data [OF safe_framed] same] s1 by blast
  have "kept_terms (up_terms u) (store w1)" using pins_rows(2) [OF safeD(1) [OF s1]] spec by blast
  with c same show "checked A (u, hex, t) w'" by (simp add: checked_def same_data_def)
  show "t_terms (store w') = t_terms (store w)" using same spec by (simp add: same_data_def core_same_def)
qed

lemma kept_terms_holding:
  assumes "sound A w" "\<And>row. holding A row w \<Longrightarrow> holding A row w'" "kept_terms t (store w)"
  shows "kept_terms t (store w')"
  using assms by (auto simp: kept_terms_def holding_def)

lemma checked_kept:
  assumes "\<And>t. kept_terms t (store w) \<Longrightarrow> kept_terms t (store w')" "checked A p w" shows "checked A p w'"
  using assms by (auto simp: checked_def)

lemma interleaves_safe:
  assumes "interleaves A w0 ps w" "safe A h k w0"
  shows "safe A h k w \<and> (\<forall>p \<in> set ps. checked A p w)"
  using assms(1)
proof induction
  case Begins
  then show ?case using assms(2) by simp
next
  case (Answers ps w c req fs answer w')
  then have s: "safe A h k w" and p: "\<forall>p \<in> set ps. checked A p w" by auto
  have "checked A p w'" if "checked A p w" for p
    using that by (rule checked_kept [rotated])
      (rule kept_terms_holding [OF safe_sound [OF s]], erule holding.serve_step [OF _ Answers(2,3)])
  with p safe.serve_step [OF s Answers(2,3)] show ?case by blast
next
  case (Fetches ps w fetched now fs r w')
  then have s: "safe A h k w" and p: "\<forall>p \<in> set ps. checked A p w" by auto
  have "checked A p w'" if "checked A p w" for p
    using that by (rule checked_kept [rotated])
      (rule kept_terms_holding [OF safe_sound [OF s]], erule holding.poll_step [OF _ Fetches(2)])
  with p safe.poll_step [OF s Fetches(2)] show ?case by blast
next
  case (Sweeps ps w now fs r w')
  then have s: "safe A h k w" and p: "\<forall>p \<in> set ps. checked A p w" by auto
  have "checked A p w'" if "checked A p w" for p
    using that by (rule checked_kept [rotated])
      (rule kept_terms_holding [OF safe_sound [OF s]], erule holding.sweep_step [OF _ Sweeps(2)])
  with p safe.sweep_step [OF s Sweeps(2)] show ?case by blast
next
  case (Enters ps w hs uid body now fs u hex w')
  then have s: "safe A h k (with_faults fs w)" and p: "\<forall>p \<in> set ps. checked A p w"
    by (auto simp: safe.faults_framed)
  note e = enter_safe [OF Enters(2) s]
  have "checked A p w'" if "checked A p w" for p
    using that e(3) by (intro checked_kept [OF _ that]) (simp add: kept_terms_def)
  with p e(1,2) show ?case by simp
next
  case (Leaves ps w u hex now fs answer w')
  then have s: "safe A h k w" and p: "\<forall>p \<in> set ps. checked A p w" by auto
  have s': "safe A h k (with_faults fs w)" using s by (simp add: safe.faults_framed)
  have ready: "steady A u (with_faults fs w) \<and> checked A (u, hex, now) (with_faults fs w)"
    using p Leaves(2,3) by (auto simp: steady_def checked_def)
  have "safe A h k w'" by (rule preservesD [OF safe_place s' ready Leaves(4)])
  moreover have "checked A p w'" if "checked A p w" for p
    using that by (rule checked_kept [rotated]) (rule keepsD [OF terms_kept_by_place _ Leaves(4)], simp)
  ultimately show ?case using p notin_set_remove1 by fastforce
qed

end
