(* ===== verification/Sample.thy ===== *)
theory Sample
  imports Schema Clearing Billing Interleaving "HOL-Library.Countable"
begin

text \<open>
  A small concrete operator for the witnesses: the library functions of \<open>toy\<close> with decoders
  that read one fixed request each, an environment that boots, and the states of a short run in
  which one holder uploads a snapshot of two chunks and commits it.
\<close>

section \<open>The operator\<close>

definition sample_key :: string where "sample_key = replicate 64 (CHR ''a'')"
definition sample_holder :: string where "sample_holder = holder_prefix @ sample_key"
definition sample_hex :: string where "sample_hex = ''abc'' @ replicate 61 (CHR ''0'')"
definition sample_digest :: string where "sample_digest = ''sha256:'' @ sample_hex"

text \<open>The terms every stored document parses to.\<close>

definition sample_terms :: json where
  "sample_terms = JObj
     [(''erasure'', JObj [(''completionDeadline'', JStr ''P7D''), (''scope'', JStr ''copies''),
        (''excluded'', JStr ''exports'')]),
      (''endOfPayment'', end_of_payment_terms)]"

definition sample_crates :: crates where
  "sample_crates = toy\<lparr>json_parse := (\<lambda>_. Some sample_terms),
     decode_preflight := (\<lambda>body. Some \<lparr>req_operation_id = ''op1'',
       req_snapshot_reference = \<lparr>ref_algorithm = digest_suite, ref_digest = sample_digest, ref_sealed_byte_size = 3\<rparr>,
       req_accepted_terms_id = body, req_supersedes = None\<rparr>),
     decode_erase := (\<lambda>_. Some \<lparr>erase_operation_id = ''op2'', erase_scope = ''all''\<rparr>)\<rparr>"

definition sample_env :: env where
  "sample_env = map_of
     [(''BACKUP_COMPONENT_ID'', ''onym:component:x''), (''BACKUP_PUBLIC_URL'', ''https://b''),
      (''BACKUP_SIGNING_SEED'', replicate 64 (CHR ''0'')), (''BACKUP_CHUNK_BYTES'', ''2''),
      (''BACKUP_MAX_SNAPSHOTS'', ''1'')]"

definition sample_cfg :: config where
  "sample_cfg = \<lparr>bind_addr = ''0.0.0.0:8080'', store_path = ''/data/backup.sqlite'',
     blob_root = ''/data/blobs'', component_id = ''onym:component:x'', public_url = ''https://b'',
     signing_seed = replicate 32 (CHR ''0''), entitlement_issuers = [], revocation_url = None,
     revocation_poll_secs = 900, offers = [], maximum_sealed_snapshot_bytes = 2147483648,
     maximum_retained_snapshots = 1, chunk_bytes = 2, upload_expiry_secs = 86400, max_skew_secs = 300,
     outcome_retention_secs = 21600, receipt_retention_secs = 31536000,
     erased_reference_retention_secs = 31536000\<rparr>"

definition sample_terms_id :: string where
  "sample_terms_id = ''sha256:edfaeafeacee'' @ replicate 52 (CHR ''0'')"

definition sample_docs :: documents where
  "sample_docs = \<lparr>doc_manifest = ''{}'', doc_profile = ''{}'',
     doc_manifest_signature = replicate 64 (CHR ''s''), doc_terms_signature = replicate 64 (CHR ''s''),
     doc_terms_id = sample_terms_id, doc_terms = ''{}'',
     doc_operator_key = ''onym:key:'' @ replicate 64 (CHR ''0'')\<rparr>"

definition sample_app :: app where
  "sample_app = \<lparr>lib = sample_crates, cfg = sample_cfg, docs = sample_docs\<rparr>"

lemma sample_config: "from_env sample_crates 0 sample_env = Inr sample_cfg"
  by code_simp

lemma sample_documents: "build_documents sample_crates sample_cfg (signing_seed sample_cfg) = Inr sample_docs"
proof -
  let ?k = "''onym:key:'' @ hex_encode sample_crates (ed_public sample_crates (signing_seed sample_cfg))"
  have k: "hex_encode sample_crates (ed_public sample_crates (signing_seed sample_cfg)) = replicate 64 (CHR ''0'')"
    by code_simp
  have jb: "json_bytes sample_crates v = ''{}''" "json_parse sample_crates b = Some sample_terms"
    "b64_encode sample_crates b = b" "ed_sign sample_crates s b = replicate 64 (CHR ''s'')" for v b s
    by (simp_all add: sample_crates_def toy_def)
  have "sign sample_crates (signing_seed sample_cfg) (default_terms sample_cfg ?k)
      [''termsId'', ''signature''] = Inr ''{}''"
    by (metis jb(1) sign_total documents_no_floats(1))
  moreover have "sign sample_crates (signing_seed sample_cfg) (manifest_document sample_cfg ?k t) [''signature''] = Inr ''{}''" for t
    by (metis jb(1) sign_total documents_no_floats(2))
  moreover have "no_floats sample_terms"
    by (simp add: sample_terms_def end_of_payment_terms_def list_all_iff)
  then obtain b where b: "canonical_bytes sample_terms [''termsId'', ''signature''] = Inr b"
    by (meson canonical_bytes_total)
  moreover have "digest sample_crates (projr (canonical_bytes sample_terms [''termsId'', ''signature''])) = sample_terms_id"
    by code_simp
  ultimately show ?thesis
    by (simp add: build_documents_def Let_def jb sample_docs_def detached_def k)
qed

lemma sample_boots: "boot_app sample_crates 0 sample_env = Inr sample_app"
  by (simp add: boot_app_def sample_config sample_documents sample_app_def)

section \<open>A run\<close>

definition sample_headers :: "string \<Rightarrow> int \<Rightarrow> headers" where
  "sample_headers nonce t = map_of
     [(holder_header, sample_holder), (timestamp_header, show_int t), (nonce_header, nonce),
      (signature_header, replicate 64 (CHR ''s''))]"

definition sample_context :: "string \<Rightarrow> bytes \<Rightarrow> int \<Rightarrow> arrival_context" where
  "sample_context nonce body t =
     \<lparr>ctx_headers = sample_headers nonce t, ctx_body = body, ctx_now = t, ctx_target = [],
      ctx_upload_id = CHR ''u'' # tl nonce, ctx_receipt_ids = (\<lambda>terms_id. ''r'' @ terms_id)\<rparr>"

definition sample_handle :: string where
  "sample_handle = ''bacde1aaaaaaaaaaa'' @ replicate 47 (CHR ''0'')"

definition sample_who :: holder where
  "sample_who = \<lparr>h_reference = sample_holder, h_handle = sample_handle\<rparr>"

text \<open>What the sample's functions answer, folded, so that a run evaluates by \<open>simp\<close>.\<close>

lemma sample_app_simps:
  "lib sample_app = sample_crates" "cfg sample_app = sample_cfg" "docs sample_app = sample_docs"
  by (simp_all add: sample_app_def)

lemma sample_crates_simps:
  "julianday sample_crates = parse_i64" "time_min sample_crates = i64_min" "time_max sample_crates = i64_max"
  "rfc_format sample_crates t = (if in_i64 t then Some (show_int t) else None)"
  "rfc_parse sample_crates = parse_i64" "json_parse sample_crates b = Some sample_terms"
  "json_bytes sample_crates v = ''{}''" "b64_decode sample_crates = Some"
  "ed_verify sample_crates key msg sig = (sig = replicate 64 (CHR ''s''))"
  "decode_preflight sample_crates body = Some \<lparr>req_operation_id = ''op1'',
     req_snapshot_reference = \<lparr>ref_algorithm = digest_suite, ref_digest = sample_digest, ref_sealed_byte_size = 3\<rparr>,
     req_accepted_terms_id = body, req_supersedes = None\<rparr>"
  "decode_erase sample_crates body = Some \<lparr>erase_operation_id = ''op2'', erase_scope = ''all''\<rparr>"
  by (simp_all add: sample_crates_def toy_def)

lemma sample_strings:
  "length sample_terms_id = 71" "digest_hex sample_digest = Inr sample_hex"
  "digest sample_crates ''abc'' = sample_digest"
  "holder_key sample_crates sample_holder = Inr (replicate 32 (CHR ''a''))"
  "holder_handle sample_crates (replicate 32 (CHR ''a'')) = sample_handle"
  by code_simp+

lemma sample_header_values:
  "sample_headers nonce t holder_header = Some sample_holder"
  "sample_headers nonce t timestamp_header = Some (show_int t)"
  "sample_headers nonce t nonce_header = Some nonce"
  "sample_headers nonce t signature_header = Some (replicate 64 (CHR ''s''))"
  "sample_headers nonce t entitlement_header = None"
  by (simp_all add: sample_headers_def holder_header_def timestamp_header_def nonce_header_def
      signature_header_def entitlement_header_def)

lemma sample_proof:
  assumes "in_i64 t" "fresh now t 300"
  shows "request_proof sample_app (sample_headers nonce t) verb path body now =
    Inr (sample_holder, \<lparr>proof_key = replicate 32 (CHR ''a''), proof_nonce = nonce,
       proof_handle = sample_handle\<rparr>)"
  using assms
  by (simp add: request_proof_def header_def sample_header_values verify_request_def sample_app_simps
      sample_crates_simps sample_strings parse_show_int sample_cfg_def)

lemma fresh_now: "0 \<le> skew \<Longrightarrow> fresh t t skew"
  by (simp add: fresh_def whole_seconds_def)

lemma sample_authenticate_at:
  assumes "faults w = []" "in_i64 t" "in_i64 now" "fresh now t 300" "\<not> nonce_seen sample_handle nonce (store w)"
  shows "authenticate sample_app (sample_headers nonce t) verb path body now w =
    (Inr sample_who, w\<lparr>store := snd (record_nonce sample_handle nonce (show_int now) (store w))\<rparr>)"
  using assms
  by (simp add: authenticate_def run_simps sample_proof stamp_def sample_app_simps
      sample_crates_simps record_nonce_first sample_who_def)

lemmas sample_authenticate = sample_authenticate_at [where now = t and t = t for t, OF _ _ _ fresh_now, simplified]

text \<open>The tail of a program is not touched before its head has run.\<close>

lemma bindE_head: "m = m' \<Longrightarrow> bindE m f = bindE m' f"
  and matchE_head: "m = m' \<Longrightarrow> matchE m h f = matchE m' h f"
  by simp_all

lemmas sample_eval = respond_def handle_request_def sample_context_def run_simps Let_def
  sample_app_simps sample_authenticate sample_crates_simps sample_strings body_limit_def
  max_json_body_bytes_def max_chunk_body_bytes_def i64_defs parse_show_int require_ungated
  record_nonce_def nc_key_def insert_or_ignore_def nonce_seen_def sample_cfg_def sample_docs_def
  requires_entitlement_def snapshot_exists_def count_where_def usage_def sql_sum_def nanos_def stamp_def
  set_disk_def sync_dir_def dir_lookup_def dir_put_def sample_who_def

subsection \<open>The states\<close>

definition sample_nonce :: "string \<Rightarrow> int \<Rightarrow> nonce_row" where
  "sample_nonce n t = \<lparr>nc_holder = sample_handle, nc_nonce = n, nc_seen_at = show_int t\<rparr>"

definition sample_incoming :: path where
  "sample_incoming = incoming_dir ''/data/blobs'' ''u1''"

definition sample_dir :: path where
  "sample_dir = snapshot_dir ''/data/blobs'' sample_handle sample_hex"

definition sample_upload :: upload_row where
  "sample_upload = \<lparr>up_id = ''u1'', up_holder = sample_handle, up_operation = ''op1'', up_digest = sample_digest,
     up_size = 3, up_chunk_bytes = 2, up_chunk_count = 2, up_terms = sample_terms_id, up_supersedes = None,
     up_started_at = show_int 10, up_expires_at = show_int 86400000000010\<rparr>"

definition sample_row :: snapshot_row where
  "sample_row = new_snapshot sample_upload (show_int 40)"

definition sample_terms_row :: terms_row where
  "sample_terms_row = \<lparr>td_id = sample_terms_id, td_raw = ''{}'', td_signature = replicate 64 (CHR ''s''),
     td_first_seen = show_int 0\<rparr>"

definition sample_outcome :: outcome_row where
  "sample_outcome = \<lparr>oc_holder = sample_handle, oc_operation = ''op1'', oc_subject = sample_digest,
     oc_status = ''retained'', oc_receipt_ids = None, oc_recorded_at = show_int 40\<rparr>"

definition sample_store :: "upload_row list \<Rightarrow> nonce_row list \<Rightarrow> store" where
  "sample_store us ns = empty_store\<lparr>t_terms := [sample_terms_row], t_uploads := us, t_nonces := ns\<rparr>"

definition sample_world :: "store \<Rightarrow> disk \<Rightarrow> world" where
  "sample_world s d = \<lparr>store = s, disk = d, epoch = None, faults = []\<rparr>"

definition world0 :: world where
  "world0 = sample_world (sample_store [] []) []"

definition world1 :: world where
  "world1 = sample_world (sample_store [sample_upload] [sample_nonce ''n1'' 10]) [(sample_incoming, [])]"

definition world2 :: world where
  "world2 = sample_world (sample_store [sample_upload] [sample_nonce ''n1'' 10, sample_nonce ''n2'' 20])
     [(sample_incoming, [(0, ''ab'')])]"

definition world3 :: world where
  "world3 = sample_world (sample_store [sample_upload]
     [sample_nonce ''n1'' 10, sample_nonce ''n2'' 20, sample_nonce ''n3'' 30])
     [(sample_incoming, [(0, ''ab''), (1, ''c'')])]"

definition world4 :: world where
  "world4 = sample_world ((sample_store []
     [sample_nonce ''n1'' 10, sample_nonce ''n2'' 20, sample_nonce ''n3'' 30, sample_nonce ''n4'' 40])
       \<lparr>t_snapshots := [sample_row], t_outcomes := [sample_outcome]\<rparr>)
     [(sample_dir, [(0, ''ab''), (1, ''c'')])]"

lemmas sample_states = world0_def world1_def world2_def world3_def world4_def sample_world_def
  sample_store_def empty_store_def sample_nonce_def sample_upload_def sample_row_def new_snapshot_def
  sample_incoming_def sample_dir_def sample_terms_row_def sample_outcome_def

lemma run0: "boot sample_app 0 blank = (Inr (), world0)"
  by (simp add: boot_def remember_boot_terms_def remember_terms_def blank_def sample_states sample_eval
      cong: bindE_head)

lemma run1: "snd (respond sample_app Post_preflight (sample_context ''n1'' sample_terms_id 10) world0) = world1"
  by (simp add: preflight_def check_preflight_def open_grant_for_def new_grant_def open_grants_def
      mint_grant_def time_add_def checked_time_def representable_def begin_incoming_def create_dir_all_def
      begin_upload_def grant_row_def quot64_def sample_states sample_eval cong: bindE_head)

lemmas put_eval = put_chunk_def granted_upload_def upload_def has_expired_def expected_chunk_def
  write_chunk_def create_chunk_def write_bytes_def read_file_def

lemma run2: "snd (respond sample_app (Put_chunk ''u1'' 0) (sample_context ''n2'' ''ab'' 20) world1) = world2"
  by (simp add: put_eval sample_states sample_eval cong: bindE_head matchE_head)

lemma run3: "snd (respond sample_app (Put_chunk ''u1'' 1) (sample_context ''n3'' ''c'' 30) world2) = world3"
  by (simp add: put_eval sample_states sample_eval cong: bindE_head matchE_head)

lemmas commit_eval = commit_def commit_lookup_def granted_upload_def upload_def has_expired_def
  commit_verify_def arrival_def arrival_step_def chunk_length_def read_file_def take_fault_def
  digest_of_def digest_step_def commit_place_def commit_quota_def open_grants_def commit_blob_def
  sync_existing_dir_def dir_move_def dir_remove_def retain_def drop_upload_def delete_where_def
  record_outcome_def insert_or_replace_def

lemma two_chunks: "[0..1] = [0, 1 :: int]"
  by (simp add: upto.simps)

lemma paths_differ [simp]: "sample_dir \<noteq> sample_incoming" "sample_incoming \<noteq> sample_dir" 
  by (simp_all add: sample_dir_def sample_incoming_def)

lemma run4: "snd (respond sample_app (Post_commit ''u1'') (sample_context ''n4'' [] 40) world3) = world4"
  by (simp add: commit_eval two_chunks sample_states sample_eval cong: bindE_head matchE_head)

definition sample_receipt_id :: string where "sample_receipt_id = ''r'' @ sample_terms_id"

definition sample_receipt :: receipt_row where
  "sample_receipt = \<lparr>rc_id = sample_receipt_id, rc_holder = sample_handle, rc_scope = ''all'',
     rc_terms = sample_terms_id, rc_raw = ''{}'', rc_issued_at = show_int 50\<rparr>"

definition world5 :: world where
  "world5 = sample_world ((sample_store []
     [sample_nonce ''n1'' 10, sample_nonce ''n2'' 20, sample_nonce ''n3'' 30, sample_nonce ''n4'' 40,
      sample_nonce ''n5'' 50])
       \<lparr>t_snapshots := [sample_row\<lparr>snap_erased_at := Some (show_int 50)\<rparr>],
        t_outcomes := [sample_outcome, \<lparr>oc_holder = sample_handle, oc_operation = ''op2'', oc_subject = ''all'',
           oc_status = ''erasure_acknowledged'', oc_receipt_ids = Some ''{}'', oc_recorded_at = show_int 50\<rparr>],
        t_receipts := [sample_receipt],
        t_coverage := [\<lparr>cov_receipt = sample_receipt_id, cov_digest = sample_digest\<rparr>]\<rparr>) []"

lemma sample_compose:
  "compose sample_app sample_terms sample_terms_id ''all'' [sample_digest] (show_int 50) sample_receipt_id =
     Inr (JObj [(''receiptVersion'', JInt 1), (''receiptId'', JStr sample_receipt_id),
       (''operator'', JStr (''onym:key:'' @ replicate 64 (CHR ''0''))), (''scope'', JStr ''all''),
       (''snapshots'', JArr [JStr sample_digest]), (''acknowledgedAt'', JStr (show_int 50)),
       (''completionCommittedBy'', JStr (show_int 604800000000050)), (''coveredScope'', JStr ''copies''),
       (''excludedScope'', JStr ''exports''), (''termsId'', JStr sample_terms_id)])"
proof -
  have d: "iso8601_days ''P7D'' = Inr 604800" by code_simp
  have t: "trim ''copies'' = ''copies''" "trim ''exports'' = ''exports''" by code_simp+
  show ?thesis
    by (simp add: compose_def sample_terms_def sample_app_simps text_field_def jindex_def d t sample_docs_def
        sample_crates_simps parse_show_int time_add_def checked_time_def representable_def nanos_def i64_defs stamp_def)
qed
lemma sample_mint:
  assumes "t_terms s = [sample_terms_row]"
  shows "mint_receipts sample_app ''all'' [sample_row] (show_int 50) ((#) (CHR ''r'')) s =
    Inr [(sample_terms, \<lparr>mint_id = sample_receipt_id, mint_terms = sample_terms_id, mint_raw = ''{}'',
      mint_covers = [sample_digest]\<rparr>)]"
proof -
  have sig: "sign sample_crates seed (JObj kvs) om = Inr ''{}''" if "no_floats (JObj kvs)" for seed kvs om
    using sign_total [OF that, of sample_crates seed om] by (auto simp: sample_crates_simps)
  show ?thesis
    using assms
    by (simp add: mint_receipts_def pinned_terms_def mint_receipt_def covered_by_def terms_document_def Let_def
       sample_terms_row_def sample_row_def new_snapshot_def sample_upload_def sample_app_simps sample_crates_simps
       sample_compose [unfolded sample_receipt_id_def, simplified] jindex_def sign_receipt_def sig list_all_iff
       sample_receipt_id_def)
qed

lemmas erase_eval = erase_def check_erase_def snapshots_in_scope_def snapshots_def listed_def live_def
  erase_targets_def commit_erasure_def mark_erased_def update_where_def insert_receipt_def ids_text_def
  record_outcome_def insert_or_replace_def unlink_erased_def erase_blob_def remove_dir_all_def take_fault_def
  dir_remove_def oc_key_def cov_key_def delete_where_def

lemma run5: "snd (respond sample_app Post_erasure (sample_context ''n5'' [] 50) world4) = world5"
proof -
  have t: "trim ''op2'' \<noteq> []" by code_simp
  show ?thesis
    by (simp add: erase_eval sample_eval sample_states world5_def t
        sample_mint [simplified sample_states, simplified] sample_receipt_def cong: bindE_head matchE_head)
qed

text \<open>The same erasure, from inside the handler.\<close>

lemma sample_erased: "snd (erase sample_app (sample_headers ''n5'' 50) [] 50 ((#) (CHR ''r'')) world4) = world5"
proof -
  have t: "trim ''op2'' \<noteq> []" by code_simp
  show ?thesis
    by (simp add: erase_eval sample_eval sample_states world5_def t
        sample_mint [simplified sample_states, simplified] sample_receipt_def cong: bindE_head matchE_head)
qed

definition sample_erase :: erase_request where
  "sample_erase = \<lparr>erase_operation_id = ''op2'', erase_scope = ''all''\<rparr>"

definition sample_decision :: world where
  "sample_decision = world4\<lparr>store := (store world4)\<lparr>t_nonces := t_nonces (store world5)\<rparr>\<rparr>"

lemma sample_decided:
  "store world5 = decided sample_app (h_handle sample_who) sample_erase [sample_row] (show_int 50)
     [(sample_terms, \<lparr>mint_id = sample_receipt_id, mint_terms = sample_terms_id, mint_raw = ''{}'',
       mint_covers = [sample_digest]\<rparr>)] (store sample_decision)"
  by (simp add: decided_def erase_eval sample_erase_def sample_decision_def world5_def sample_states sample_who_def
      sample_app_simps sample_crates_simps insert_or_ignore_def sample_receipt_def)

lemma sample_erase_targets:
  "\<exists>docs w1. erase_targets sample_app sample_who sample_erase [sample_row] (show_int 50) ((#) (CHR ''r'')) sample_decision =
     (Inr (docs, [sample_hex]), w1) \<and> snd (unlink_erased sample_app sample_handle [sample_hex] w1) = world5"
proof -
  have m: "mint_receipts sample_app (erase_scope sample_erase) [sample_row] (show_int 50) ((#) (CHR ''r'')) (store sample_decision) =
      Inr [(sample_terms, \<lparr>mint_id = sample_receipt_id, mint_terms = sample_terms_id, mint_raw = ''{}'',
        mint_covers = [sample_digest]\<rparr>)]"
    using sample_mint [of "store sample_decision"] by (simp add: sample_decision_def sample_states sample_erase_def)
  have f: "faults sample_decision = []" by (simp add: sample_decision_def world4_def sample_world_def)
  have x: "collect_results digest_hex (map snap_digest [sample_row]) = Inr [sample_hex]"
    by (simp add: sample_row_def new_snapshot_def sample_upload_def sample_strings)
  have e: "erase_targets sample_app sample_who sample_erase [sample_row] (show_int 50) ((#) (CHR ''r'')) sample_decision =
      (Inr ([sample_terms], [sample_hex]), sample_decision\<lparr>store := store world5\<rparr>)"
    using f m x sample_decided [unfolded decided_def]
    by (simp add: erase_targets_def bindE_run query_calm statement_calm liftE_run returnE_run sample_app_simps)
  then show ?thesis
    using f by (auto simp: unlink_calm sample_decision_def dir_remove_def sample_states world5_def sample_app_simps sample_cfg_def)
qed

lemmas task_eval = sweep_task_def cutoffs_at_def record_floor_def time_sub_def checked_time_def representable_def
  checked_mul64_def sample_app_simps sample_crates_simps sample_cfg_def i64_defs nanos_def run_simps reconcile_def
  requires_entitlement_def sweep_post_grace_def or_else_def Let_def

lemmas sweep_eval = run_simps or_else_def counted_def take_fault_def walk_def holders_with_snapshots_def
  sweep_grants_def expired_uploads_def sweep_incoming_def incoming_on_disk_def incoming_ids_def
  sweep_claimed_def all_live_snapshots_def sweep_records_def holders_losing_entitlements_def
  sweep_superseded_entitlements_def count_where_def adopt_unrecorded_def sweep_lapse_rows_def lapsed_holders_def
  sweep_metadata_def all_retained_keys_def delete_where_def sweep_orphans_def retained_on_disk_def
  retained_paths_def sweep_nonces_def sweep_outcomes_and_receipts_def sweep_erased_references_def Let_def
  jd_less_def sample_crates_simps parse_show_int i64_defs nothing_swept_def map_filter_simps

section \<open>The states are reachable\<close>

lemma sample_decodes: "decodes_i64 sample_crates"
  by (simp add: decodes_i64_def sample_crates_simps i64_defs)

lemma sample_fresh0: "fresh_ids sample_app (sample_context n body t) world0"
  by (simp add: fresh_ids_def sample_context_def sample_states dir_lookup_def inj_def)

lemmas fresh_eval = fresh_ids_def sample_context_def sample_states sample_app_simps dir_lookup_def
  sample_cfg_def inj_def

lemma sample_fresh:
  "fresh_ids sample_app (sample_context ''n2'' body t) world1"
  "fresh_ids sample_app (sample_context ''n3'' body t) world2"
  "fresh_ids sample_app (sample_context ''n4'' body t) world3"
  "fresh_ids sample_app (sample_context ''n5'' body t) world4"
  by (simp_all add: fresh_eval)

lemma with_no_faults: "faults w = [] \<Longrightarrow> with_faults [] w = w"
  by (simp add: with_faults_def)

lemma calm_run: "faults w = [] \<Longrightarrow> f (with_faults [] w) = (fst (f w), snd (f w))"
  by (simp add: with_no_faults)

lemma sample_serve:
  assumes "operates sample_crates ''/data/blobs'' sample_app w" "fresh_ids sample_app c w" "faults w = []"
    "snd (respond sample_app req c w) = w'"
  shows "operates sample_crates ''/data/blobs'' sample_app w'"
  by (rule operates.Serve [OF assms(1,2), where req = req and answer = "fst (respond sample_app req c w)" and fs = "[]"])
    (simp add: with_no_faults [OF assms(3)] assms(4) [symmetric])

lemma sample_faults [simp]: "faults (sample_world s d) = []"
  by (simp add: sample_world_def)

lemma sample_calm [simp]:
  "faults world0 = []" "faults world1 = []" "faults world2 = []" "faults world3 = []" "faults world4 = []"
  "faults world5 = []"
  by (simp_all add: world0_def world1_def world2_def world3_def world4_def world5_def)

lemma sample_reached:
  "operates sample_crates ''/data/blobs'' sample_app world0"
  "operates sample_crates ''/data/blobs'' sample_app world1"
  "operates sample_crates ''/data/blobs'' sample_app world2"
  "operates sample_crates ''/data/blobs'' sample_app world3"
  "operates sample_crates ''/data/blobs'' sample_app world4"
  "operates sample_crates ''/data/blobs'' sample_app world5"
proof -
  show 0: "operates sample_crates ''/data/blobs'' sample_app world0"
    by (rule operates.Start [OF sample_boots, where fs = "[]" and now = 0])
      (simp_all add: sample_app_simps sample_cfg_def with_no_faults blank_def run0 [unfolded blank_def])
  show 1: "operates sample_crates ''/data/blobs'' sample_app world1"
    by (rule sample_serve [OF 0 sample_fresh0 _ run1]) simp
  show 2: "operates sample_crates ''/data/blobs'' sample_app world2"
    by (rule sample_serve [OF 1 sample_fresh(1) _ run2]) simp_all
  show 3: "operates sample_crates ''/data/blobs'' sample_app world3"
    by (rule sample_serve [OF 2 sample_fresh(2) _ run3]) simp_all
  show 4: "operates sample_crates ''/data/blobs'' sample_app world4"
    by (rule sample_serve [OF 3 sample_fresh(3) _ run4]) simp_all
  show "operates sample_crates ''/data/blobs'' sample_app world5"
    by (rule sample_serve [OF 4 sample_fresh(4) _ run5]) simp_all
qed

lemma sample_runs_step:
  assumes "runs sample_app (\<lambda>_. True) w0 w" "fresh_ids sample_app c w" "faults w = []"
    "snd (respond sample_app req c w) = w'"
  shows "runs sample_app (\<lambda>_. True) w0 w'"
  by (rule runs.Serves [OF assms(1,2), where req = req and answer = "fst (respond sample_app req c w)" and fs = "[]"])
    (simp add: with_no_faults [OF assms(3)] assms(4) [symmetric])

lemma sample_runs: "runs sample_app (\<lambda>_. True) world0 world4"
proof -
  have 1: "runs sample_app (\<lambda>_. True) world0 world1" by (rule sample_runs_step [OF runs.Stays sample_fresh0 _ run1]) simp
  have 2: "runs sample_app (\<lambda>_. True) world0 world2" by (rule sample_runs_step [OF 1 sample_fresh(1) _ run2]) simp
  have 3: "runs sample_app (\<lambda>_. True) world0 world3" by (rule sample_runs_step [OF 2 sample_fresh(2) _ run3]) simp
  show ?thesis by (rule sample_runs_step [OF 3 sample_fresh(3) _ run4]) simp
qed

section \<open>The same grant with other bytes\<close>

definition spoiled2 :: world where
  "spoiled2 = world2\<lparr>disk := [(sample_incoming, [(0, ''xx'')])]\<rparr>"

definition spoiled3 :: world where
  "spoiled3 = world3\<lparr>disk := [(sample_incoming, [(0, ''xx''), (1, ''c'')])]\<rparr>"

lemma spoiled_calm [simp]: "faults spoiled2 = []" "faults spoiled3 = []"
  by (simp_all add: spoiled2_def spoiled3_def)

lemma spoiled_run2: "snd (respond sample_app (Put_chunk ''u1'' 0) (sample_context ''n2'' ''xx'' 20) world1) = spoiled2"
  by (simp add: put_eval sample_states sample_eval spoiled2_def cong: bindE_head matchE_head)

lemma spoiled_run3: "snd (respond sample_app (Put_chunk ''u1'' 1) (sample_context ''n3'' ''c'' 30) spoiled2) = spoiled3"
  by (simp add: put_eval sample_states sample_eval spoiled2_def spoiled3_def cong: bindE_head matchE_head)

lemma spoiled_reached: "operates sample_crates ''/data/blobs'' sample_app spoiled3"
proof -
  have f: "fresh_ids sample_app (sample_context ''n3'' ''c'' 30) spoiled2"
    by (simp add: fresh_eval spoiled2_def)
  have 2: "operates sample_crates ''/data/blobs'' sample_app spoiled2"
    by (rule sample_serve [OF sample_reached(2) sample_fresh(1) _ spoiled_run2]) simp
  show ?thesis by (rule sample_serve [OF 2 f _ spoiled_run3]) simp
qed

lemma lookup_sample_upload:
  assumes "faults w = []" "upload ''u1'' (store w) = Some sample_upload" "in_i64 t" "t < 86400000000010"
    "\<not> nonce_seen sample_handle n (store w)"
  shows "\<exists>w1. granted_upload sample_app (sample_headers n t) verb path body t ''u1'' w = (Inr sample_upload, w1)"
proof -
  have "upload ''u1'' (snd (record_nonce h m t (store w))) = upload ''u1'' (store w)" for h m t
    by (simp add: upload_def record_nonce_def Let_def)
  moreover have "up_holder sample_upload = h_handle sample_who" "up_expires_at sample_upload = show_int 86400000000010"
    by (simp_all add: sample_upload_def sample_who_def)
  moreover have "in_i64 86400000000010" by (simp add: i64_defs)
  ultimately show ?thesis
    using assms by (simp add: granted_upload_def bindE_run sample_authenticate select_calm liftE_run has_expired_def
        sample_app_simps sample_crates_simps parse_show_int returnE_run)
qed

lemma sample_paths:
  "chunk_paths ''/data/blobs'' sample_handle sample_hex 2 3 (disk world4) = Inr [(sample_dir, 0), (sample_dir, 1)]"
  by (simp add: chunk_paths_def chunk_paths_unchecked_def sample_dir_def [symmetric] world4_def sample_world_def
      dir_lookup_def read_file_def checked_add64_def i64_defs upt_rec Let_def)

lemma sample_stream: "snapshot_stream (disk world4) [(sample_dir, 0), (sample_dir, 1)] = Inr ''abc''"
  by (simp add: world4_def sample_world_def dir_lookup_def read_file_def)

section \<open>An interval no clock can go back\<close>

lemma polling_config:
  "from_env sample_crates 0 (sample_env(''BACKUP_REVOCATION_POLL_SECS'' \<mapsto> ''40000000000'')) =
     Inr (sample_cfg\<lparr>revocation_poll_secs := 40000000000\<rparr>)"
proof (rule from_env_poll [OF sample_config])
  have "trim ''40000000000'' = ''40000000000''" by code_simp
  then show "parse_positive_u64 (sample_env(''BACKUP_REVOCATION_POLL_SECS'' \<mapsto> ''40000000000''))
      ''BACKUP_REVOCATION_POLL_SECS'' 900 = Inr 40000000000"
    by (simp add: parse_positive_u64_def parse_u64_def parse_digits_def digit_value_def u64_max_def)
qed

section \<open>Another holder\<close>

definition other_context :: "string \<Rightarrow> bytes \<Rightarrow> int \<Rightarrow> arrival_context" where
  "other_context nonce body t = (sample_context nonce body t)
     \<lparr>ctx_headers := (sample_headers nonce t)(holder_header \<mapsto> holder_prefix @ replicate 64 (CHR ''b''))\<rparr>"

lemma other_claims: "claimed sample_app (ctx_headers (other_context n body t)) \<noteq> Some sample_handle"
proof -
  have "holder_key sample_crates (holder_prefix @ replicate 64 (CHR ''b'')) = Inr (replicate 32 (CHR ''b''))"
    "holder_handle sample_crates (replicate 32 (CHR ''b'')) \<noteq> sample_handle"
    by code_simp+
  then show ?thesis by (simp add: claimed_def other_context_def sample_app_simps)
qed

lemma other_fresh: "fresh_ids sample_app (other_context n body t) w = fresh_ids sample_app (sample_context n body t) w"
  by (simp add: fresh_ids_def other_context_def)

section \<open>A captured request\<close>

definition captured :: "instant \<Rightarrow> arrival_context" where
  "captured now = sample_context ''n1'' [] 301000000000\<lparr>ctx_now := now\<rparr>"

section \<open>An operator that charges\<close>

definition sample_issuer :: string where
  "sample_issuer = ''onym:key:'' @ replicate 64 (CHR ''0'')"

definition seat :: json where
  "seat = JObj [(''version'', JInt 1), (''type'', JStr ''SeatEntitlement''), (''issuer'', JStr sample_issuer),
     (''signature'', JStr (replicate 64 (CHR ''s''))), (''audience'', JStr ''onym:component:x''),
     (''subject'', JStr sample_holder), (''notBefore'', JStr ''0''), (''expiresAt'', JStr ''100''),
     (''entitlementId'', JStr ''e1''), (''offerId'', JStr ''o1'')]"

definition seat_crates :: crates where
  "seat_crates = sample_crates\<lparr>json_parse := (\<lambda>_. Some seat)\<rparr>"

definition charging_cfg :: config where
  "charging_cfg = sample_cfg\<lparr>entitlement_issuers := [sample_issuer]\<rparr>"

definition charging_app :: app where
  "charging_app = \<lparr>lib = sample_crates, cfg = charging_cfg, docs = sample_docs\<rparr>"

definition seat_app :: app where
  "seat_app = charging_app\<lparr>lib := seat_crates\<rparr>"

text \<open>The holder of the run above, whose only credential ran out at 45.\<close>

definition lapsed_world :: world where
  "lapsed_world = world4\<lparr>store := (store world4)\<lparr>t_entitlements :=
     [\<lparr>ent_id = ''e0'', ent_holder = sample_handle, ent_offer = ''o1'', ent_not_before = show_int 0,
       ent_expires_at = show_int 45, ent_raw = ''{}'', ent_registered_at = show_int 1\<rparr>]\<rparr>\<rparr>"

lemma charging_simps:
  "lib charging_app = sample_crates" "cfg charging_app = charging_cfg" "docs charging_app = sample_docs"
  "requires_entitlement charging_cfg" "component_id charging_cfg = ''onym:component:x''"
  by (simp_all add: charging_app_def charging_cfg_def requires_entitlement_def sample_cfg_def)

lemma lapsed_calm [simp]: "faults lapsed_world = []"
  by (simp add: lapsed_world_def)

lemma lapsed_expiries:
  "expiries sample_crates sample_handle (store lapsed_world) = {45}"
  "unrevoked sample_crates sample_handle [] (store lapsed_world) = {45}"
  by (simp_all add: expiries_def unrevoked_def lapsed_world_def sample_crates_simps parse_show_int i64_defs)

definition sample_clause :: end_of_payment where
  "sample_clause = \<lparr>notice_secs = 1209600, grace_secs = 2592000,
     during_grace = [''download'', ''export'', ''erase''], after_grace = ''erase''\<rparr>"

lemma lapsed_window:
  "in_window sample_crates sample_handle 45 (store lapsed_world) sample_row sample_clause 3801600000000045"
proof -
  have c: "clause_of sample_terms = Some sample_clause" by code_simp
  show ?thesis
    by (simp add: in_window_def lapsed_world_def sample_states live_def end_of_payment_def terms_document_def
        sample_crates_simps c window_end_def sample_clause_def checked_add64_def i64_defs time_add_def
        checked_time_def representable_def nanos_def)
qed

lemma lapsed_horizon:
  "entitlement_horizon sample_crates sample_handle [] (store lapsed_world) =
     Some \<lparr>hz_access = Some (show_int 45), hz_lifecycle = show_int 45\<rparr>"
  by (simp add: entitlement_horizon_def lapsed_world_def later_def sample_crates_simps parse_show_int i64_defs)

lemma lapsed_windows:
  "holder_windows sample_crates sample_handle 45 (store lapsed_world) =
     Inr [(sample_row, sample_clause, 3801600000000045)]"
proof -
  have c: "clause_of sample_terms = Some sample_clause" by code_simp
  show ?thesis
    by (simp add: holder_windows_def snapshots_def listed_def lapsed_world_def sample_states live_def
        end_of_payment_def terms_document_def sample_crates_simps c window_end_def sample_clause_def checked_add64_def
        i64_defs time_add_def checked_time_def representable_def nanos_def)
qed

lemma lapsed_lifecycle:
  "lifecycle_horizon sample_crates sample_handle [] (store lapsed_world) = Inr (Some 45)"
  by (simp add: lifecycle_horizon_def lapsed_horizon sample_crates_simps parse_show_int i64_defs)

text \<open>What the gate reads does not depend on the nonces.\<close>

lemma horizon_nonces [simp]:
  "entitlement_horizon X h revoked (s\<lparr>t_nonces := n\<rparr>) = entitlement_horizon X h revoked s"
  "end_of_payment X t (s\<lparr>t_nonces := n\<rparr>) = end_of_payment X t s"
  "snapshots X h (s\<lparr>t_nonces := n\<rparr>) = snapshots X h s"
  "stored_lapse_state h (s\<lparr>t_nonces := n\<rparr>) = stored_lapse_state h s"
  by (simp_all add: entitlement_horizon_def end_of_payment_def terms_document_def snapshots_def listed_def stored_lapse_state_def)

lemma windows_nonces [simp]: "windows X t (s\<lparr>t_nonces := n\<rparr>) rows = windows X t s rows"
  by (induction rows) (simp_all cong: option.case_cong)

lemma stored_access_nonces [simp]: "stored_access X h revoked now (s\<lparr>t_nonces := n\<rparr>) = stored_access X h revoked now s"
  by (simp add: stored_access_def lifecycle_horizon_def grace_from_def holder_windows_def
      has_entitlement_record_def cong: option.case_cong if_cong)

lemma lapsed_access:
  "stored_access sample_crates sample_handle [] 60 (store lapsed_world) = Inr (Grace [''download'', ''export'', ''erase''])"
proof -
  have "grace_from sample_crates sample_handle 45 60 (store lapsed_world) = Inr (Grace [''download'', ''export'', ''erase''])"
    by (simp add: grace_from_def lapsed_windows sample_clause_def)
  then show ?thesis by (simp add: stored_access_def lapsed_horizon lapsed_lifecycle sample_crates_simps parse_show_int i64_defs)
qed

lemma charging_authenticate: "authenticate charging_app hs verb path body now = authenticate sample_app hs verb path body now"
proof -
  have "max_skew_secs charging_cfg = max_skew_secs sample_cfg" by (simp add: charging_cfg_def)
  then show ?thesis by (simp add: authenticate_def request_proof_def charging_simps(1,2) sample_app_simps)
qed

text \<open>The lapsed holder asks for a grant for other bytes.\<close>

lemma lapsed_preflight:
  "fst (handle_request charging_app Post_preflight (sample_context ''n9'' sample_terms_id 60) lapsed_world) =
     Inl (payment_required charging_app)"
proof -
  have "\<not> nonce_seen sample_handle ''n9'' (store lapsed_world)"
    by (simp add: nonce_seen_def lapsed_world_def sample_states nc_key_def)
  then have auth: "authenticate charging_app (sample_headers ''n9'' 60) ''POST'' ''/v1/preflight'' body 60 lapsed_world =
    (Inr sample_who, lapsed_world\<lparr>store := snd (record_nonce sample_handle ''n9'' (show_int 60) (store lapsed_world))\<rparr>)" for body
    by (simp add: charging_authenticate sample_authenticate i64_defs)
  have r: "revoked_ids (lapsed_world\<lparr>store := s\<rparr>) = []" for s
    by (simp add: revoked_ids_def lapsed_world_def world4_def sample_world_def)
  have grants: "open_grant_for sample_crates sample_handle d t (s\<lparr>t_nonces := n\<rparr>) = open_grant_for sample_crates sample_handle d t s" for d t s n
    by (simp add: open_grant_for_def)
  have "open_grant_for sample_crates sample_handle d t (store lapsed_world) = None" for d t
    by (simp add: open_grant_for_def lapsed_world_def sample_states)
  then show ?thesis
    by (simp add: handle_request_def sample_context_def Let_def preflight_def check_preflight_def bindE_run auth liftE_run
        charging_simps sample_crates_simps sample_strings stamp_def i64_defs select_calm record_nonce_def grants sample_who_def
        new_grant_def sample_docs_def require_def evaluate_def presented_def getE_run r sample_header_values query_calm
        lapsed_access permits_def refused_holder_wide_def throwE_run)
qed

lemma sample_clocks: "julianday_monotone sample_crates" "rfc_roundtrip sample_crates"
proof -
  have same: "rfc_format sample_crates = rfc_format toy" "rfc_parse sample_crates = rfc_parse toy"
    "julianday sample_crates = julianday toy"
    by (simp_all add: sample_crates_def)
  show "julianday_monotone sample_crates" using julianday_monotone_toy unfolding julianday_monotone_def same .
  show "rfc_roundtrip sample_crates" using rfc_roundtrip_toy unfolding rfc_roundtrip_def same .
qed

section \<open>An operator that polls\<close>

definition epoch_document :: json where
  "epoch_document = JObj [(''epoch'', JInt 7), (''publishedAt'', JStr ''5''), (''revoked'', JArr [JStr ''e1'']),
     (''signature'', JStr (replicate 64 (CHR ''s'')))]"

definition epoch_crates :: crates where
  "epoch_crates = sample_crates\<lparr>json_parse := (\<lambda>_. Some epoch_document)\<rparr>"

definition polling_env :: env where
  "polling_env = map_of
     [(''BACKUP_COMPONENT_ID'', ''onym:component:x''), (''BACKUP_PUBLIC_URL'', ''https://b''),
      (''BACKUP_SIGNING_SEED'', replicate 64 (CHR ''0'')), (''BACKUP_CHUNK_BYTES'', ''2''),
      (''BACKUP_MAX_SNAPSHOTS'', ''1''), (''BACKUP_ENTITLEMENT_ISSUERS'', sample_issuer),
      (''BACKUP_OFFERS'', ''o1''), (''BACKUP_REVOCATION_URL'', ''https://r'')]"

definition polling_cfg :: config where
  "polling_cfg = sample_cfg\<lparr>entitlement_issuers := [sample_issuer], offers := [''o1''], revocation_url := Some ''https://r''\<rparr>"

lemma polling_cfg_read: "from_env epoch_crates 0 polling_env = Inr polling_cfg"
  by code_simp

definition epoch_seven :: epoch where
  "epoch_seven = \<lparr>e_epoch = 7, e_published_at = 5, e_revoked = [''e1''], e_raw = ''x''\<rparr>"

lemma built_when_parsed:
  assumes "\<And>b. json_parse X b = Some v" "no_floats v"
  shows "\<exists>d. build_documents X c seed = Inr d"
proof -
  let ?om = "[''termsId'', ''signature'']"
  let ?k = "''onym:key:'' @ hex_encode X (ed_public X seed)"
  obtain t where "sign X seed (default_terms c ?k) ?om = Inr t"
    using sign_total [OF documents_no_floats(1)] by blast
  moreover obtain canonical where "canonical_bytes v ?om = Inr canonical"
    using canonical_bytes_total [OF assms(2)] by blast
  moreover obtain m where "sign X seed (manifest_document c ?k (digest X canonical)) [''signature''] = Inr m"
    using sign_total [OF documents_no_floats(2)] by blast
  ultimately show ?thesis using assms(1) by (simp add: build_documents_def)
qed

definition epoch_docs :: documents where
  "epoch_docs = projr (build_documents epoch_crates polling_cfg (signing_seed polling_cfg))"

definition epoch_app :: app where
  "epoch_app = \<lparr>lib = epoch_crates, cfg = polling_cfg, docs = epoch_docs\<rparr>"

lemma epoch_boots: "boot_app epoch_crates 0 polling_env = Inr epoch_app"
proof -
  obtain d where "build_documents epoch_crates polling_cfg (signing_seed polling_cfg) = Inr d"
    using built_when_parsed [of epoch_crates epoch_document polling_cfg "signing_seed polling_cfg"]
    by (auto simp: epoch_crates_def epoch_document_def)
  then show ?thesis by (simp add: boot_app_def polling_cfg_read epoch_app_def epoch_docs_def)
qed

lemma epoch_parsed: "parse_epoch epoch_app ''x'' = Inr epoch_seven"
proof -
  have "parse_epoch \<lparr>lib = epoch_crates, cfg = polling_cfg, docs = sample_docs\<rparr> ''x'' = Inr epoch_seven"
    by code_simp
  moreover have "parse_epoch \<lparr>lib = X, cfg = c, docs = d\<rparr> raw = parse_epoch \<lparr>lib = X, cfg = c, docs = d'\<rparr> raw" for X c d d' raw
    by (simp add: parse_epoch_def)
  ultimately show ?thesis unfolding epoch_app_def by metis
qed

definition polled0 :: world where
  "polled0 = blank\<lparr>store := remember_terms (doc_terms_id epoch_docs) (doc_terms epoch_docs)
     (doc_terms_signature epoch_docs) (show_int 0) empty_store\<rparr>"

lemma polled0_boot: "boot epoch_app 0 blank = (Inr (), polled0)"
proof -
  have "t_epochs (remember_terms a b c d empty_store) = []" for a b c d
    by (simp add: remember_terms_def empty_store_def)
  then show ?thesis
    by (simp add: boot_def remember_boot_terms_def run_simps epoch_app_def epoch_crates_def sample_crates_simps stamp_def
        i64_defs blank_def polled0_def polling_cfg_def restore_epoch_def latest_epoch_def)
qed

definition polled :: world where
  "polled = snd (poll_epoch epoch_app (Replied 200 ''200 OK'' (Inr ''x'')) 60 polled0)"

lemma polled_epoch: "epoch polled = Some (epoch_seven, 60)" "faults polled = []"
  by (simp_all add: polled_def poll_epoch_def fetch_epoch_def epoch_parsed bindE_run install_epoch_def polled0_def blank_def matchE_run
      cache_epoch_def statement_calm returnE_run)

lemma polled_reached: "operates epoch_crates ''/data/blobs'' epoch_app polled"
proof -
  have root: "blob_root (cfg epoch_app) = ''/data/blobs''"
    by (simp add: epoch_app_def polling_cfg_def sample_cfg_def)
  have calm: "with_faults [] blank = blank"
    by (rule with_no_faults) (simp add: blank_def)
  have 0: "operates epoch_crates ''/data/blobs'' epoch_app polled0"
    by (rule operates.Start [OF epoch_boots, where fs = "[]" and now = 0])
      (simp_all only: root calm polled0_boot)
  have f: "faults polled0 = []" by (simp add: polled0_def blank_def)
  show ?thesis
    by (rule operates.Poll [OF 0, where fetched = "Replied 200 ''200 OK'' (Inr ''x'')" and now = 60 and fs = "[]"])
      (simp add: with_no_faults [OF f] polled_def prod_eq_iff)
qed

section \<open>Commits that overlap\<close>

definition overlap1 :: world where
  "overlap1 = world3\<lparr>store := (store world3)\<lparr>t_nonces := t_nonces (store world3) @ [sample_nonce ''n4'' 40]\<rparr>\<rparr>"

definition overlap2 :: world where
  "overlap2 = world3\<lparr>store := (store world3)\<lparr>t_nonces := t_nonces (store world3) @
     [sample_nonce ''n4'' 40, sample_nonce ''n6'' 41]\<rparr>\<rparr>"

definition overlap3 :: world where
  "overlap3 = world4\<lparr>store := (store world4)\<lparr>t_nonces := t_nonces (store world4) @ [sample_nonce ''n6'' 41]\<rparr>\<rparr>"

definition overlap4 :: world where
  "overlap4 = overlap3\<lparr>store := (store overlap3)\<lparr>t_outcomes := [sample_outcome\<lparr>oc_recorded_at := show_int 41\<rparr>]\<rparr>\<rparr>"

lemmas overlap_states = overlap1_def overlap2_def overlap3_def overlap4_def

lemma overlap_enter:
  "commit_enter sample_app (sample_headers ''n4'' 40) ''u1'' [] 40 world3 = (Inr (sample_upload, sample_hex), overlap1)"
  by (simp add: commit_enter_def commit_eval two_chunks sample_states sample_eval overlap_states cong: bindE_head matchE_head)

lemma overlap_enter2:
  "commit_enter sample_app (sample_headers ''n6'' 41) ''u1'' [] 41 overlap1 = (Inr (sample_upload, sample_hex), overlap2)"
  by (simp add: commit_enter_def commit_eval two_chunks sample_states sample_eval overlap_states cong: bindE_head matchE_head)

lemma overlap_leave: "snd (commit_place sample_app sample_upload sample_hex 40 overlap2) = overlap3"
  by (simp add: commit_eval two_chunks sample_states sample_eval overlap_states cong: bindE_head matchE_head)

lemma overlap_leave2: "snd (commit_place sample_app sample_upload sample_hex 41 overlap3) = overlap4"
proof -
  have r: "[0..<2] = [0, 1 :: nat]" by (simp add: upt_rec)
  show ?thesis
    by (simp add: commit_eval two_chunks inspect_def chunk_paths_def chunk_paths_unchecked_def checked_add64_def digest_paths_def
        discard_upload_def remove_dir_all_def r snap_key_def oc_key_def live_def update_where_def sample_digest_def sample_states sample_eval overlap_states cong: bindE_head matchE_head)
qed

lemma overlap_steady: "steady sample_app sample_upload overlap2" "steady sample_app sample_upload overlap3"
proof -
  have "{0, 1 :: int} = {0..<2}" by auto
  then show "steady sample_app sample_upload overlap2" "steady sample_app sample_upload overlap3"
    by (simp_all add: steady_def complete_incoming_def whole_def content_def chunk_at_def two_chunks overlap_states
        sample_states sample_eval)
qed

text \<open>
  A commit has verified its bytes when its grant expires; the removal of the grant's directory stops
  after one file.
\<close>

definition torn :: world where
  "torn = world3\<lparr>store := (store world3)\<lparr>t_nonces := []\<rparr>, disk := [(sample_incoming, [(1, ''c'')])]\<rparr>"

lemma select_next: "faults w = None # fs \<Longrightarrow> select f w = (Inr (f (store w)), w\<lparr>faults := fs\<rparr>)"
  by (simp add: select_def query_def io_step_def take_fault_def bindE_run)

lemma torn_by_sweep:
  "snd (sweep_task sample_app 86400000000011 (with_faults [None, None, Some 1] overlap1)) = torn"
  by (simp add: select_next task_eval sweep_eval with_faults_def drop_expired_def discard_upload_def remove_dir_all_def
      incoming_dir_def jd_le_def drop_orphan_incoming_def upload_def torn_def overlap_states sample_states dir_lookup_def dir_put_def
      cong: bindE_head matchE_head)

definition torn_placed :: world where
  "torn_placed = world4\<lparr>store := (store world4)\<lparr>t_nonces := []\<rparr>, disk := [(sample_dir, [(1, ''c'')])]\<rparr>"

lemma torn_leave:
  "commit_place sample_app sample_upload sample_hex 40 torn = (Inr (RJson 200 (outcome_json sample_app ''retained''
     (reference_json digest_suite sample_digest 3) sample_terms_id)), torn_placed)"
  by (simp add: commit_eval two_chunks torn_def torn_placed_def sample_states sample_eval cong: bindE_head matchE_head)

lemma torn_unreadable:
  "chunk_paths ''/data/blobs'' sample_handle sample_hex 2 3 (disk torn_placed) = Inl (Err RetentionExpired)"
  by (simp add: chunk_paths_def chunk_paths_unchecked_def torn_placed_def dir_lookup_def sample_dir_def)

lemma overlap_interleaves: "interleaves sample_app world3 [] overlap4"
proof -
  have calm: "with_faults [] overlap1 = overlap1" "with_faults [] overlap2 = overlap2" "with_faults [] overlap3 = overlap3"
    "with_faults [] world3 = world3"
    by (simp_all add: with_no_faults overlap_states)
  have 1: "interleaves sample_app world3 [(sample_upload, sample_hex, 40)] overlap1"
    by (rule Enters [OF Begins, where fs = "[]"]) (simp only: calm, rule overlap_enter)
  have 2: "interleaves sample_app world3 [(sample_upload, sample_hex, 41), (sample_upload, sample_hex, 40)] overlap2"
    by (rule Enters [OF 1, where fs = "[]"]) (simp only: calm, rule overlap_enter2)
  have 3: "interleaves sample_app world3 [(sample_upload, sample_hex, 41)] overlap3"
    using Leaves [OF 2 _ overlap_steady(1), of sample_hex 40 "[]"] surjective_pairing [of "commit_place sample_app sample_upload sample_hex 40 overlap2"]
    by (simp add: calm overlap_leave)
  show ?thesis
    using Leaves [OF 3 _ overlap_steady(2), of sample_hex 41 "[]"] surjective_pairing [of "commit_place sample_app sample_upload sample_hex 41 overlap3"]
    by (simp add: calm overlap_leave2)
qed

section \<open>Crates whose JSON survives printing\<close>

instance json :: countable by countable_datatype

definition exact_crates :: crates where
  "exact_crates = toy\<lparr>json_bytes := (\<lambda>v. replicate (to_nat v) (CHR ''j'')),
     json_parse := (\<lambda>b. Some (from_nat (length b)))\<rparr>"

lemma exact_roundtrip: "json_roundtrip exact_crates"
  by (simp add: json_roundtrip_def exact_crates_def)

lemma from_env_cong:
  assumes "hex_decode X = hex_decode Y" "ed_point X = ed_point Y" "time_min X = time_min Y" "time_max X = time_max Y"
  shows "from_env X = from_env Y"
proof -
  have "parse_seed X = parse_seed Y" by (simp add: fun_eq_iff parse_seed_def assms)
  moreover have "time_sub X = time_sub Y"
    by (simp add: fun_eq_iff time_sub_def checked_time_def representable_def assms)
  then have "parse_past_window_secs X = parse_past_window_secs Y"
    by (simp add: fun_eq_iff parse_past_window_secs_def)
  moreover have "issuer_key X = issuer_key Y" by (simp add: fun_eq_iff issuer_key_def assms cong: if_cong)
  then have "check_issuers X = check_issuers Y" by (simp add: fun_eq_iff check_issuers_def)
  ultimately show ?thesis by (simp add: fun_eq_iff from_env_def cong: if_cong)
qed

lemma exact_config: "from_env exact_crates 0 sample_env = Inr sample_cfg"
proof -
  have "from_env exact_crates = from_env sample_crates"
    by (rule from_env_cong) (simp_all add: exact_crates_def sample_crates_def)
  then show ?thesis by (simp add: sample_config)
qed

end
