(* ===== verification/Spec2Isabelle.thy ===== *)
theory Spec2Isabelle
  imports Sample
begin

text \<open>
  \<^bold>\<open>The backup operator\<close>

  \<open>onym-backup-operator\<close> (\<open>src/operator/src\<close>) keeps sealed snapshots for holders that are public
  keys.  A holder signs every request; a client asks for a grant (\<open>POST /v1/preflight\<close>), sends
  chunks, commits, lists, downloads, exports and erases; an operator that charges admits a holder by a
  broker's credential or by the grace its own terms promise; a sweep collects what ran out.  The state is
  an SQLite store, a directory tree of chunk files, and the revocation epoch in force.

  This library models every request handler, the boot, the polling step and the sweep as executable
  functions of that state, under every schedule of I/O faults, and proves the theorems C1 to C40 of this
  file about them.

  \<^bold>\<open>Theories and sources\<close>

  \<^item> \<open>Prelude\<close>: bytes, 64-bit arithmetic, results, the state-and-error programs (\<open>bindE\<close>,
    \<open>matchE\<close>, \<open>foldE\<close>), their rules (\<open>run_simps\<close>, \<open>valid_rules\<close>), rows with keys.
    \<open>Json\<close>, \<open>Errors\<close> (\<open>error.rs\<close>), \<open>Crates\<close>: values, errors and responses, the libraries.
  \<^item> \<open>Config\<close> (\<open>config.rs\<close>); \<open>Canonical\<close> and \<open>Documents\<close> (\<open>documents.rs\<close>): the
    canonical writer, durations, the manifest, profile and terms and their signatures.
  \<^item> \<open>Payload\<close> (\<open>payload.rs\<close>) and \<open>Auth\<close> (\<open>auth.rs\<close>): the signed bytes, freshness,
    nonces.
  \<^item> \<open>Tables\<close> and \<open>Store\<close> (\<open>store.rs\<close>): one record per table, one list of rows per table
    in the record \<open>store\<close>, one definition per method.  \<open>Migrate\<close>: opening an older database.
  \<^item> \<open>Blobs\<close> (\<open>blobs.rs\<close>): the directories of chunk files, \<open>disk\<close>.
  \<^item> \<open>Revocation\<close> (\<open>revocation.rs\<close> and the poll and restore of \<open>main.rs\<close>),
    \<open>Entitlements\<close> (\<open>entitlements.rs\<close>), \<open>Lapse\<close> (\<open>lapse.rs\<close>): credentials, the
    windows after the end of payment, the gate \<open>require\<close>.
  \<^item> \<open>Uploads\<close> (\<open>uploads.rs\<close>), \<open>Erasures\<close> (\<open>erasures.rs\<close>), \<open>Routes\<close>
    (\<open>export.rs\<close>, \<open>operations.rs\<close>, \<open>api.rs\<close>, the registration of \<open>entitlements.rs\<close>):
    the handlers, the route table, \<open>handle_request\<close> and \<open>respond\<close>.
  \<^item> \<open>Sweep\<close> (\<open>sweep.rs\<close> and the sweep task of \<open>main.rs\<close>): \<open>reconcile\<close> step by step.
  \<^item> \<open>Operator\<close> (\<open>main.rs\<close>): \<open>boot\<close>, the reachable states \<open>operates\<close> and the runs of
    one process \<open>runs\<close>.

  A handler is a program of type \<open>'a op\<close>, from a \<open>world\<close> (store, disk, epoch, fault schedule)
  to a result or an error and the next world, in the order the code makes its calls; every early return
  is an error value, a panic is \<open>Panic\<close>.  What the code computes under one lock is one piece; where
  it releases the store lock (\<open>commit\<close>, \<open>download\<close>, \<open>erase\<close>) it is a definition of its own.

  \<^bold>\<open>Faults\<close>

  Each access to the database or the file system takes the head of \<open>faults\<close>: \<open>None\<close> lets it
  succeed, \<open>Some n\<close> makes it fail after \<open>n\<close> bytes or entries, an empty list is a run without
  failures.  Theorems quantify over the schedule unless they say that nothing fails.  No fuel is used:
  every loop of the code runs over a finite list.

  \<^bold>\<open>Interfaces\<close>

  \<^item> \<open>directory_store\<close> (\<open>Blobs\<close>): look-up, put, remove and move of a directory; interpreted on
    \<open>dir_lookup\<close>, \<open>dir_put\<close>, \<open>dir_remove\<close>, \<open>dir_move\<close>.
  \<^item> \<open>request_invariant\<close> (\<open>Invariants\<close>): the elementary changes that handlers make to rows and
    directories; inside it every handler keeps such a predicate.  \<open>operator_invariant\<close> adds the
    sweep's.  Interpreted by \<open>sound\<close> (keys, grants, live rows with their bytes), \<open>pinned\<close>
    (terms documents kept), \<open>holding\<close> (one terms row), \<open>untouched\<close> (what one holder owns while
    another acts), \<open>within\<close> (the quota), \<open>archived\<close> (the abstract archive), \<open>safe\<close>
    (overlapping commits).
  \<^item> \<open>sweep_invariant\<close> (\<open>Sweep_Facts\<close>): the statements and removals of the sweep; interpreted by
    \<open>remembered\<close>, \<open>schema_ok\<close> and \<open>gone\<close>.

  \<^bold>\<open>What is proved\<close>

  \<^item> State: the bytes behind each live row, pinned terms, typing of the tables, the quota, the epoch in
    force (\<open>Soundness\<close>, \<open>Isolation\<close>, \<open>Quota\<close>, \<open>Schema\<close>, \<open>Lasting\<close>).
  \<^item> \<open>Archive\<close>: the operator refines a machine that files bytes under their digest or loses them.
  \<^item> \<open>Interleaving\<close>: the same safety when commits overlap with everything else.
  \<^item> Handlers: \<open>Upload_Facts\<close>, \<open>Erasure_Facts\<close>, \<open>Disk_Facts\<close>: preflight, chunks, commit,
    erasure, each with its errors and under faults.
  \<^item> Payment: \<open>Gate\<close> (a reference definition the gate is equal to), \<open>Aging\<close> (what ages out and
    what does not move), \<open>Billing\<close> (who is asked to pay).
  \<^item> Sweep: \<open>Sweep_Facts\<close> (it ends), \<open>Clearing\<close> (what it has cleared when nothing failed).
  \<^item> Documents and requests: canonical bytes identify a document, signatures bind a request, replays
    are refused, an accepted configuration boots.
  \<^item> \<open>Sample\<close>: a small operator and its states, for the witnesses.

  \<^bold>\<open>Parameters\<close>

  The record \<open>crates\<close> stands for the libraries: SHA-256, Ed25519, base64, hex, RFC 3339 times,
  SQLite's \<open>julianday\<close>, \<open>serde_json\<close> and the generated decoders.  The hypotheses on them are
  \<open>decodes_i64\<close> (a decoded size is a 64-bit integer), \<open>rfc_roundtrip\<close> (a printed instant parses
  back), \<open>julianday_monotone\<close> and what \<open>Crates\<close> states for printing and parsing JSON; the
  witnesses instantiate them.  Instants are integers of nanoseconds; a request's clock, its random
  identifiers and what the HTTP client obtained are inputs.

  \<^bold>\<open>Not modelled\<close>

  \<^item> A handler is one step, except \<open>commit\<close> in \<open>Interleaving\<close>.  The sweep releases its locks
    between items and a download between opening and streaming; other interleavings are not covered.
    \<open>commit_sweep_race\<close> at the end shows one that goes wrong.
  \<^item> The runtime, the listener, timers, logging, the usage text, the HTTP client, axum's extraction of a
    request and the transport of a streamed body: no state of the operator, or not its code.
  \<^item> SQLite's pragmas and indexes, and a power failure inside a transaction, which SQLite excludes.
  \<^item> A poisoned \<open>RwLock\<close>: its critical sections cannot panic.
  \<^item> Files in the blob root that the operator did not write; directories that only hold directories.
  \<^item> Tests, test-only helpers and the deployment files.
\<close>

text \<open>
  C1. In every reachable state, under every fault schedule and across restarts, the bytes of each
  live snapshot are on the disk: its chunk files are served in order, have the size the row
  declares, and hash to the row's digest.
\<close>

theorem live_snapshot_readable:
  assumes "operates X root A w" "decodes_i64 X" "r \<in> set (t_snapshots (store w))" "live r"
  shows "\<exists>hex paths b. snap_digest r = ''sha256:'' @ hex \<and>
    chunk_paths root (snap_holder r) hex (snap_chunks r) (snap_size r) (disk w) = Inr paths \<and>
    snapshot_stream (disk w) paths = Inr b \<and> int (length b) = snap_size r \<and> digest X b = snap_digest r"
  by (rule row_readable [OF _ assms(3,4)])
    (use soundD(4) [OF pinnedD(1) [OF operates_pinned [OF assms(1,2)]]] operates_lib [OF assms(1)] in simp)

theorem live_snapshot_readable_witness:
  "sample_row \<in> set (t_snapshots (store world4)) \<and> live sample_row \<and>
   (\<exists>hex paths b. snap_digest sample_row = ''sha256:'' @ hex \<and>
    chunk_paths ''/data/blobs'' sample_handle hex 2 3 (disk world4) = Inr paths \<and>
    snapshot_stream (disk world4) paths = Inr b \<and> int (length b) = 3 \<and> digest sample_crates b = sample_digest)"
proof -
  have r: "sample_row \<in> set (t_snapshots (store world4))" "live sample_row"
    by (simp_all add: sample_states live_def)
  with live_snapshot_readable [OF sample_reached(5) sample_decodes r] show ?thesis
    by (simp add: sample_row_def sample_upload_def)
qed

text \<open>
  C15. The terms document that a snapshot, an open grant or a receipt pins, and the one this boot
  declares, can always be produced.
\<close>

theorem pinned_terms_served:
  assumes "operates X root A w" "decodes_i64 X"
    "terms_id \<in> snap_terms ` set (t_snapshots (store w)) \<union> up_terms ` set (t_uploads (store w))
       \<union> rc_terms ` set (t_receipts (store w)) \<union> {doc_terms_id (docs A)}"
  shows "\<exists>raw sig. terms_document terms_id (store w) = Some (raw, sig)"
  using operates_pinned [OF assms(1,2)] assms(3)
  by (auto simp: kept_terms_document [symmetric] pinned_def pins_kept_def)

theorem pinned_terms_served_witness:
  "\<exists>raw sig. terms_document (snap_terms sample_row) (store world5) = Some (raw, sig)"
  by (rule pinned_terms_served [OF sample_reached(6) sample_decodes])
    (simp add: world5_def sample_states)

text \<open>
  C16. A terms document, once served under its id, is served unchanged ever after: no request, poll
  or sweep removes or rewrites it.
\<close>

theorem terms_never_change:
  assumes "operates X root A w" "decodes_i64 X" "runs A tidy w w'" "terms_document terms_id (store w) = Some d"
  shows "terms_document terms_id (store w') = Some d"
  using terms_document_runs [OF pinnedD(1) [OF operates_pinned [OF assms(1,2)]] assms(3,4)] .

theorem terms_never_change_witness:
  "terms_document sample_terms_id (store (snd (sweep_task sample_app 60 world5))) =
     Some (''{}'', replicate 64 (CHR ''s''))"
proof (rule terms_never_change [OF sample_reached(6) sample_decodes])
  show "runs sample_app (\<lambda>_. True) world5 (snd (sweep_task sample_app 60 world5))"
    by (rule runs.Tidies [OF runs.Stays TrueI calm_run [where f = "sweep_task sample_app 60"]]) simp
  show "terms_document sample_terms_id (store world5) = Some (''{}'', replicate 64 (CHR ''s''))"
    by (simp add: world5_def sample_states terms_document_def)
qed


section \<open>Uploads\<close>

text \<open>
  C8. The quota: over a run of one process, whatever is asked, whatever fails and however the sweeps
  interleave, no holder comes to have more live snapshots than the configured maximum, or than
  before the run.
\<close>

theorem quota_respected:
  assumes "operates X root A w" "decodes_i64 X" "runs A tidy w w'"
  shows "live_count h (store w') \<le> max (live_count h (store w)) (maximum_retained_snapshots (cfg A))"
proof -
  have "within A h (live_count h (store w)) w"
    using pinnedD(1) [OF operates_pinned [OF assms(1,2)]] by (simp add: within_def)
  from within.runs_keep [OF assms(3) this] show ?thesis by (simp add: within_def)
qed

theorem quota_respected_witness:
  "live_count sample_handle (store world4) = 1 \<and> live_count sample_handle (store world4) \<le> 1"
  using quota_respected [OF sample_reached(1) sample_decodes sample_runs, of sample_handle]
  by (simp add: live_count_def count_where_def sample_states live_def sample_app_simps sample_cfg_def)

text \<open>
  C2. An acknowledged commit holds whatever it promises: the grant was the caller's own, its chunks
  were all there and hashed to the promised digest, and afterwards the snapshot is live, its outcome
  can be queried and the grant is gone; nothing of this depends on which accesses failed.
\<close>

theorem commit_acknowledged:
  assumes "operates X root A w" "decodes_i64 X"
    "handle_request A (Post_commit uid) c (with_faults fs w) = (Inr r, w')"
  shows "\<exists>u at. u \<in> set (t_uploads (store w)) \<and> up_id u = uid \<and> claimed A (ctx_headers c) = Some (up_holder u) \<and>
    complete_incoming X root (disk w) u \<and> snapshot_exists (up_holder u) (up_digest u) (store w') \<and>
    outcome (up_holder u) (up_operation u) (store w') = Some (up_digest u, ''retained'', None, at) \<and>
    upload uid (store w') = None \<and>
    r = RJson 200 (outcome_json A ''retained'' (reference_json digest_suite (up_digest u) (up_size u)) (up_terms u))"
proof -
  have "grants_ok (blob_root (cfg A)) (with_faults fs w)"
    using soundD(3) [OF pinnedD(1) [OF operates_pinned [OF assms(1,2)]]] by (simp add: grants_ok_def)
  from commit_Inr [OF assms(3) [unfolded handle_request_def Let_def request.case] this] operates_lib [OF assms(1)]
  show ?thesis by (metis with_faults_simps(1,2))
qed

theorem commit_acknowledged_witness:
  "snapshot_exists sample_handle sample_digest (store world4) \<and> upload ''u1'' (store world4) = None"
proof -
  let ?c = "sample_context ''n4'' [] 40"
  obtain r where r: "handle_request sample_app (Post_commit ''u1'') ?c (with_faults [] world3) = (Inr r, world4)"
    by (simp add: with_no_faults commit_eval two_chunks sample_states sample_eval cong: bindE_head matchE_head)
  from commit_acknowledged [OF sample_reached(4) sample_decodes this]
  show ?thesis by (auto simp: sample_states)
qed





text \<open>
  C14. A chunk, once there, is never rewritten: whatever is sent and whatever fails, every chunk file
  of every upload that existed keeps its bytes, only the addressed chunk of the caller's own grant can
  appear, and an acknowledged chunk is there in full, with the size the grant expects.
\<close>

theorem chunk_never_rewritten:
  assumes "put_chunk A hs uid i body now w = (r, w')"
  shows "core_same (store w) (store w') \<and>
    (\<forall>p. p \<noteq> incoming_dir (blob_root (cfg A)) uid \<longrightarrow> dir_lookup (disk w') p = dir_lookup (disk w) p) \<and>
    (\<forall>p j b. read_file (disk w) p j = Some b \<longrightarrow> read_file (disk w') p j = Some b) \<and>
    (\<forall>j. j \<noteq> i \<longrightarrow> read_file (disk w') (incoming_dir (blob_root (cfg A)) uid) j =
       read_file (disk w) (incoming_dir (blob_root (cfg A)) uid) j) \<and>
    (\<forall>x. r = Inr x \<longrightarrow> read_file (disk w') (incoming_dir (blob_root (cfg A)) uid) i = Some body \<and>
       (\<exists>u \<in> set (t_uploads (store w)). up_id u = uid \<and> claimed A hs = Some (up_holder u) \<and>
          0 \<le> i \<and> i < up_chunk_count u \<and> int (length body) = expected_chunk u i))"
  using put_chunk_spec [OF assms] chunk_added_reads [of "incoming_dir (blob_root (cfg A)) uid" i body "disk w" "disk w'"]
  by blast

theorem chunk_never_rewritten_witness:
  "read_file (disk world3) sample_incoming 0 = Some ''ab'' \<and> read_file (disk world3) sample_incoming 1 = Some ''c''"
proof -
  have "\<exists>x. put_chunk sample_app (sample_headers ''n3'' 30) ''u1'' 1 ''c'' 30 world2 = (Inr x, world3)"
    by (simp add: put_eval sample_states sample_eval cong: bindE_head matchE_head)
  then obtain x where "put_chunk sample_app (sample_headers ''n3'' 30) ''u1'' 1 ''c'' 30 world2 = (Inr x, world3)" by blast
  from chunk_never_rewritten [OF this] show ?thesis
    by (auto simp: read_file_def dir_lookup_def sample_app_simps sample_cfg_def sample_states)
qed
text \<open>
  C39. A chunk write that fails half way is not undone: the part that was written stays, a retry with
  the very same bytes is refused as a mismatch, and a preflight that resumes the upload no longer
  reports the chunk as missing.
\<close>

theorem torn_chunk_is_final:
  "\<exists>torn answer again. respond sample_app (Put_chunk ''u1'' 0) (sample_context ''n2'' ''ab'' 20)
       (with_faults [None, None, None, None, Some 1] world1) = (Some (into_response (Internal ''write chunk'')), torn) \<and>
     read_file (disk torn) sample_incoming 0 = Some ''a'' \<and>
     respond sample_app (Put_chunk ''u1'' 0) (sample_context ''n3'' ''ab'' 30) torn =
       (Some (into_response ChunkMismatch), again) \<and>
     fst (arrival ''/data/blobs'' ''u1'' 2 again) = Inr (1, [(1, 1)])"
proof -
  let ?torn = "world2\<lparr>disk := [(sample_incoming, [(0, ''a'')])]\<rparr>"
  let ?again = "?torn\<lparr>store := store world3\<rparr>"
  have "respond sample_app (Put_chunk ''u1'' 0) (sample_context ''n2'' ''ab'' 20)
       (with_faults [None, None, None, None, Some 1] world1) = (Some (into_response (Internal ''write chunk'')), ?torn)"
    by (simp add: put_eval respond_def handle_request_def sample_context_def body_limit_def max_chunk_body_bytes_def
        with_faults_def authenticate_def sample_proof fresh_now i64_defs sample_app_simps sample_crates_simps stamp_def bindE_run returnE_run
        throwE_run getE_run modifyE_run liftE_run query_def select_def execute_def io_step_def take_fault_def record_nonce_def insert_or_ignore_def nc_key_def
        nonce_seen_def parse_show_int sample_cfg_def sample_states set_disk_def dir_lookup_def dir_put_def Let_def internal_def)
  moreover have "respond sample_app (Put_chunk ''u1'' 0) (sample_context ''n3'' ''ab'' 30) ?torn =
       (Some (into_response ChunkMismatch), ?again)"
    by (simp add: put_eval sample_states sample_eval cong: bindE_head matchE_head)
  moreover have "fst (arrival ''/data/blobs'' ''u1'' 2 ?again) = Inr (1, [(1, 1)])"
    by (simp add: arrival_def arrival_step_def chunk_length_def extend_gap_def two_chunks read_file_def dir_lookup_def
        run_simps sample_states wrap64_id i64_defs)
  moreover have "read_file (disk ?torn) sample_incoming 0 = Some ''a''"
    by (simp add: read_file_def dir_lookup_def)
  ultimately show ?thesis by blast
qed






section \<open>Erasure\<close>

text \<open>
  C3. An erasure is all or nothing, whatever fails: either no snapshot row and no receipt changes, or
  every live row in the caller's scope is erased at one instant, one receipt is minted for each terms
  document those rows pin, which covers exactly the rows that pin it, and the outcome names them.
\<close>

theorem erasure_all_or_nothing:
  assumes "erase A hs body now ids w = (r, w')"
  shows "rows_kept (store w) (store w') \<or>
    (\<exists>h at req targets made. claimed A hs = Some h \<and> rfc_format (lib A) now = Some at \<and>
       decode_erase (lib A) body = Some req \<and> targets = snapshots_in_scope (lib A) h (erase_scope req) (store w) \<and>
       t_snapshots (store w') = map (erased_row h at (map snap_digest targets)) (t_snapshots (store w)) \<and>
       mint_receipts A (erase_scope req) targets at ids (store w) = Inr made \<and>
       map mint_terms (map snd made) = pinned_terms targets \<and>
       (\<forall>m \<in> set (map snd made). set (mint_covers m) = snap_digest ` {row \<in> set targets. snap_terms row = mint_terms m}) \<and>
       \<Union> (set ` set (map mint_covers (map snd made))) = snap_digest ` set targets \<and>
       outcome h (erase_operation_id req) (store w') = Some (erase_scope req, ''erasure_acknowledged'',
         Some (ids_text (lib A) (map mint_id (map snd made))), at))"
  using erase_spec [OF assms]
proof
  assume "erasure_decided A hs body now ids (store w) r (store w')"
  then obtain h at req targets made where d: "claimed A hs = Some h" "rfc_format (lib A) now = Some at"
    "decode_erase (lib A) body = Some req" "targets = snapshots_in_scope (lib A) h (erase_scope req) (store w)"
    "mint_receipts A (erase_scope req) targets at ids (store w) = Inr made"
    "core_same (decided A h req targets at made (store w)) (store w')"
    unfolding erasure_decided_def by blast
  show ?thesis
    by (intro disjI2 exI conjI)
      (rule d(1), rule d(2), rule d(3), rule d(4), rule decided_facts(1) [OF d(6,5)], rule d(5),
       rule decided_facts(2) [OF d(6,5)], rule ballI, erule minted_covers [OF d(5)], rule decided_facts(3) [OF d(6,5)], rule decided_facts(4) [OF d(6,5)])
qed (rule disjI1, erule conjunct1)

theorem erasure_all_or_nothing_witness:
  "t_snapshots (store world5) = [sample_row\<lparr>snap_erased_at := Some (show_int 50)\<rparr>] \<and>
   \<not> rows_kept (store world4) (store world5) \<and> outcome sample_handle ''op2'' (store world5) \<noteq> None"
proof -
  have "erase sample_app (sample_headers ''n5'' 50) [] 50 ((#) (CHR ''r'')) world4 =
      (fst (erase sample_app (sample_headers ''n5'' 50) [] 50 ((#) (CHR ''r'')) world4), world5)"
    using sample_erased by (metis prod.collapse)
  from erasure_all_or_nothing [OF this] show ?thesis
    by (auto simp: rows_kept_def world5_def sample_states sample_crates_simps outcome_def)
qed




section \<open>Payment\<close>



text \<open>
  C21. A credential on the request admits the holder only if a pinned issuer signed it over its
  canonical bytes, it names this operator and this holder, it is inside its window and its id is not
  revoked; it is then on record, and the holder stays paid up without showing it again until it
  expires or is revoked.  A credential that does not verify is refused and leaves no trace.
\<close>

theorem credential_admits:
  assumes "requires_entitlement (cfg A)" "\<not> always_available operation" "hs entitlement_header = Some value"
    and "require A who hs operation now w = (r, w')" "rfc_roundtrip (lib A)"
  shows "(r = Inr () \<longrightarrow> (\<exists>raw v document.
       b64_decode (lib A) (trim value) = Some raw \<and>
       verify_entitlement A raw (h_reference who) (revoked_ids w) now = Inr v \<and> json_parse (lib A) raw = Some document \<and>
       credential_signed A document \<and> jget document ''audience'' = Some (JStr (component_id (cfg A))) \<and>
       jget document ''subject'' = Some (JStr (h_reference who)) \<and>
       jget document ''entitlementId'' = Some (JStr (ve_id v)) \<and>
       ve_not_before v \<le> now \<and> now \<le> ve_expires_at v \<and> ve_id v \<notin> set (revoked_ids w) \<and>
       (\<forall>revoked later. later < ve_expires_at v \<and> ve_id v \<notin> set revoked \<longrightarrow>
          paid_up (lib A) (h_handle who) revoked later (store w')))) \<and>
    (\<forall>e. presented A hs (h_reference who) (revoked_ids w) now = Inl e \<longrightarrow> r = Inl (refused A) \<and> w' = w)"
proof (intro conjI impI allI)
  assume "r = Inr ()"
  from require_with_credential(1) [OF assms(1-4) this] obtain raw v at where
    v: "b64_decode (lib A) (trim value) = Some raw" "verify_entitlement A raw (h_reference who) (revoked_ids w) now = Inr v"
      "register_entitlement (lib A) (h_handle who) v at w = (Inr (), w')" by blast
  obtain document where d: "json_parse (lib A) raw = Some document" "credential_signed A document"
    "jget document ''audience'' = Some (JStr (component_id (cfg A)))"
    "jget document ''subject'' = Some (JStr (h_reference who))"
    "jget document ''entitlementId'' = Some (JStr (ve_id v))"
    "ve_not_before v \<le> now" "now \<le> ve_expires_at v" "ve_id v \<notin> set (revoked_ids w)"
    by (rule verify_entitlement_Inr [OF v(2)])
  have "\<forall>revoked later. later < ve_expires_at v \<and> ve_id v \<notin> set revoked \<longrightarrow>
          paid_up (lib A) (h_handle who) revoked later (store w')"
    using registered_paid_up [OF v(3) assms(5)] by simp
  with v(1,2) d show "\<exists>raw v document.
       b64_decode (lib A) (trim value) = Some raw \<and>
       verify_entitlement A raw (h_reference who) (revoked_ids w) now = Inr v \<and> json_parse (lib A) raw = Some document \<and>
       credential_signed A document \<and> jget document ''audience'' = Some (JStr (component_id (cfg A))) \<and>
       jget document ''subject'' = Some (JStr (h_reference who)) \<and>
       jget document ''entitlementId'' = Some (JStr (ve_id v)) \<and>
       ve_not_before v \<le> now \<and> now \<le> ve_expires_at v \<and> ve_id v \<notin> set (revoked_ids w) \<and>
       (\<forall>revoked later. later < ve_expires_at v \<and> ve_id v \<notin> set revoked \<longrightarrow>
          paid_up (lib A) (h_handle who) revoked later (store w'))"
    by (intro exI [of _ raw] exI [of _ v] exI [of _ document]) simp
qed (use require_with_credential(2) [OF assms(1-4)] in blast)+

theorem credential_admits_witness:
  "paid_up seat_crates sample_handle [] 99
     (store (snd (require seat_app sample_who ((sample_headers ''n9'' 60)(entitlement_header \<mapsto> ''x'')) Download 60 world4)))"
proof -
  let ?hs = "(sample_headers ''n9'' 60)(entitlement_header \<mapsto> ''x'')"
  have v: "verify_entitlement seat_app ''x'' sample_holder [] 60 = Inr \<lparr>ve_id = ''e1'', ve_offer = ''o1'',
      ve_not_before = 0, ve_expires_at = 100, ve_raw = ''x''\<rparr>"
    by code_simp
  have t: "trim ''x'' = ''x''" by code_simp
  have X: "lib seat_app = seat_crates" "cfg seat_app = charging_cfg" "b64_decode seat_crates = Some"
    "rfc_format seat_crates t = (if in_i64 t then Some (show_int t) else None)" "rfc_roundtrip seat_crates" for t
    using rfc_roundtrip_toy
    by (simp_all add: seat_app_def charging_app_def seat_crates_def sample_crates_def toy_def rfc_roundtrip_def)
  have r: "revoked_ids world4 = []" by (simp add: revoked_ids_def world4_def sample_world_def)
  have ok: "fst (require seat_app sample_who ?hs Download 60 world4) = Inr ()"
    by (simp add: require_def evaluate_def presented_def X charging_simps bindE_run getE_run liftE_run r t v
        sample_who_def register_entitlement_def stamp_def statement_calm execute_calm i64_defs returnE_run permits_def)
  have run: "require seat_app sample_who ?hs Download 60 world4 =
      (Inr (), snd (require seat_app sample_who ?hs Download 60 world4))"
    using ok by (metis prod.collapse)
  from credential_admits [OF _ _ _ run] obtain raw v where
    "raw = ''x''" "verify_entitlement seat_app raw sample_holder [] 60 = Inr v"
    "\<forall>revoked later. later < ve_expires_at v \<and> ve_id v \<notin> set revoked \<longrightarrow>
          paid_up seat_crates sample_handle revoked later
            (store (snd (require seat_app sample_who ?hs Download 60 world4)))"
    by (auto simp: X charging_simps sample_who_def r t)
  moreover from this have "v = \<lparr>ve_id = ''e1'', ve_offer = ''o1'', ve_not_before = 0, ve_expires_at = 100, ve_raw = ''x''\<rparr>"
    by (simp add: v)
  ultimately show ?thesis by simp
qed


text \<open>
  C19. The sweep's first step, under every fault schedule, changes nothing but the availability of
  snapshots, and marks unavailable only a live one that is overdue: its holder's payment has ended,
  the window of the terms it pins has closed since, and those terms say to erase after it.
\<close>

theorem expires_only_overdue:
  assumes "keyed snap_key (t_snapshots (store w))" "sweep_post_grace X revoked now at w = (r, w')"
  shows "list_all2 (\<lambda>row row'. row' = row \<or>
      (live row \<and> overdue X now (store w) row \<and> row' = row\<lparr>snap_retained_until := Some at\<rparr>))
    (t_snapshots (store w)) (t_snapshots (store w'))"
  using keepsD [OF post_grace_expires [OF assms(1)] _ assms(2)]
  by (simp add: expired_since_def expired_at_def [abs_def])

theorem expires_only_overdue_witness:
  "overdue sample_crates 3801600000000046 (store lapsed_world) sample_row"
proof -
  let ?run = "sweep_post_grace sample_crates [] 3801600000000046 (show_int 3801600000000046) lapsed_world"
  have h: "holders_with_snapshots (store lapsed_world) = [sample_handle]"
    by (simp add: holders_with_snapshots_def lapsed_world_def sample_states live_def)
  have due: "post_grace_due sample_crates sample_handle [] 3801600000000046 (store lapsed_world) =
      Inr [(sample_digest, ''erase'')]"
    by (simp add: post_grace_due_def lapsed_lifecycle lapsed_windows sample_clause_def)
      (simp add: sample_row_def new_snapshot_def sample_upload_def)
  have "t_snapshots (store (snd ?run)) = [sample_row\<lparr>snap_retained_until := Some (show_int 3801600000000046)\<rparr>]"
    by (simp add: sweep_post_grace_def bindE_run or_else_def matchE_run select_calm returnE_run h expire_holder_def
        query_calm due expire_due_def counted_def execute_calm mark_unavailable_def update_where_def Let_def)
      (simp add: lapsed_world_def sample_states live_def)
  moreover have "keyed snap_key (t_snapshots (store lapsed_world))" "t_snapshots (store lapsed_world) = [sample_row]"
    by (simp_all add: keyed_def lapsed_world_def world4_def sample_world_def)
  ultimately show ?thesis
    using expires_only_overdue [OF _ surjective_pairing [of ?run]]
    by (auto simp: sample_row_def new_snapshot_def)
qed
section \<open>The operator as an archive\<close>



text \<open>
  C10. A snapshot that is downloaded or exported is streamed whole: the files the answer names hold,
  in order, exactly the bytes the archive files for the caller under the digest asked for, as many
  as the answer declares, and they have that digest.
\<close>

theorem download_serves_archive:
  assumes "operates X root A w" "decodes_i64 X"
    "download A hs hex now w = (Inr answer, w') \<or> export_snapshot A hs hex now w = (Inr answer, w')"
  shows "\<exists>h paths b. claimed A hs = Some h \<and> answer = RStream 200 (int (length b)) paths \<and>
    snapshot_stream (disk w') paths = Inr b \<and> digest X b = ''sha256:'' @ hex \<and>
    archive_of A w (h, ''sha256:'' @ hex) = Some b"
proof -
  have s: "sound A w" by (rule pinnedD(1) [OF operates_pinned [OF assms(1,2)]])
  obtain h row paths where r: "claimed A hs = Some h" "snapshot_record h (''sha256:'' @ hex) (store w) = Some row" "live row"
    "chunk_paths (blob_root (cfg A)) h hex (snap_chunks row) (snap_size row) (disk w) = Inr paths"
    "answer = RStream 200 (snap_size row) paths" "disk w' = disk w"
    using opened_row [OF assms(3)] by blast
  from served_row [OF s r(2-4)] r operates_lib [OF assms(1)] show ?thesis by auto
qed

theorem download_serves_archive_witness:
  "\<exists>paths. fst (download sample_app (sample_headers ''n5'' 50) sample_hex 50 world4) = Inr (RStream 200 3 paths) \<and>
     snapshot_stream (disk world4) paths = Inr ''abc''"
proof -
  let ?run = "download sample_app (sample_headers ''n5'' 50) sample_hex 50 world4"
  have d: "digest_hex (''sha256:'' @ sample_hex) = Inr sample_hex" "''sha256:'' @ sample_hex = sample_digest"
    using sample_strings(2) by (simp_all add: sample_digest_def)
  have f: "snapshot_record sample_handle sample_digest s = Some sample_row" if "t_snapshots s = [sample_row]" for s
    using that by (simp add: snapshot_record_def sample_row_def new_snapshot_def sample_upload_def)
  let ?w = "world4\<lparr>store := snd (record_nonce sample_handle ''n5'' (show_int 50) (store world4))\<rparr>"
  have a: "authenticate sample_app (sample_headers ''n5'' 50) ''GET'' p [] 50 world4 = (Inr sample_who, ?w)" for p
    by (rule sample_authenticate) (simp_all add: i64_defs nonce_seen_def sample_states nc_key_def)
  have w: "t_snapshots (store ?w) = [sample_row]" "disk ?w = disk world4" "faults ?w = []"
    by (simp_all add: record_nonce_def Let_def world4_def sample_world_def)
  have "?run = (Inr (RStream 200 3 [(sample_dir, 0), (sample_dir, 1)]), ?w)"
    using sample_paths w f [OF w(1)] d
    by (simp add: download_def download_lookup_def bindE_run a require_ungated sample_app_simps sample_cfg_def
        requires_entitlement_def returnE_run liftE_run select_calm sample_who_def download_open_def matchE_run
        inspect_def io_step_calm) (simp add: sample_row_def new_snapshot_def sample_upload_def returnE_run)
  from download_serves_archive [OF sample_reached(5) sample_decodes disjI1 [OF this]] \<open>?run = _\<close> sample_stream show ?thesis
    by simp
qed
section \<open>Sweeps\<close>


text \<open>
  C24. A sweep that meets no fault leaves no directory without its row: every incoming directory that
  is left belongs to an open grant, and every snapshot directory to a live snapshot.
\<close>

theorem sweep_leaves_no_orphan:
  assumes "operates X root A w" "decodes_i64 X" "faults w = []" "cutoffs_at A now \<noteq> None"
  shows "incoming_granted root (snd (sweep_task A now w)) \<and> directories_live root (snd (sweep_task A now w))"
proof -
  obtain limits where "cutoffs_at A now = Some limits" using assms(4) by blast
  from task_reconciles [OF sweep_clears this] pinnedD(1) [OF operates_pinned [OF assms(1,2)]] assms(3)
    operates_lib [OF assms(1)] show ?thesis by auto
qed

theorem sweep_leaves_no_orphan_witness:
  "incoming_granted ''/data/blobs'' (snd (sweep_task sample_app 60 world3)) \<and>
   directories_live ''/data/blobs'' (snd (sweep_task sample_app 60 world3))"
proof (rule sweep_leaves_no_orphan [OF sample_reached(4) sample_decodes])
  show "faults world3 = []" by simp
  show "cutoffs_at sample_app 60 \<noteq> None" by (simp add: task_eval)
qed



text \<open>
  C40. A snapshot row that was not erased is never forgotten by a sweep, under any fault schedule and
  however long ago it became unavailable: a row with its key stays, still not erased.
\<close>

theorem unerased_row_stays:
  assumes "sweep_task A now w = (r, w')" "row \<in> set (t_snapshots (store w))" "snap_erased_at row = None"
  shows "\<exists>row' \<in> set (t_snapshots (store w')). snap_key row' = snap_key row \<and> snap_erased_at row' = None"
proof -
  have "remembered (snap_key row) w" using assms(2,3) by (auto simp: remembered_def)
  from keepsD [OF remembered.keeps_task [OF refl] this assms(1)] show ?thesis by (simp add: remembered_def)
qed

theorem unerased_row_stays_witness:
  "\<exists>row' \<in> set (t_snapshots (store (snd (sweep_task sample_app 3801600000000046 lapsed_world)))).
     snap_key row' = (sample_handle, sample_digest) \<and> snap_erased_at row' = None"
proof -
  have "sample_row \<in> set (t_snapshots (store lapsed_world))" using lapsed_window by (simp add: in_window_def)
  moreover have "snap_erased_at sample_row = None" "snap_key sample_row = (sample_handle, sample_digest)"
    by (simp_all add: sample_row_def new_snapshot_def sample_upload_def snap_key_def)
  ultimately show ?thesis
    using unerased_row_stays [OF surjective_pairing [of "sweep_task sample_app 3801600000000046 lapsed_world"], of sample_row] by simp
qed

text \<open>
  When the polling interval reaches back beyond the earliest instant there is, no sweep ever
  runs: the task ends before it touches anything.  The configuration accepts such an interval.
\<close>

theorem polling_interval_stops_sweeps:
  assumes "now - nanos (wrap64 (revocation_poll_secs (cfg A))) < time_min (lib A)"
  shows "sweep_task A now w = (Inr None, w)"
  using assms
  by (simp add: sweep_task_def cutoffs_at_def record_floor_def time_sub_def checked_time_def representable_def returnE_run Let_def)

theorem polling_interval_stops_sweeps_witness:
  "\<exists>c. from_env sample_crates 0 (sample_env(''BACKUP_REVOCATION_POLL_SECS'' \<mapsto> ''40000000000'')) = Inr c \<and>
     sweep_task (sample_app\<lparr>cfg := c\<rparr>) 60 world5 = (Inr None, world5)"
proof (intro exI conjI)
  show "sweep_task (sample_app\<lparr>cfg := sample_cfg\<lparr>revocation_poll_secs := 40000000000\<rparr>\<rparr>) 60 world5 = (Inr None, world5)"
    by (rule polling_interval_stops_sweeps) (simp add: sample_app_simps sample_crates_simps i64_defs nanos_def)
qed (rule polling_config)
section \<open>The state as a whole\<close>

text \<open>
  C11. Every reachable state is well typed: the key columns of every table are keys, every stored
  expiry of a credential is a formatted instant, every grant carries the framing that its size and
  chunk size give, and the migrations that the next start runs leave the database as it is.
\<close>

theorem schema_respected:
  assumes "operates X root A w" "decodes_i64 X"
  shows "keys_ok (store w) \<and> rows_stamped X (store w) \<and> (\<forall>u \<in> set (t_uploads (store w)). grant_ok u) \<and>
    migrate (database_of (store w)) = Inr (database_of (store w))"
proof -
  have "sound A w" by (rule pinnedD(1) [OF operates_pinned [OF assms]])
  then show ?thesis
    using operates_schema [OF assms(1)] operates_lib [OF assms(1)] soundD(2,3) [of A w]
    by (simp add: schema_ok_def tables_ok_def keys_ok_def core_keys_def grants_ok_def migrate_current)
qed

theorem schema_respected_witness:
  "keys_ok (store world5) \<and> rows_stamped sample_crates (store world5) \<and>
   migrate (database_of (store world5)) = Inr (database_of (store world5)) \<and> keys_ok (store world1) \<and> grant_ok sample_upload"
  using schema_respected [OF sample_reached(6) sample_decodes] schema_respected [OF sample_reached(2) sample_decodes]
  by (simp add: sample_states)

text \<open>
  C12. A revocation epoch once in force is only replaced by one at least as new, over any requests,
  polls and sweeps of the process, and every epoch in force was signed, over its canonical bytes, by
  an issuer that this process pins.
\<close>

theorem epoch_authentic:
  assumes "operates X root A w" "epoch w = Some (e, at)" "runs A tidy w w'"
  shows "\<exists>e' at'. epoch w' = Some (e', at') \<and> e_epoch e \<le> e_epoch e' \<and> epoch_signed A e'"
proof -
  have "lasting (\<lambda>_. False) w w'" by (rule lasting_runs [OF assms(3)]) simp
  then obtain e' at' where e': "epoch w' = Some (e', at')" "e_epoch e \<le> e_epoch e'"
    using assms(2) by (auto simp: lasting_def epoch_number_def)
  have "authentic A w'" using operates_schema [OF operates_runs [OF assms(3,1)]] by (simp add: schema_ok_def)
  with e' show ?thesis by (blast dest: authentic_signed)
qed

theorem epoch_authentic_witness:
  "\<exists>e' at'. epoch polled = Some (e', at') \<and> 7 \<le> e_epoch e' \<and> epoch_signed epoch_app e'"
  using epoch_authentic [OF polled_reached polled_epoch(1) runs.Stays] by (simp add: epoch_seven_def)

text \<open>
  C34. A request is refused for payment only on a route that the gate stands before (preflight,
  download, erasure) and only by an operator that charges; the refusal then names this operator, its
  offers, its issuers and its manifest.  In particular a holder who stopped paying is never asked to
  pay for an export, a listing, a registration, a query, or the chunks and commit of an open grant.
\<close>

theorem payment_asked_at_the_gate:
  assumes "handle_request A req c w = (Inl (Err (PaymentRequired component_id1 offers1 issuers1 manifest1)), w')"
  shows "requires_entitlement (cfg A) \<and> (req = Post_preflight \<or> req = Post_erasure \<or> (\<exists>d. req = Get_snapshot d)) \<and>
    component_id1 = component_id (cfg A) \<and> offers1 = offers (cfg A) \<and>
    issuers1 = entitlement_issuers (cfg A) \<and> manifest1 = manifest_url (cfg A)"
  using asked_for_payment [OF assms] by (cases req) (simp_all add: gated_def payment_required_def)

theorem payment_asked_at_the_gate_witness:
  "fst (handle_request charging_app Post_preflight (sample_context ''n9'' sample_terms_id 60) lapsed_world) =
     Inl (Err (PaymentRequired ''onym:component:x'' [] [sample_issuer] ''https://b/manifest.json''))"
proof -
  let ?run = "handle_request charging_app Post_preflight (sample_context ''n9'' sample_terms_id 60) lapsed_world"
  have "payment_required charging_app =
      Err (PaymentRequired ''onym:component:x'' [] [sample_issuer] ''https://b/manifest.json'')"
    by code_simp
  with lapsed_preflight have run: "?run =
      (Inl (Err (PaymentRequired ''onym:component:x'' [] [sample_issuer] ''https://b/manifest.json'')), snd ?run)"
    by (simp add: prod_eq_iff)
  from payment_asked_at_the_gate [OF run] run show ?thesis by (metis fst_conv)
qed
section \<open>Commits that overlap\<close>



text \<open>
  Without that the second phase places what is left.  A commit verifies its bytes; before it takes its
  locks its grant expires, and the sweep's removal of the directory stops after one file.  The commit
  is acknowledged, and the live snapshot it leaves cannot be read.
\<close>

theorem commit_sweep_race:
  "\<exists>w1 w2 w3 answer.
     commit_enter sample_app (sample_headers ''n4'' 40) ''u1'' [] 40 world3 = (Inr (sample_upload, sample_hex), w1) \<and>
     snd (sweep_task sample_app 86400000000011 (with_faults [None, None, Some 1] w1)) = w2 \<and>
     commit_place sample_app sample_upload sample_hex 40 w2 = (Inr answer, w3) \<and>
     sample_row \<in> set (t_snapshots (store w3)) \<and> live sample_row \<and>
     chunk_paths ''/data/blobs'' sample_handle sample_hex 2 3 (disk w3) = Inl (Err RetentionExpired)"
  using overlap_enter torn_by_sweep torn_leave torn_unreadable
  by (intro exI [of _ overlap1] exI [of _ torn] exI [of _ torn_placed] exI conjI)
    (simp_all add: torn_placed_def sample_states live_def)
section \<open>Signed requests\<close>

text \<open>
  C6. A signed route answers without an error only to a request whose headers carry a signature,
  valid under the key they name, over exactly this verb, path and body, with a timestamp less than
  one second over the allowed skew away and a nonce of this holder that had not been seen.
\<close>

theorem answered_request_is_signed:
  assumes "signed_target req c = Some (verb, path, body)" "rfc_format (lib A) (ctx_now c) \<noteq> None"
    "handle_request A req c w = (Inr r, w')" "0 \<le> max_skew_secs (cfg A)"
  shows "\<exists>reference timestamp nonce sig64 sig key signed_at.
    ctx_headers c holder_header = Some reference \<and> ctx_headers c timestamp_header = Some timestamp \<and>
    ctx_headers c nonce_header = Some nonce \<and> ctx_headers c signature_header = Some sig64 \<and>
    b64_decode (lib A) sig64 = Some sig \<and> holder_key (lib A) reference = Inr key \<and>
    ed_verify (lib A) key (signing_bytes (lib A) verb path reference timestamp nonce body) sig \<and>
    rfc_parse (lib A) timestamp = Some signed_at \<and>
    \<bar>ctx_now c - signed_at\<bar> < nanos (max_skew_secs (cfg A) + 1) \<and>
    \<not> nonce_seen (holder_handle (lib A) key) nonce (store w)"
proof -
  obtain who w1 where auth: "authenticate A (ctx_headers c) verb path body (ctx_now c) w = (Inr who, w1)"
    by (rule guarded_Inr [OF signed_request [OF assms(1,2)] assms(3)])
  then obtain p seen_at where "request_proof A (ctx_headers c) verb path body (ctx_now c) = Inr (h_reference who, p)"
    "\<not> nonce_seen (proof_handle p) (proof_nonce p) (store w)"
    by (rule authenticate_Inr) blast
  with request_proof_Inr [OF this(1)] fresh_iff [OF assms(4)] show ?thesis by auto
qed

theorem answered_request_is_signed_witness:
  "\<exists>sig64. sample_headers ''n6'' 60 signature_header = Some sig64 \<and>
     \<not> nonce_seen sample_handle ''n6'' (store world5)"
proof -
  let ?c = "sample_context ''n6'' [] 60"
  have "\<exists>r w'. handle_request sample_app Get_snapshots ?c world5 = (Inr r, w')"
    by (simp add: list_snapshots_def sample_states world5_def sample_eval cong: bindE_head)
  then obtain r w' where "handle_request sample_app Get_snapshots ?c world5 = (Inr r, w')" by blast
  from answered_request_is_signed [OF _ _ this] show ?thesis
    by (simp add: signed_target_def sample_context_def sample_app_simps sample_crates_simps sample_cfg_def i64_defs
        sample_header_values) (auto simp: sample_strings)
qed

text \<open>
  C35. A request that proves nothing changes nothing: when a header is missing, the timestamp is
  stale, the holder or the signature malformed or the signature wrong, the answer is 401 and the
  state, the schedule of faults included, is the one before.
\<close>

theorem unproved_request_refused:
  assumes "signed_target req c = Some (verb, path, body)" "rfc_format (lib A) (ctx_now c) \<noteq> None"
    "request_proof A (ctx_headers c) verb path body (ctx_now c) = Inl e"
    "int (length (ctx_body c)) \<le> body_limit req"
  shows "respond A req c w = (Some (into_response SignatureInvalid), w)"
  using guarded_refused [OF signed_request [OF assms(1,2)] unproved_refused [OF assms(3)]] assms(4)
  by (simp add: respond_def)

theorem unproved_request_refused_witness:
  "respond sample_app Post_erasure (sample_context ''n5'' [] 50\<lparr>ctx_now := 400000000000\<rparr>) world4 =
     (Some (into_response SignatureInvalid), world4)"
proof (rule unproved_request_refused [where e = "Err SignatureInvalid"])
  show "request_proof sample_app (ctx_headers (sample_context ''n5'' [] 50\<lparr>ctx_now := 400000000000\<rparr>))
      ''POST'' ''/v1/erasures'' [] (ctx_now (sample_context ''n5'' [] 50\<lparr>ctx_now := 400000000000\<rparr>)) =
      Inl (Err SignatureInvalid)"
    by (simp add: request_proof_def header_def sample_context_def sample_header_values verify_request_def
        sample_app_simps sample_crates_simps parse_show_int sample_cfg_def fresh_def whole_seconds_def i64_defs)
qed (simp_all add: signed_target_def sample_context_def sample_app_simps sample_crates_simps i64_defs body_limit_def
    max_json_body_bytes_def)

text \<open>
  C13. A request that was accepted once is refused when it is sent again, by whatever route, at
  whatever later time, after any requests, polls and restarts of failing accesses in between: as long
  as no sweep between the two ran more than twice the skew after the first, or the second comes two
  seconds after that.
\<close>

theorem replay_refused:
  assumes "julianday_monotone (lib A)" "0 \<le> max_skew_secs (cfg A)"
    and "signed_target req c = Some (verb, path, body)" "handle_request A req c w = (Inr r, w1)"
    and "runs A (\<lambda>s. s \<le> ctx_now c + nanos (2 * max_skew_secs (cfg A)) \<or>
      ctx_now c + nanos (2 * max_skew_secs (cfg A) + 2) \<le> ctx_now c') w1 w2"
    and "ctx_headers c' = ctx_headers c" "signed_target req' c' = Some (verb', path', body')"
    and "rfc_format (lib A) (ctx_now c) \<noteq> None" "rfc_format (lib A) (ctx_now c') \<noteq> None"
    and "respond A req' c' (with_faults fs w2) = (answer, w3)"
  shows "store w3 = store w2 \<and> disk w3 = disk w2 \<and> epoch w3 = epoch w2 \<and> refusal answer"
proof -
  let ?hs = "ctx_headers c" and ?auth = "authenticate A (ctx_headers c) verb path body (ctx_now c)"
  note first = signed_request [OF assms(3,8)]
  obtain who wa where auth: "?auth w = (Inr who, wa)" by (rule guarded_Inr [OF first assms(4)])
  obtain p where p: "request_proof A ?hs verb path body (ctx_now c) = Inr (h_reference who, p)"
    using auth by (rule authenticate_Inr) blast
  have "same_data (with_faults fs w2) v \<and> q \<in> {Inl (Err SignatureInvalid), Inl (internal ''sqlite'')}"
    if "authenticate A (ctx_headers c') verb' path' body' (ctx_now c') (with_faults fs w2) = (q, v)" for q v
  proof (cases "request_proof A ?hs verb' path' body' (ctx_now c')")
    case (Inl e)
    then show ?thesis using unproved_refused [OF Inl] that assms(6) by auto
  next
    case (Inr rp)
    then obtain reference' p' where again: "request_proof A ?hs verb' path' body' (ctx_now c') = Inr (reference', p')"
      by (cases rp) auto
    have "ctx_now c' - ctx_now c < nanos (2 * max_skew_secs (cfg A) + 2)"
      using request_proof_Inr [OF p] request_proof_Inr [OF again] fresh_span [OF assms(2)] by fastforce
    with assms(5) have "runs A (\<lambda>s. s \<le> ctx_now c + nanos (2 * max_skew_secs (cfg A))) w1 w2" by simp
    then have "nonce_seen (proof_handle p') (proof_nonce p') (store w2)"
      by (rule accepted_nonce_lasts [OF assms(1) auth guarded_lasting [OF first auth assms(4)] _ again])
    with seen_refused [OF again assms(9), of "with_faults fs w2"] that assms(6) show ?thesis by simp
  qed
  from refused_respond [OF assms(7,9) this assms(10)] show ?thesis by (auto simp: same_data_def)
qed

theorem replay_refused_witness:
  "store (snd (respond sample_app Post_erasure (sample_context ''n5'' [] 50) world5)) = store world5 \<and>
   refusal (fst (respond sample_app Post_erasure (sample_context ''n5'' [] 50) world5))"
proof -
  let ?c = "sample_context ''n5'' [] 50"
  have "\<exists>r. handle_request sample_app Post_erasure ?c world4 = (Inr r, world5)"
  proof -
    have t: "trim ''op2'' \<noteq> []" by code_simp
    show ?thesis
      by (simp add: erase_eval sample_eval sample_states world5_def t
          sample_mint [simplified sample_states, simplified] sample_receipt_def cong: bindE_head matchE_head)
  qed
  then obtain r where r: "handle_request sample_app Post_erasure ?c world4 = (Inr r, world5)" by blast
  have jd: "julianday_monotone sample_crates"
    by (auto simp: julianday_monotone_def sample_crates_simps parse_show_int split: if_splits)
  have s: "signed_target Post_erasure ?c = Some (''POST'', ''/v1/erasures'', [])"
    by (simp add: signed_target_def sample_context_def)
  from replay_refused [where A = sample_app, OF _ _ s r runs.Stays refl s, where fs = "[]",
      OF _ _ _ _ calm_run [where f = "respond sample_app Post_erasure ?c"]] show ?thesis
    by (simp add: sample_app_simps jd sample_cfg_def sample_context_def sample_crates_simps i64_defs)
qed

text \<open>
  C38. Without that proviso the second is accepted: seconds are truncated when a timestamp is checked
  but not when the nonce's window is computed, so a sweep shortly before the timestamp goes stale
  forgets the nonce, and the same request is answered twice.
\<close>

theorem replay_gap:
  "\<exists>w1 w2 w3. respond sample_app Get_snapshots (captured 100000000) world0 = (Some (RJson 200 (JArr [])), w1) \<and>
     sweep_task sample_app 600200000000 w1 = (Inr (Some (nothing_swept\<lparr>spent_nonces := 1\<rparr>)), w2) \<and>
     respond sample_app Get_snapshots (captured 601900000000) w2 = (Some (RJson 200 (JArr [])), w3)"
proof -
  have f: "fresh 100000000 301000000000 300" "fresh 601900000000 301000000000 300"
    by (simp_all add: fresh_def whole_seconds_def)
  have lists: "respond sample_app Get_snapshots (captured now) w =
      (Some (RJson 200 (JArr [])), w\<lparr>store := snd (record_nonce sample_handle ''n1'' (show_int now) (store w))\<rparr>)"
    if "faults w = []" "in_i64 now" "fresh now 301000000000 300" "store w = sample_store [] []" for now w
  proof -
    have "in_i64 301000000000" "\<not> nonce_seen sample_handle ''n1'' (store w)"
      using that(4) by (simp_all add: i64_defs nonce_seen_def sample_states)
    note auth = sample_authenticate_at [OF that(1) this(1) that(2,3) this(2)]
    show ?thesis
      using that by (simp add: respond_def handle_request_def list_snapshots_def captured_def sample_context_def
          body_limit_def max_json_body_bytes_def bindE_run auth sample_app_simps require_ungated requires_entitlement_def
          sample_cfg_def run_simps sample_who_def snapshots_including_erased_def listed_def record_nonce_def
          sample_states)
  qed
  let ?w = "\<lambda>ns. sample_world (sample_store [] ns) []"
  have noted: "snd (record_nonce sample_handle ''n1'' t (sample_store [] [])) =
      sample_store [] [\<lparr>nc_holder = sample_handle, nc_nonce = ''n1'', nc_seen_at = t\<rparr>]" for t
    by (simp add: record_nonce_def insert_or_ignore_def sample_states)
  have "sweep_task sample_app 600200000000 (?w [\<lparr>nc_holder = sample_handle, nc_nonce = ''n1'', nc_seen_at = show_int 100000000\<rparr>])
      = (Inr (Some (nothing_swept\<lparr>spent_nonces := 1\<rparr>)), ?w [])"
    by (simp add: task_eval sample_states) (simp add: sweep_eval)
  then show ?thesis
    using lists [of "?w []" 100000000] lists [of "?w []" 601900000000] f
    by (simp add: world0_def noted sample_world_def i64_defs)
qed
section \<open>Booting, documents, encodings and errors\<close>





text \<open>
  C31. Canonical bytes identify a document: two documents with canonical bytes have the same ones
  exactly when they are the same up to the order of the fields of their objects.
\<close>

theorem canonical_bytes_identify:
  assumes "write_canonical v = Inr a" "write_canonical w = Inr b"
  shows "a = b \<longleftrightarrow> jnorm v = jnorm w"
  using write_canonical_eq_iff [OF assms(1), of w] assms(2) by auto

theorem canonical_bytes_identify_witness:
  "\<exists>a b. write_canonical (JObj [(''a'', JInt 1), (''b'', JArr [JNull])]) = Inr a \<and>
     write_canonical (JObj [(''b'', JArr [JNull]), (''a'', JInt 1)]) = Inr b \<and> a = b"
proof -
  let ?v = "JObj [(''a'', JInt 1), (''b'', JArr [JNull])]" and ?w = "JObj [(''b'', JArr [JNull]), (''a'', JInt 1)]"
  obtain a b where e: "write_canonical ?v = Inr a" "write_canonical ?w = Inr b"
    using write_canonical_total [of ?v] write_canonical_total [of ?w] by auto
  have "jnorm ?v = jnorm ?w" by code_simp
  with canonical_bytes_identify [OF e] e show ?thesis by auto
qed

text \<open>
  C32. A signature is over one request only: the bytes under it determine the verb (up to case), the
  path, the holder, the timestamp, the nonce and the digest of the body.
\<close>

theorem signature_binds_request:
  assumes "signing_bytes X verb path reference timestamp nonce body =
      signing_bytes X verb' path' reference' timestamp' nonce' body'"
    and "list_all (\<lambda>f. length f < 4294967296) [verb, path, reference, timestamp, nonce, sha256 X body]"
    and "list_all (\<lambda>f. length f < 4294967296) [verb', path', reference', timestamp', nonce', sha256 X body']"
  shows "to_ascii_uppercase verb = to_ascii_uppercase verb' \<and> path = path' \<and> reference = reference' \<and>
    timestamp = timestamp' \<and> nonce = nonce' \<and> sha256 X body = sha256 X body'"
proof -
  have "length (to_ascii_uppercase v) = length v" for v
    by (simp add: to_ascii_uppercase_def)
  with append_fields_unique [OF assms(1) [unfolded signing_bytes_fields]] assms(2,3) show ?thesis
    by (auto simp: signing_context_def)
qed

theorem signature_binds_request_witness:
  "signing_bytes toy ''GET'' ''/v1/exports'' ''h'' ''1'' ''n'' [] \<noteq>
   signing_bytes toy ''GET'' ''/v1/export'' ''sh'' ''1'' ''n'' []"
proof
  assume "signing_bytes toy ''GET'' ''/v1/exports'' ''h'' ''1'' ''n'' [] =
    signing_bytes toy ''GET'' ''/v1/export'' ''sh'' ''1'' ''n'' []"
  from signature_binds_request [OF this] show False by (simp add: toy_def)
qed


text \<open>
  C37. A duration the operator prints in its terms is read back as the same number of seconds.
\<close>

theorem duration_roundtrip:
  assumes "0 \<le> s" "in_i64 s"
  shows "duration_seconds (iso_duration s) = Some s"
  by (rule duration_seconds_iso [OF assms])

theorem duration_roundtrip_witness:
  "duration_seconds (iso_duration 0) = Some 0 \<and> duration_seconds (iso_duration 21600) = Some 21600 \<and>
   duration_seconds (iso_duration 90061) = Some 90061"
  by (simp add: duration_roundtrip i64_defs)

end
